(* ===== verification/Prelude.thy ===== *)
theory Prelude
  imports Main "HOL-Library.Word"
begin

text \<open>
  Shared vocabulary of the development: bytes, the outcomes a C++ call can have (a value, an
  exception, a call of \<open>exit\<close>, undefined behaviour, waiting for ever on a socket, not returning),
  the programs built from such calls, and the generic facts about them that the component theories
  use.

  A program over a state \<open>'s\<close> is a function \<open>'s \<Rightarrow> ('a result \<times> 's) option\<close>.  \<open>None\<close> is a loop
  that never ends.  \<open>Some (Fail e, s)\<close> leaves the function abruptly in state \<open>s\<close>, so that what was
  already sent or stored before the failure is still visible.
\<close>

named_theorems prog_simps \<open>unfolding of the program combinators\<close>
named_theorems keeps_intros \<open>rules that show that a program keeps an invariant\<close>

type_synonym byte = "8 word"

section \<open>Outcomes and programs\<close>

datatype ub =
    OutOfBounds    \<comment> \<open>access outside an array, a span or a string view\<close>
  | Uninitialized  \<comment> \<open>use of an object that was never given a value\<close>
  | WildPointer    \<comment> \<open>access through an integer reinterpreted as a pointer\<close>
  | Dangling       \<comment> \<open>access through a view of an object that no longer exists\<close>
  | NoReturn       \<comment> \<open>flowing off the end of a function that returns a value\<close>

datatype exn =
    RuntimeError string
  | SystemError int string
  | OutOfRange

datatype failure =
    Undefined ub
  | Thrown exn
  | Exited int
  | Terminated     \<comment> \<open>\<open>std::terminate\<close>\<close>
  | Blocked        \<comment> \<open>the call waits for an event that the environment does not offer\<close>

datatype 'a result = Val 'a | Fail failure

type_synonym ('s, 'a) prog = "'s \<Rightarrow> ('a result \<times> 's) option"

definition returns :: "'a \<Rightarrow> ('s, 'a) prog" where
  "returns a s = Some (Val a, s)"

definition fails :: "failure \<Rightarrow> ('s, 'a) prog" where
  "fails e s = Some (Fail e, s)"

definition bnd :: "('s, 'a) prog \<Rightarrow> ('a \<Rightarrow> ('s, 'b) prog) \<Rightarrow> ('s, 'b) prog" where
  "bnd m f s = (case m s of
      None \<Rightarrow> None
    | Some (r, s') \<Rightarrow> (case r of Val a \<Rightarrow> f a s' | Fail e \<Rightarrow> Some (Fail e, s')))"

definition seq :: "('s, 'a) prog \<Rightarrow> ('s, 'b) prog \<Rightarrow> ('s, 'b) prog" where
  "seq m n = bnd m (\<lambda>_. n)"

definition gets :: "('s \<Rightarrow> 'a) \<Rightarrow> ('s, 'a) prog" where
  "gets f s = Some (Val (f s), s)"

definition modifies :: "('s \<Rightarrow> 's) \<Rightarrow> ('s, unit) prog" where
  "modifies f s = Some (Val (), f s)"

definition check :: "bool \<Rightarrow> failure \<Rightarrow> ('s, unit) prog" where
  "check b e = (if b then returns () else fails e)"

definition lifts :: "'a result \<Rightarrow> ('s, 'a) prog" where
  "lifts r s = Some (r, s)"

fun rbind :: "'a result \<Rightarrow> ('a \<Rightarrow> 'b result) \<Rightarrow> 'b result" where
  "rbind (Val a) f = f a"
| "rbind (Fail e) f = Fail e"

text \<open>A program on a part of the state, run on the whole state.\<close>

definition zoom :: "('s \<Rightarrow> 't) \<Rightarrow> ('t \<Rightarrow> 's \<Rightarrow> 's) \<Rightarrow> ('t, 'a) prog \<Rightarrow> ('s, 'a) prog" where
  "zoom get put m s = (case m (get s) of None \<Rightarrow> None | Some (r, t) \<Rightarrow> Some (r, put t s))"

definition overwrite :: "nat \<Rightarrow> 'a list \<Rightarrow> 'a list \<Rightarrow> 'a list" where
  "overwrite off bs xs = take off xs @ bs @ drop (off + length bs) xs"

definition slice :: "nat \<Rightarrow> nat \<Rightarrow> 'a list \<Rightarrow> 'a list" where
  "slice off n xs = take n (drop off xs)"

text \<open>Subtraction of two \<open>size_t\<close> values wraps around at 64 bits.\<close>

definition size_sub :: "nat \<Rightarrow> nat \<Rightarrow> nat" where
  "size_sub a b = unat (word_of_nat a - word_of_nat b :: 64 word)"

definition keeps :: "('s \<Rightarrow> bool) \<Rightarrow> ('s, 'a) prog \<Rightarrow> bool" where
  "keeps I m \<longleftrightarrow> (\<forall>s r s'. I s \<longrightarrow> m s = Some (r, s') \<longrightarrow> I s')"

subsection \<open>The combinators as rewrite rules\<close>

lemma returns_apply [simp, prog_simps]: "returns a s = Some (Val a, s)"
  by (simp add: returns_def)

lemma fails_apply [simp, prog_simps]: "fails e s = Some (Fail e, s)"
  by (simp add: fails_def)

lemma gets_apply [simp, prog_simps]: "gets f s = Some (Val (f s), s)"
  by (simp add: gets_def)

lemma modifies_apply [simp, prog_simps]: "modifies f s = Some (Val (), f s)"
  by (simp add: modifies_def)

lemma lifts_apply [simp, prog_simps]: "lifts r s = Some (r, s)"
  by (simp add: lifts_def)

lemma check_apply [simp, prog_simps]:
  "check b e s = (if b then Some (Val (), s) else Some (Fail e, s))"
  by (simp add: check_def)

lemma bnd_Val [simp]: "m s = Some (Val a, s') \<Longrightarrow> bnd m f s = f a s'"
  by (simp add: bnd_def)

lemma bnd_Fail [simp]: "m s = Some (Fail e, s') \<Longrightarrow> bnd m f s = Some (Fail e, s')"
  by (simp add: bnd_def)

lemma bnd_None [simp]: "m s = None \<Longrightarrow> bnd m f s = None"
  by (simp add: bnd_def)

lemma seq_Val [simp]: "m s = Some (Val a, s') \<Longrightarrow> seq m n s = n s'"
  by (simp add: seq_def)

lemma seq_Fail [simp]: "m s = Some (Fail e, s') \<Longrightarrow> seq m n s = Some (Fail e, s')"
  by (simp add: seq_def)

lemma seq_None [simp]: "m s = None \<Longrightarrow> seq m n s = None"
  by (simp add: seq_def)

lemma bnd_check [simp]:
  "bnd (check b e) f s = (if b then f () s else Some (Fail e, s))"
  by (simp add: bnd_def)

lemma seq_check [simp]:
  "seq (check b e) n s = (if b then n s else Some (Fail e, s))"
  by (simp add: seq_def)

lemma bnd_SomeE:
  assumes "bnd m f s = Some (r, s')"
  obtains (val) a s1 where "m s = Some (Val a, s1)" "f a s1 = Some (r, s')"
    | (fail) e where "m s = Some (Fail e, s')" "r = Fail e"
  using assms by (auto simp: bnd_def split: option.splits result.splits)

lemma bnd_ValE:
  assumes "bnd m f s = Some (Val b, s')"
  obtains a s1 where "m s = Some (Val a, s1)" "f a s1 = Some (Val b, s')"
  using assms by (auto elim: bnd_SomeE)

lemma seq_ValE:
  assumes "seq m n s = Some (Val b, s')"
  obtains a s1 where "m s = Some (Val a, s1)" "n s1 = Some (Val b, s')"
  using assms by (auto simp: seq_def elim: bnd_ValE)

lemma bnd_assoc: "bnd (bnd m f) g = bnd m (\<lambda>a. bnd (f a) g)"
  by (rule ext) (simp add: bnd_def split: option.split result.split)

lemma bnd_mono [partial_function_mono]:
  assumes "\<And>a s. option.mono_body (\<lambda>f. B a f s)"
  shows "option.mono_body (\<lambda>f. bnd m (\<lambda>a. B a f) s)"
  using assms unfolding bnd_def
  by (auto simp: monotone_def flat_ord_def split: option.splits result.splits)

lemma zoom_Some:
  "m (get s) = Some (r, t) \<Longrightarrow> zoom get put m s = Some (r, put t s)"
  by (simp add: zoom_def)

lemma rbind_Val_iff: "rbind r f = Val b \<longleftrightarrow> (\<exists>a. r = Val a \<and> f a = Val b)"
  by (cases r) auto

subsection \<open>Programs that keep an invariant\<close>

lemma keepsI: "(\<And>s r s'. I s \<Longrightarrow> m s = Some (r, s') \<Longrightarrow> I s') \<Longrightarrow> keeps I m"
  by (auto simp: keeps_def)

lemma keepsD: "keeps I m \<Longrightarrow> m s = Some (r, s') \<Longrightarrow> I s \<Longrightarrow> I s'"
  by (auto simp: keeps_def)

lemma keeps_returns [keeps_intros]: "keeps I (returns a)"
  by (simp add: keeps_def)

lemma keeps_fails [keeps_intros]: "keeps I (fails e)"
  by (simp add: keeps_def)

lemma keeps_gets [keeps_intros]: "keeps I (gets f)"
  by (simp add: keeps_def)

lemma keeps_lifts [keeps_intros]: "keeps I (lifts r)"
  by (simp add: keeps_def)

lemma keeps_check [keeps_intros]: "keeps I (check b e)"
  by (simp add: keeps_def)

lemma keeps_modifies [keeps_intros]: "(\<And>s. I s \<Longrightarrow> I (f s)) \<Longrightarrow> keeps I (modifies f)"
  by (simp add: keeps_def)

lemma keeps_bnd [keeps_intros]:
  "keeps I m \<Longrightarrow> (\<And>a. keeps I (f a)) \<Longrightarrow> keeps I (bnd m f)"
  by (rule keepsI) (auto elim!: bnd_SomeE dest: keepsD)

lemma keeps_seq [keeps_intros]: "keeps I m \<Longrightarrow> keeps I n \<Longrightarrow> keeps I (seq m n)"
  unfolding seq_def by (rule keeps_bnd)

lemma keeps_if [keeps_intros]:
  "(b \<Longrightarrow> keeps I m) \<Longrightarrow> (\<not> b \<Longrightarrow> keeps I n) \<Longrightarrow> keeps I (if b then m else n)"
  by simp

lemma keeps_case_option [keeps_intros]:
  "(x = None \<Longrightarrow> keeps I m) \<Longrightarrow> (\<And>a. x = Some a \<Longrightarrow> keeps I (f a)) \<Longrightarrow>
    keeps I (case x of None \<Rightarrow> m | Some a \<Rightarrow> f a)"
  by (cases x) auto

lemma keeps_case_prod [keeps_intros]:
  "(\<And>a b. x = (a, b) \<Longrightarrow> keeps I (f a b)) \<Longrightarrow> keeps I (case x of (a, b) \<Rightarrow> f a b)"
  by (cases x) auto

lemma keeps_zoom [keeps_intros]:
  assumes "\<And>s r t. I s \<Longrightarrow> m (get s) = Some (r, t) \<Longrightarrow> I (put t s)"
  shows "keeps I (zoom get put m)"
  using assms by (auto simp: keeps_def zoom_def split: option.splits)

section \<open>Lists\<close>

lemma length_overwrite [simp]:
  "off + length bs \<le> length xs \<Longrightarrow> length (overwrite off bs xs) = length xs"
  by (simp add: overwrite_def)

lemma length_slice [simp]: "off + n \<le> length xs \<Longrightarrow> length (slice off n xs) = n"
  by (simp add: slice_def)

lemma slice_overwrite_same:
  "off + length bs \<le> length xs \<Longrightarrow> slice off (length bs) (overwrite off bs xs) = bs"
  by (simp add: slice_def overwrite_def)

lemma nth_overwrite:
  assumes "off + length bs \<le> length xs"
  shows "overwrite off bs xs ! i =
    (if off \<le> i \<and> i < off + length bs then bs ! (i - off) else xs ! i)"
  using assms by (auto simp: overwrite_def nth_append)

lemma nth_slice: "off + n \<le> length xs \<Longrightarrow> i < n \<Longrightarrow> slice off n xs ! i = xs ! (off + i)"
  by (simp add: slice_def)

lemma slice_overwrite_other:
  assumes "off + length bs \<le> length xs" and "off' + n \<le> length xs"
    and "off' + n \<le> off \<or> off + length bs \<le> off'"
  shows "slice off' n (overwrite off bs xs) = slice off' n xs"
  using assms by (intro nth_equalityI) (auto simp: nth_slice nth_overwrite)

lemma slice_all [simp]: "slice 0 (length xs) xs = xs"
  by (simp add: slice_def)

lemma take_overwrite_prefix:
  "off + length bs \<le> length xs \<Longrightarrow>
    take (off + length bs) (overwrite off bs xs) = take off xs @ bs"
  by (simp add: overwrite_def)

lemma overwrite_Nil [simp]: "overwrite off [] xs = xs"
  by (simp add: overwrite_def)

section \<open>Wrap-around of sizes\<close>

lemma size_sub_le:
  assumes "b \<le> a" and "a < 2 ^ 64"
  shows "size_sub a b = a - b"
proof -
  have "word_of_nat a - word_of_nat b = (word_of_nat (a - b) :: 64 word)"
    using assms(1) by simp
  moreover have "a - b < 2 ^ LENGTH(64)"
    using assms(2) by simp
  ultimately show ?thesis
    by (simp add: size_sub_def unat_of_nat)
qed

lemma size_sub_wrap:
  assumes "a < b" and "b \<le> 2 ^ 63"
  shows "2 ^ 63 \<le> size_sub a b"
proof -
  have "word_of_nat a - word_of_nat b = (word_of_nat (2 ^ 64 + a - b) :: 64 word)"
    using assms by (simp add: of_nat_diff)
  moreover have "2 ^ 64 + a - b < 2 ^ LENGTH(64)"
    using assms by simp
  ultimately have "size_sub a b = 2 ^ 64 + a - b"
    by (simp add: size_sub_def unat_of_nat del: of_nat_diff)
  then show ?thesis
    using assms by simp
qed

section \<open>Encodings\<close>

text \<open>
  An encoding into lists with its decoder: the contract that the hexadecimal text of a byte, the
  bytes of a register and the frame of a packet all satisfy.  A list of values encoded one after
  the other is decoded back when every code has the same length.
\<close>

locale codec =
  fixes enc :: "'a \<Rightarrow> 'b list" and dec :: "'b list \<Rightarrow> 'a option" and width :: nat
  assumes dec_enc: "dec (enc x) = Some x"
    and enc_width: "length (enc x) = width"
    and width_pos: "0 < width"
begin

lemma enc_inject: "enc x = enc y \<longleftrightarrow> x = y"
  by (metis dec_enc option.inject)

lemma enc_list_width: "length (concat (map enc xs)) = width * length xs"
  by (induction xs) (simp_all add: enc_width)

lemma enc_list_inject: "concat (map enc xs) = concat (map enc ys) \<longleftrightarrow> xs = ys"
proof (induction xs arbitrary: ys)
  case Nil
  show ?case
    using enc_width width_pos by (cases ys) (auto, metis length_0_conv less_numeral_extra(3))
next
  case (Cons x xs)
  show ?case
  proof (cases ys)
    case Nil
    have "enc x \<noteq> []"
      using enc_width [of x] width_pos by auto
    with Nil show ?thesis by simp
  next
    case (Cons y ys')
    have "length (enc x) = length (enc y)"
      by (simp add: enc_width)
    then show ?thesis
      using Cons Cons.IH [of ys'] by (auto simp: enc_inject)
  qed
qed

end

end
