(* ===== verification/Socket.thy ===== *)
theory Socket
  imports Prelude
begin

text \<open>
  The socket layer (\<open>src/rsp/Socket.hpp\<close>, \<open>src/rsp/Socket.cpp\<close>) over the operating system.

  The operating system is the environment of the model, the record \<open>env\<close>: what the calls
  \<open>recv\<close>, \<open>send\<close> and \<open>accept\<close> will answer, in order, and what was sent and printed so far.  How a
  peer's bytes are cut into the pieces that single calls of \<open>recv\<close> return is part of that
  environment, as are partial sends and errors; nothing is assumed about it beyond the documented
  behaviour of stream sockets.  The class \<open>Socket\<close> is the record that extends \<open>env\<close>, and the
  classes derived from it extend it further, as in the sources.
\<close>

section \<open>The operating system\<close>

datatype rx_event =
    Chunk string    \<comment> \<open>bytes that one call of \<open>recv\<close> can see\<close>
  | Hangup          \<comment> \<open>orderly shutdown: \<open>recv\<close> answers 0 from now on\<close>
  | RecvError int

datatype tx_event = Accept nat | SendError int

datatype client =
    Client int bool "rx_event list"  \<comment> \<open>descriptor, success of \<open>setsockopt\<close>, its input\<close>
  | AcceptError int

record env =
  rxq :: "rx_event list"
  txq :: "tx_event list"
  clients :: "client list"
  sent :: string
  cout :: string

record socket = env +
  m_tcp :: bool
  m_socketFd :: int
  m_clientFd :: int

text \<open>The answers of the calls that set up a listening socket, and \<open>errno\<close> after each.\<close>

record os_setup =
  errno_entry :: int
  remove_ret :: int
  remove_errno :: int
  socket_ret :: int
  socket_errno :: int
  bind_ret :: int
  bind_errno :: int
  listen_ret :: int
  listen_errno :: int

definition ENOENT :: int where
  "ENOENT = 2"

definition sun_path_size :: nat where
  "sun_path_size = 108"

fun format_nat_d :: "nat \<Rightarrow> string" where
  "format_nat_d n =
     (if n < 10 then [char_of (48 + n)] else format_nat_d (n div 10) @ [char_of (48 + n mod 10)])"

declare format_nat_d.simps [simp del]

definition format_d :: "int \<Rightarrow> string" where
  "format_d i = (if i < 0 then CHR ''-'' # format_nat_d (nat (- i)) else format_nat_d (nat i))"

definition newline :: string where
  "newline = [CHR 0x0A]"

definition print :: "string \<Rightarrow> ('z env_scheme, unit) prog" where
  "print str = modifies (\<lambda>s. s\<lparr>cout := cout s @ str\<rparr>)"

lemma seq_print: "seq (print str) n s = n (s\<lparr>cout := cout s @ str\<rparr>)"
  by (simp add: seq_def bnd_def print_def)

lemma print_apply: "print str s = Some (Val (), s\<lparr>cout := cout s @ str\<rparr>)"
  by (simp add: print_def)

section \<open>Listening\<close>

definition listenUnix :: "os_setup \<Rightarrow> string \<Rightarrow> ('z socket_scheme, unit) prog" where
  "listenUnix os name =
     seq (print (''SOCKET: Creating UNIX socket '' @ name @ newline))
    (seq (check (\<not> (length name = 0 \<or> length name > sun_path_size - 1))
            (Thrown (SystemError (errno_entry os)
              (''SOCKET: Server UNIX socket path too long: '' @ name @ newline))))
    (seq (check (\<not> (remove_ret os = - 1 \<and> remove_errno os \<noteq> ENOENT))
            (Thrown (SystemError (remove_errno os)
              (''SOCKET: Failed to remove UNIX socket file '' @ name @ newline))))
    (seq (modifies (\<lambda>s. s\<lparr>m_socketFd := socket_ret os\<rparr>))
    (seq (print (''SOCKET: UNIX socket fd = '' @ format_d (socket_ret os) @ newline))
    (seq (check (bind_ret os = 0)
            (Thrown (SystemError (bind_errno os) (''SOCKET: Bind failed'' @ newline))))
    (seq (print (''SOCKET: Socket successfully binded...'' @ newline))
    (seq (check (listen_ret os \<noteq> - 1)
            (Thrown (SystemError (listen_errno os) (''SOCKET: Listen failed'' @ newline))))
    (print (''SOCKET: Server listening..'' @ newline)))))))))"

text \<open>
  The messages of the TCP variant use \<open>printf\<close> conversions in a call of \<open>std::print\<close>, which prints
  them as they stand; a failed \<open>bind\<close> or \<open>listen\<close> is printed and the function returns normally.
\<close>

definition listenTcp :: "os_setup \<Rightarrow> 16 word \<Rightarrow> ('z socket_scheme, unit) prog" where
  "listenTcp os port =
     seq (modifies (\<lambda>s. s\<lparr>m_socketFd := socket_ret os\<rparr>))
    (seq (check (socket_ret os \<noteq> - 1)
            (Thrown (SystemError (socket_errno os)
              (''SOCKET: Server TCP socket creation failed...'' @ newline))))
    (seq (print (''SOCKET: TCP socket fd = %d'' @ newline))
    (if bind_ret os \<noteq> 0 then print (''SOCKET: Bind failed with errno = %0d.'' @ newline)
     else seq (print (''SOCKET: Socket successfully binded...'' @ newline))
      (if listen_ret os \<noteq> 0 then print (''SOCKET: Listen failed.'' @ newline)
       else print (''SOCKET: Server listening..'' @ newline)))))"

section \<open>Accepting a client\<close>

text \<open>
  \<open>accept\<close> takes the next connection; its bytes are then what \<open>recv\<close> sees.
\<close>

definition os_accept :: "('z socket_scheme, client) prog" where
  "os_accept s = (case clients s of
      [] \<Rightarrow> Some (Fail Blocked, s)
    | c # cs \<Rightarrow> Some (Val c, (case c of
          Client fd opt input \<Rightarrow> s\<lparr>clients := cs, m_clientFd := fd, rxq := input\<rparr>
        | AcceptError e \<Rightarrow> s\<lparr>clients := cs, m_clientFd := - 1\<rparr>)))"

definition acceptUnix :: "('z socket_scheme, unit) prog" where
  "acceptUnix =
     seq (print (''SOCKET: Waiting for client to connect...'' @ newline))
    (seq os_accept
    (bnd (gets m_clientFd) (\<lambda>fd.
       if fd < 0 then
         seq (print (''SOCKET: Server accept failed with errno = %d.'' @ newline)) (fails (Exited 0))
       else print (''SOCKET: Accepted client connection fd = %d'' @ newline))))"

definition acceptTcp :: "('z socket_scheme, unit) prog" where
  "acceptTcp =
     bnd os_accept (\<lambda>c.
     bnd (gets m_clientFd) (\<lambda>fd.
       if fd < 0 then
         seq (print (''SOCKET: Server accept failed with errno = %d.'' @ newline)) (fails (Exited 0))
       else
         seq (print (''SOCKET: Accepted client connection fd = %d'' @ newline))
         (case c of
            Client _ True _ \<Rightarrow> print (''SOCKET: Server socket options set.'' @ newline)
          | _ \<Rightarrow> seq (print (''SOCKET: Server socket options failed with errno = %d.'' @ newline))
                 (fails (Exited 0)))))"

definition accept :: "('z socket_scheme, unit) prog" where
  "accept = bnd (gets m_tcp) (\<lambda>tcp. if tcp then acceptTcp else acceptUnix)"

section \<open>Construction and destruction\<close>

definition Socket_name :: "os_setup \<Rightarrow> string \<Rightarrow> ('z socket_scheme, unit) prog" where
  "Socket_name os name =
     seq (listenUnix os name) (seq (modifies (\<lambda>s. s\<lparr>m_tcp := False\<rparr>)) accept)"

definition Socket_port :: "os_setup \<Rightarrow> 16 word \<Rightarrow> ('z socket_scheme, unit) prog" where
  "Socket_port os port =
     seq (listenTcp os port) (seq (modifies (\<lambda>s. s\<lparr>m_tcp := True\<rparr>)) accept)"

text \<open>A destructor is \<open>noexcept\<close>: an exception that leaves it ends the program.\<close>

definition Socket_destructor :: "int \<Rightarrow> ('z socket_scheme, unit) prog" where
  "Socket_destructor close_ret =
     (if close_ret = - 1 then fails Terminated
      else print ''SOCKET: Closed connection from client.'')"

section \<open>Transfer\<close>

definition send :: "string \<Rightarrow> ('z socket_scheme, nat) prog" where
  "send data s = (case txq s of
      [] \<Rightarrow> Some (Val (length data), s\<lparr>sent := sent s @ data\<rparr>)
    | Accept k # q \<Rightarrow>
        Some (Val (min k (length data)), s\<lparr>txq := q, sent := sent s @ take k data\<rparr>)
    | SendError e # q \<Rightarrow> Some (Fail (Thrown (SystemError e ''SEND failed'')), s\<lparr>txq := q\<rparr>))"

text \<open>
  \<open>recv\<close> with room for \<open>n\<close> bytes returns the bytes it stored; the status is their number.  With
  \<open>MSG_PEEK\<close> the bytes stay in the queue.
\<close>

definition recv :: "nat \<Rightarrow> bool \<Rightarrow> ('z socket_scheme, string) prog" where
  "recv n peek s = (case rxq s of
      [] \<Rightarrow> Some (Fail Blocked, s)
    | Chunk c # q \<Rightarrow>
        Some (Val (take n c),
          if peek then s
          else if length c \<le> n then s\<lparr>rxq := q\<rparr>
          else s\<lparr>rxq := Chunk (drop n c) # q\<rparr>)
    | Hangup # q \<Rightarrow> Some (Val [], s)
    | RecvError e # q \<Rightarrow> Some (Fail (Thrown (SystemError e ''RECV failed'')), s\<lparr>rxq := q\<rparr>))"

section \<open>What the packet layer relies on\<close>

text \<open>
  A sink for bytes: every call takes a non-empty prefix of what it is offered, and changes nothing
  that \<open>frame\<close> shows.
\<close>

locale byte_sink =
  fixes snd_call :: "string \<Rightarrow> ('s, nat) prog"
    and written :: "'s \<Rightarrow> string"
    and ready :: "'s \<Rightarrow> bool"
    and frame :: "'s \<Rightarrow> 'f"
  assumes sink_progress:
    "ready s \<Longrightarrow> data \<noteq> [] \<Longrightarrow>
      \<exists>k s'. snd_call data s = Some (Val k, s') \<and> 0 < k \<and> k \<le> length data \<and>
        written s' = written s @ take k data \<and> ready s' \<and> frame s' = frame s"

definition tx_ready :: "'z env_scheme \<Rightarrow> bool" where
  "tx_ready s \<longleftrightarrow> (\<forall>e \<in> set (txq s). case e of Accept k \<Rightarrow> 0 < k | SendError _ \<Rightarrow> False)"

definition tx_frame :: "'z env_scheme \<Rightarrow> 'z env_scheme" where
  "tx_frame s = s\<lparr>sent := [], txq := []\<rparr>"

interpretation socket_sink: byte_sink send sent tx_ready "tx_frame :: 'z socket_scheme \<Rightarrow> 'z socket_scheme"
proof unfold_locales
  fix s :: "'z socket_scheme" and data :: string
  assume ready: "tx_ready s" and data: "data \<noteq> []"
  show "\<exists>k s'. send data s = Some (Val k, s') \<and> 0 < k \<and> k \<le> length data \<and>
      sent s' = sent s @ take k data \<and> tx_ready s' \<and> tx_frame s' = tx_frame s"
  proof (cases "txq s")
    case Nil
    with data show ?thesis
      by (auto simp: send_def tx_ready_def tx_frame_def)
  next
    case (Cons e q)
    with ready obtain k where "e = Accept k" "0 < k"
      by (auto simp: tx_ready_def split: tx_event.splits)
    with Cons ready data show ?thesis
      by (auto simp: send_def tx_ready_def tx_frame_def min_def)
  qed
qed

text \<open>
  A source of bytes, as a list of pieces still to be delivered: a call with room for \<open>n\<close> bytes
  takes at most the first piece.
\<close>

locale byte_source =
  fixes rcv_call :: "nat \<Rightarrow> ('s, string) prog"
    and pending :: "'s \<Rightarrow> string list"
    and with_pending :: "'s \<Rightarrow> string list \<Rightarrow> 's"
  assumes source_fits: "pending s = c # cs \<Longrightarrow> c \<noteq> [] \<Longrightarrow> length c \<le> n \<Longrightarrow>
      rcv_call n s = Some (Val c, with_pending s cs)"
    and source_cut: "pending s = c # cs \<Longrightarrow> n < length c \<Longrightarrow>
      rcv_call n s = Some (Val (take n c), with_pending s (drop n c # cs))"
    and source_with: "pending s = c # cs \<Longrightarrow> pending (with_pending s ds) = ds"
    and source_with_with: "with_pending (with_pending s cs) ds = with_pending s ds"
    and source_with_same: "with_pending s (pending s) = s"

fun chunks :: "rx_event list \<Rightarrow> string list" where
  "chunks (Chunk c # q) = c # chunks q"
| "chunks _ = []"

fun after_chunks :: "rx_event list \<Rightarrow> rx_event list" where
  "after_chunks (Chunk c # q) = after_chunks q"
| "after_chunks q = q"

definition rx_pending :: "'z env_scheme \<Rightarrow> string list" where
  "rx_pending s = chunks (rxq s)"

definition rx_with_pending :: "'z env_scheme \<Rightarrow> string list \<Rightarrow> 'z env_scheme" where
  "rx_with_pending s cs = s\<lparr>rxq := map Chunk cs @ after_chunks (rxq s)\<rparr>"

lemma chunks_append: "chunks (map Chunk cs @ q) = cs @ chunks q"
  by (induction cs) auto

lemma after_chunks_append: "after_chunks (map Chunk cs @ q) = after_chunks q"
  by (induction cs) auto

lemma chunks_after_chunks: "chunks (after_chunks q) = []"
  by (induction q rule: after_chunks.induct) auto

lemma after_chunks_idem [simp]: "after_chunks (after_chunks q) = after_chunks q"
  by (induction q rule: after_chunks.induct) auto

lemma chunks_split: "map Chunk (chunks q) @ after_chunks q = q"
  by (induction q rule: chunks.induct) auto

lemma chunks_ConsD: "chunks q = c # cs \<Longrightarrow> q = Chunk c # map Chunk cs @ after_chunks q"
  by (metis append_Cons chunks_split list.simps(9))

interpretation socket_source: byte_source "\<lambda>n. recv n False" rx_pending
  "rx_with_pending :: 'z socket_scheme \<Rightarrow> string list \<Rightarrow> 'z socket_scheme"
proof (unfold_locales, goal_cases)
  case (1 s c cs n)
  from 1(1) have q: "rxq s = Chunk c # map Chunk cs @ after_chunks (rxq s)"
    by (simp add: rx_pending_def chunks_ConsD)
  have "recv n False s = Some (Val c, s\<lparr>rxq := map Chunk cs @ after_chunks (rxq s)\<rparr>)"
    using 1(3) by (subst recv_def, subst q) simp
  then show ?case by (simp add: rx_with_pending_def)
next
  case (2 s c cs n)
  from 2(1) have q: "rxq s = Chunk c # map Chunk cs @ after_chunks (rxq s)"
    by (simp add: rx_pending_def chunks_ConsD)
  have "recv n False s = Some (Val (take n c), s\<lparr>rxq := map Chunk (drop n c # cs) @ after_chunks (rxq s)\<rparr>)"
    using 2(2) by (subst recv_def, subst q) simp
  then show ?case by (simp add: rx_with_pending_def)
next
  case (3 s c cs ds)
  then show ?case
    by (simp add: rx_pending_def rx_with_pending_def chunks_append chunks_after_chunks)
next
  case (4 s cs ds)
  then show ?case
    by (simp add: rx_with_pending_def after_chunks_append)
next
  case (5 s)
  then show ?case
    by (simp add: rx_pending_def rx_with_pending_def chunks_split)
qed

end
