(* ===== verification/Cxx_Std.thy ===== *)
theory Cxx_Std
  imports Prelude
begin

text \<open>
  The parts of the C and C++ standard libraries that the sources call: hexadecimal formatting
  (\<open>std::format\<close> with \<open>{:02x}\<close> and \<open>{:x}\<close>), \<open>std::from_chars\<close> in base 16, string views,
  \<open>views::split\<close> and \<open>views::join_with\<close>, and \<open>std::sscanf\<close> with the conversions \<open>%x\<close>,
  \<open>%8x\<close>, \<open>%16x\<close> and \<open>%c\<close>.

  A string view knows what is stored behind its last character (\<open>beyond\<close>), because the sources pass
  \<open>view.data()\<close> to \<open>sscanf\<close>, which reads on past the end of the view.  The conversion \<open>%x\<close> is
  modelled as the C library of the 64-bit Linux target performs it: white space, a sign, a prefix
  \<open>0x\<close>, the digits that fit the field width, conversion at 64 bits with saturation, and truncation
  to the 32 bits of the destination.
\<close>

named_theorems std_simps \<open>evaluation of the library functions\<close>

section \<open>Characters and hexadecimal digits\<close>

definition byte_of_char :: "char \<Rightarrow> byte" where
  "byte_of_char c = word_of_nat (of_char c)"

definition char_of_byte :: "byte \<Rightarrow> char" where
  "char_of_byte b = char_of (unat b)"

definition hex_digit :: "nat \<Rightarrow> char" where
  "hex_digit n = ''0123456789abcdef'' ! n"

definition hex_val :: "char \<Rightarrow> nat option" where
  "hex_val c = (let n = (of_char c :: nat) in
     if 48 \<le> n \<and> n \<le> 57 then Some (n - 48)
     else if 97 \<le> n \<and> n \<le> 102 then Some (n - 87)
     else if 65 \<le> n \<and> n \<le> 70 then Some (n - 55)
     else None)"

definition is_hex :: "char \<Rightarrow> bool" where
  "is_hex c \<longleftrightarrow> hex_val c \<noteq> None"

definition hex_number :: "string \<Rightarrow> nat" where
  "hex_number ds = foldl (\<lambda>a c. 16 * a + the (hex_val c)) 0 ds"

text \<open>\<open>std::format("{:02x}", b)\<close> of a byte and \<open>std::format("{:x}", i)\<close> of an \<open>int\<close>.\<close>

definition format_02x :: "byte \<Rightarrow> string" where
  "format_02x b = [hex_digit (unat b div 16), hex_digit (unat b mod 16)]"

fun format_nat_x :: "nat \<Rightarrow> string" where
  "format_nat_x n =
     (if n < 16 then [hex_digit n] else format_nat_x (n div 16) @ [hex_digit (n mod 16)])"

declare format_nat_x.simps [simp del]

definition format_x :: "int \<Rightarrow> string" where
  "format_x i = (if i < 0 then CHR ''-'' # format_nat_x (nat (- i)) else format_nat_x (nat i))"

text \<open>
  \<open>std::from_chars(first, last, value, 16)\<close> on an unsigned value: the longest run of digits; no
  digit at all leaves the value alone, which is \<open>None\<close> here.
\<close>

definition from_chars_16 :: "string \<Rightarrow> nat option" where
  "from_chars_16 s = (let ds = takeWhile is_hex s in if ds = [] then None else Some (hex_number ds))"

section \<open>String views\<close>

record view =
  chars :: string
  beyond :: string

definition npos :: nat where
  "npos = 2 ^ 64 - 1"

definition substr :: "view \<Rightarrow> nat \<Rightarrow> nat \<Rightarrow> view result" where
  "substr v pos n =
     (if length (chars v) < pos then Fail (Thrown OutOfRange)
      else let t = drop pos (chars v) in
        Val \<lparr>chars = take n t, beyond = drop n t @ beyond v\<rparr>)"

definition starts_with :: "string \<Rightarrow> string \<Rightarrow> bool" where
  "starts_with t cmd \<longleftrightarrow> take (length cmd) t = cmd"

definition nul :: char where
  "nul = CHR 0x00"

text \<open>What a C function reads from \<open>v.data()\<close>.\<close>

definition c_str :: "view \<Rightarrow> string" where
  "c_str v = takeWhile (\<lambda>c. c \<noteq> nul) (chars v @ beyond v)"

function split_from :: "char \<Rightarrow> string \<Rightarrow> string \<Rightarrow> view list" where
  "split_from c t b =
     (case dropWhile (\<lambda>x. x \<noteq> c) t of
        [] \<Rightarrow> [\<lparr>chars = t, beyond = b\<rparr>]
      | d # r \<Rightarrow> \<lparr>chars = takeWhile (\<lambda>x. x \<noteq> c) t, beyond = d # r @ b\<rparr> # split_from c r b)"
  by pat_completeness auto
termination
proof (relation "measure (\<lambda>(c, t, b). length t)", goal_cases)
  case 1
  then show ?case by simp
next
  case (2 c t b d r)
  then have "length (dropWhile (\<lambda>x. x \<noteq> c) t) = Suc (length r)" by simp
  moreover have "length (dropWhile (\<lambda>x. x \<noteq> c) t) \<le> length t"
    by (rule length_dropWhile_le)
  ultimately show ?case by simp
qed

declare split_from.simps [simp del]

definition views_split :: "char \<Rightarrow> view \<Rightarrow> view list" where
  "views_split c v = (if chars v = [] then [] else split_from c (chars v) (beyond v))"

fun join_with :: "char \<Rightarrow> string list \<Rightarrow> string" where
  "join_with c [] = []"
| "join_with c [s] = s"
| "join_with c (s # t # ss) = s @ c # join_with c (t # ss)"

section \<open>sscanf\<close>

datatype fmt = Lit char | Hex "nat option" | Chr

datatype scanned = HexV "32 word" | ChrV char

definition is_space :: "char \<Rightarrow> bool" where
  "is_space c \<longleftrightarrow> c = CHR '' '' \<or> (9 \<le> (of_char c :: nat) \<and> (of_char c :: nat) \<le> 13)"

definition scan_sign :: "string \<Rightarrow> bool \<times> nat" where
  "scan_sign s = (case s of
      [] \<Rightarrow> (False, 0)
    | c # _ \<Rightarrow> if c = CHR ''-'' then (True, 1) else if c = CHR ''+'' then (False, 1) else (False, 0))"

definition scan_prefix :: "string \<Rightarrow> nat" where
  "scan_prefix s = (case s of
      c # x # _ \<Rightarrow> if c = CHR ''0'' \<and> (x = CHR ''x'' \<or> x = CHR ''X'') then 2 else 0
    | _ \<Rightarrow> 0)"

definition truncate_32 :: "bool \<Rightarrow> nat \<Rightarrow> 32 word" where
  "truncate_32 neg n =
     (if 2 ^ 64 \<le> n then - 1 else if neg then - word_of_nat n else word_of_nat n)"

definition scan_hex :: "nat option \<Rightarrow> string \<Rightarrow> (32 word \<times> string) option" where
  "scan_hex w s =
     (let s1 = dropWhile is_space s;
          field = (case w of None \<Rightarrow> s1 | Some n \<Rightarrow> take n s1);
          (neg, i) = scan_sign field;
          j = scan_prefix (drop i field);
          ds = takeWhile is_hex (drop (i + j) field)
      in if ds = [] \<and> j = 0 then None
         else Some (truncate_32 neg (hex_number ds), drop (i + j + length ds) s1))"

fun sscanf :: "fmt list \<Rightarrow> string \<Rightarrow> scanned list" where
  "sscanf [] s = []"
| "sscanf (Lit c # fs) s = (case s of [] \<Rightarrow> [] | x # r \<Rightarrow> if x = c then sscanf fs r else [])"
| "sscanf (Hex w # fs) s = (case scan_hex w s of None \<Rightarrow> [] | Some (v, r) \<Rightarrow> HexV v # sscanf fs r)"
| "sscanf (Chr # fs) s = (case s of [] \<Rightarrow> [] | x # r \<Rightarrow> ChrV x # sscanf fs r)"

subsection \<open>Bytes and characters\<close>

lemma of_char_less_256 [simp]: "(of_char c :: nat) < 256"
  by (metis nat_of_char_less_256)

lemma char_of_byte_of_char [simp]: "char_of_byte (byte_of_char c) = c"
  by (simp add: char_of_byte_def byte_of_char_def unat_of_nat)

lemma byte_of_char_of_byte [simp]: "byte_of_char (char_of_byte b) = b"
proof -
  have "unat b < 256"
    using unsigned_less [of b, where ?'a = nat] by simp
  then show ?thesis
    by (simp add: char_of_byte_def byte_of_char_def of_char_of)
qed

lemma byte_of_char_eq_iff [simp]: "byte_of_char c = byte_of_char d \<longleftrightarrow> c = d"
  by (metis char_of_byte_of_char)

lemma unat_byte_of_char [simp]: "unat (byte_of_char c) = of_char c"
  by (simp add: byte_of_char_def unat_of_nat)

subsection \<open>Hexadecimal text\<close>

lemma hex_val_all_digits: "list_all (\<lambda>n. hex_val (hex_digit n) = Some n) [0..<16]"
  by code_simp

lemma hex_val_digit [simp]: "n < 16 \<Longrightarrow> hex_val (hex_digit n) = Some n"
  using hex_val_all_digits by (simp add: list_all_iff)

lemma is_hex_digit [simp]: "n < 16 \<Longrightarrow> is_hex (hex_digit n)"
  by (simp add: is_hex_def)

lemma hex_val_less: "hex_val c = Some n \<Longrightarrow> n < 16"
  by (auto simp: hex_val_def Let_def split: if_splits)

lemma not_hex_hash [simp]: "\<not> is_hex (CHR ''#'')" "\<not> is_hex (CHR '','')" "\<not> is_hex (CHR '':'')"
  "\<not> is_hex (CHR ''x'')" "\<not> is_hex (CHR ''X'')" "\<not> is_hex (CHR ''='')" "\<not> is_hex (CHR ''-'')"
  "\<not> is_hex (CHR ''+'')"
  by (simp_all add: is_hex_def hex_val_def)

lemma hex_digit_neq_hash [simp]: "n < 16 \<Longrightarrow> hex_digit n \<noteq> CHR ''#''"
  by (metis is_hex_digit not_hex_hash(1))

lemma unat_byte_div16 [simp]: "unat (b :: byte) div 16 < 16"
  using unsigned_less [of b, where ?'a = nat] by simp

lemma length_format_02x [simp]: "length (format_02x b) = 2"
  by (simp add: format_02x_def)

lemma set_format_02x: "c \<in> set (format_02x b) \<Longrightarrow> is_hex c"
  by (auto simp: format_02x_def)

lemma hash_notin_format_02x [simp]: "CHR ''#'' \<notin> set (format_02x b)"
  using set_format_02x not_hex_hash(1) by blast

lemma hex_number_Nil [simp]: "hex_number [] = 0"
  by (simp add: hex_number_def)

lemma hex_number_snoc: "hex_number (ds @ [c]) = 16 * hex_number ds + the (hex_val c)"
  by (simp add: hex_number_def)

lemma hex_number_format_02x [simp]: "hex_number (format_02x b) = unat b"
  by (simp add: format_02x_def hex_number_def)

lemma hex_number_less: "list_all is_hex ds \<Longrightarrow> hex_number ds < 16 ^ length ds"
proof (induction ds rule: rev_induct)
  case Nil
  then show ?case by simp
next
  case (snoc c ds)
  then obtain d where d: "hex_val c = Some d"
    by (auto simp: is_hex_def)
  then have "d < 16" by (rule hex_val_less)
  moreover have "hex_number ds < 16 ^ length ds"
    using snoc by simp
  ultimately show ?case
    using d by (simp add: hex_number_snoc)
qed

lemma from_chars_format_02x [simp]: "from_chars_16 (format_02x b) = Some (unat b)"
proof -
  have digits: "takeWhile is_hex (format_02x b) = format_02x b"
    by (subst takeWhile_eq_all_conv) (simp add: set_format_02x)
  have "format_02x b \<noteq> []"
    by (simp add: format_02x_def)
  then show ?thesis
    unfolding from_chars_16_def Let_def digits by simp
qed

lemma format_02x_inject [simp]: "format_02x a = format_02x b \<longleftrightarrow> a = b"
  by (metis from_chars_format_02x option.inject word_unat_eq_iff)

lemma format_nat_x_hex: "list_all is_hex (format_nat_x n)"
proof (induction n rule: format_nat_x.induct)
  case (1 n)
  then show ?case by (subst format_nat_x.simps) simp
qed

lemma format_nat_x_nonempty [simp]: "format_nat_x n \<noteq> []"
  by (subst format_nat_x.simps) simp

lemma hex_number_format_nat_x [simp]: "hex_number (format_nat_x n) = n"
proof (induction n rule: format_nat_x.induct)
  case (1 n)
  show ?case
  proof (cases "n < 16")
    case True
    then show ?thesis
      by (subst format_nat_x.simps) (simp add: hex_number_def)
  next
    case False
    with "1.IH" show ?thesis
      by (subst format_nat_x.simps) (simp add: hex_number_snoc)
  qed
qed

lemma length_format_nat_x: "n < 16 ^ k \<Longrightarrow> 0 < k \<Longrightarrow> length (format_nat_x n) \<le> k"
proof (induction n arbitrary: k rule: format_nat_x.induct)
  case (1 n)
  show ?case
  proof (cases "n < 16")
    case True
    with "1.prems" show ?thesis
      by (subst format_nat_x.simps) simp
  next
    case False
    obtain j where k: "k = Suc j" using "1.prems"(2) by (cases k) auto
    with "1.prems"(1) have "n div 16 < 16 ^ j"
      by (simp add: less_mult_imp_div_less mult.commute)
    moreover have "0 < j"
      using "1.prems"(1) False k by (cases j) auto
    ultimately show ?thesis
      using "1.IH" [OF False, of j] False k by (subst format_nat_x.simps) simp
  qed
qed

text \<open>The two digits of a byte are a code of constant width.\<close>

definition dec_02x :: "string \<Rightarrow> byte option" where
  "dec_02x s = map_option word_of_nat (from_chars_16 s)"

interpretation hex02: codec format_02x dec_02x 2
  by unfold_locales (simp_all add: dec_02x_def)

subsection \<open>Views\<close>

lemma substr_Val_iff:
  "substr v pos n = Val w \<longleftrightarrow>
    pos \<le> length (chars v) \<and> chars w = take n (drop pos (chars v)) \<and>
    beyond w = drop n (drop pos (chars v)) @ beyond v"
  by (cases w) (auto simp: substr_def Let_def)

lemma substr_out_of_range [simp]:
  "length (chars v) < pos \<Longrightarrow> substr v pos n = Fail (Thrown OutOfRange)"
  by (simp add: substr_def)

lemma substr_in_range:
  "pos \<le> length (chars v) \<Longrightarrow>
    substr v pos n = Val \<lparr>chars = take n (drop pos (chars v)), beyond = drop n (drop pos (chars v)) @ beyond v\<rparr>"
  by (simp add: substr_def Let_def)

lemma starts_with_append [simp]: "starts_with (cmd @ t) cmd"
  by (simp add: starts_with_def)

subsection \<open>Scanning digits\<close>

definition ends_number :: "string \<Rightarrow> bool" where
  "ends_number r \<longleftrightarrow> (case r of [] \<Rightarrow> True | c # _ \<Rightarrow> \<not> is_hex c \<and> c \<noteq> CHR ''x'' \<and> c \<noteq> CHR ''X'')"

lemma hex_not_special:
  assumes "is_hex c"
  shows "\<not> is_space c" "c \<noteq> CHR ''-''" "c \<noteq> CHR ''+''" "c \<noteq> CHR ''x''" "c \<noteq> CHR ''X''" "c \<noteq> nul"
  using assms by (auto simp: is_hex_def hex_val_def is_space_def nul_def Let_def split: if_splits)

lemma takeWhile_hex_append:
  assumes "list_all is_hex ds" and "ends_number r"
  shows "takeWhile is_hex (ds @ r) = ds"
  using assms by (induction ds) (auto simp: ends_number_def split: list.splits)

lemma scan_prefix_digits:
  assumes "list_all is_hex ds" and "ends_number r"
  shows "scan_prefix (ds @ r) = 0"
proof (cases ds)
  case Nil
  then show ?thesis
    using assms by (auto simp: scan_prefix_def ends_number_def is_hex_def hex_val_def split: list.splits)
next
  case (Cons d ds')
  then show ?thesis
    using assms by (cases ds') (auto simp: scan_prefix_def ends_number_def split: list.splits)
qed

theorem scan_hex_digits:
  assumes ds: "list_all is_hex ds" "ds \<noteq> []" and r: "ends_number r"
    and w: "case w of None \<Rightarrow> True | Some n \<Rightarrow> length ds \<le> n" and n: "length ds \<le> 16"
  shows "scan_hex w (ds @ r) = Some (word_of_nat (hex_number ds), r)"
proof -
  obtain d ds' where d: "ds = d # ds'" "is_hex d"
    using ds by (cases ds) auto
  have space: "dropWhile is_space (ds @ r) = ds @ r"
    using d by (simp add: hex_not_special)
  define field where "field = (case w of None \<Rightarrow> ds @ r | Some n \<Rightarrow> take n (ds @ r))"
  have "\<exists>r'. field = ds @ r' \<and> ends_number r'"
  proof (cases w)
    case None
    then show ?thesis using r by (auto simp: field_def)
  next
    case (Some k)
    then have "field = ds @ take (k - length ds) r"
      using w by (simp add: field_def)
    moreover have "ends_number (take (k - length ds) r)"
      using r by (cases "k - length ds") (auto simp: ends_number_def split: list.splits)
    ultimately show ?thesis by blast
  qed
  then obtain r' where r': "field = ds @ r'" "ends_number r'" by blast
  have sign: "scan_sign field = (False, 0)"
    using r' d by (simp add: scan_sign_def hex_not_special)
  have prefix: "scan_prefix field = 0"
    using scan_prefix_digits ds(1) r' by simp
  have digits: "takeWhile is_hex field = ds"
    using takeWhile_hex_append ds(1) r' by simp
  have "hex_number ds < 16 ^ length ds"
    using ds(1) by (rule hex_number_less)
  also have "\<dots> \<le> 16 ^ 16"
    using n by (intro power_increasing) simp_all
  finally have small: "hex_number ds < 2 ^ 64" by simp
  show ?thesis
    using space sign prefix digits small ds(2)
    by (simp add: scan_hex_def field_def [symmetric] truncate_32_def Let_def)
qed

end
