(* ===== verification/Packet.thy ===== *)
theory Packet
  imports Socket Cxx_Std
begin

text \<open>
  The packet layer (\<open>src/rsp/Packet.hpp\<close>, \<open>src/rsp/Packet.cpp\<close>): a packet is a dollar sign, the
  payload, a number sign and two digits of checksum.  \<open>rx\<close> collects a packet in the buffer of 512
  bytes and acknowledges it, \<open>tx\<close> sends one and waits for the acknowledgement.

  The two loops run as long as the socket makes them run, so they are partial functions: \<open>None\<close>
  is a call that never returns.
\<close>

record packet = socket +
  m_buffer :: string

definition ACK :: string where
  "ACK = ''+''"

definition NACK :: string where
  "NACK = ''-''"

definition buffer_size :: nat where
  "buffer_size = 512"

definition log :: "string \<Rightarrow> ('z packet_scheme, unit) prog" where
  "log packet_data = print packet_data"

text \<open>\<open>std::accumulate\<close> adds the bytes as \<open>int\<close>; the sum is then cut to 8 bits.\<close>

definition accumulate :: "string \<Rightarrow> int" where
  "accumulate payload = foldl (\<lambda>a c. a + int (of_char c)) 0 payload"

definition checksum :: "string \<Rightarrow> byte" where
  "checksum payload = word_of_int (accumulate payload)"

section \<open>Receiving\<close>

text \<open>
  The loop reads behind the bytes it already has until the third last byte is a number sign.  With
  fewer than three bytes the index \<open>size - 3\<close> wraps around and leaves the buffer.
\<close>

partial_function (option) rx_loop ::
  "nat \<Rightarrow> 'z packet_scheme \<Rightarrow> (nat result \<times> 'z packet_scheme) option"
where
  "rx_loop sz s =
     bnd (recv (buffer_size - sz) False) (\<lambda>data.
     bnd (modifies (m_buffer_update (overwrite sz data))) (\<lambda>_.
     bnd (gets m_buffer) (\<lambda>buf s1.
     let sz' = sz + length data in
       if sz' < 3 then fails (Undefined OutOfBounds) s1
       else if buf ! (sz' - 3) \<noteq> CHR ''#'' then rx_loop sz' s1
       else returns sz' s1))) s"

definition rx :: "bool \<Rightarrow> ('z packet_scheme, view) prog" where
  "rx acknowledge =
     bnd (rx_loop 0) (\<lambda>sz.
     bnd (gets m_buffer) (\<lambda>buf.
     let packet = \<lparr>chars = take sz buf, beyond = drop sz buf\<rparr> in
     bnd (lifts (substr packet 1 (size_sub sz 4))) (\<lambda>packet_data.
     bnd (lifts (substr packet (size_sub sz 2) 2)) (\<lambda>packet_checksum.
     seq (log (''REMOTE: <- '' @ chars packet_data @ newline))
     (case from_chars_16 (chars packet_checksum) of
        None \<Rightarrow> fails (Undefined Uninitialized)
      | Some checksum_packet \<Rightarrow>
          if checksum_packet = unat (checksum (chars packet_data)) then
            bnd (if acknowledge then send ACK else returns 0) (\<lambda>_. returns packet_data)
          else
            bnd (if acknowledge then send NACK else returns 0) (\<lambda>_.
              fails (Thrown (RuntimeError ''Sending NACK (due to parity error).''))))))))"

section \<open>Sending\<close>

partial_function (option) send_loop ::
  "(string \<Rightarrow> ('s, nat) prog) \<Rightarrow> string \<Rightarrow> nat \<Rightarrow> 's \<Rightarrow> (unit result \<times> 's) option"
where
  "send_loop snd_call packet sz s =
     bnd (snd_call (drop sz packet)) (\<lambda>status s1.
     let sz' = sz + status in
       if sz' < length packet then send_loop snd_call packet sz' s1 else returns () s1) s"

definition format_packet :: "string \<Rightarrow> string" where
  "format_packet packet_data =
     CHR ''$'' # packet_data @ CHR ''#'' # format_02x (checksum packet_data)"

definition tx :: "string \<Rightarrow> bool \<Rightarrow> ('z packet_scheme, unit) prog" where
  "tx packet_data acknowledge =
     seq (log (''REMOTE: -> '' @ packet_data @ newline))
    (seq (send_loop send (format_packet packet_data) 0)
    (if acknowledge then
       bnd (recv 1 False) (\<lambda>ack.
         if ack = [] then fails (Undefined Uninitialized)
         else if ack = NACK then fails (Thrown (RuntimeError ''Received NACK.''))
         else returns ())
     else returns ()))"

section \<open>Checksums\<close>

lemma accumulate_sum_list: "accumulate p = (\<Sum>c\<leftarrow>p. int (of_char c))"
proof -
  have "foldl (\<lambda>a c. a + int (of_char c)) i p = i + (\<Sum>c\<leftarrow>p. int (of_char c))" for i
    by (induction p arbitrary: i) simp_all
  then show ?thesis by (simp add: accumulate_def)
qed

lemma accumulate_append: "accumulate (p @ q) = accumulate p + accumulate q"
  by (simp add: accumulate_sum_list)

lemma accumulate_Cons: "accumulate (c # p) = int (of_char c) + accumulate p"
  by (simp add: accumulate_sum_list)

lemma accumulate_Nil [simp]: "accumulate [] = 0"
  by (simp add: accumulate_sum_list)

lemma accumulate_bounds: "0 \<le> accumulate p \<and> accumulate p \<le> 255 * int (length p)"
proof (induction p)
  case Nil
  then show ?case by simp
next
  case (Cons c p)
  moreover have "(of_char c :: nat) \<le> 255"
    using of_char_less_256 [of c] by linarith
  ultimately show ?case by (simp add: accumulate_Cons)
qed

lemma checksum_append: "checksum (p @ q) = checksum p + checksum q"
  by (simp add: checksum_def accumulate_append)

lemma checksum_single: "checksum [c] = byte_of_char c"
  by (simp add: checksum_def accumulate_def byte_of_char_def)

lemma checksum_update:
  assumes "i < length p"
  shows "checksum (p[i := c]) = checksum p - byte_of_char (p ! i) + byte_of_char c"
proof -
  have "checksum p = checksum (take i p @ [p ! i] @ drop (Suc i) p)"
    using assms by (simp add: id_take_nth_drop [symmetric])
  moreover have "checksum (p[i := c]) = checksum (take i p @ [c] @ drop (Suc i) p)"
    using assms by (simp add: upd_conv_take_nth_drop)
  ultimately show ?thesis
    by (simp only: checksum_append checksum_single) simp
qed

lemma checksum_update_neq:
  "i < length p \<Longrightarrow> c \<noteq> p ! i \<Longrightarrow> checksum (p[i := c]) \<noteq> checksum p"
  by (simp add: checksum_update)

lemma length_format_packet [simp]: "length (format_packet p) = length p + 4"
  by (simp add: format_packet_def)

section \<open>The sending loop\<close>

context byte_sink
begin

lemma send_loop_all:
  assumes "ready s" and "sz < length packet"
  shows "\<exists>s'. send_loop snd_call packet sz s = Some (Val (), s') \<and>
    written s' = written s @ drop sz packet \<and> ready s' \<and> frame s' = frame s"
  using assms
proof (induction "length packet - sz" arbitrary: sz s rule: less_induct)
  case less
  then obtain k s1 where k: "snd_call (drop sz packet) s = Some (Val k, s1)"
      "0 < k" "k \<le> length (drop sz packet)"
      "written s1 = written s @ take k (drop sz packet)" "ready s1" "frame s1 = frame s"
    using sink_progress [of s "drop sz packet"] by auto
  have step: "send_loop snd_call packet sz s =
      (if sz + k < length packet then send_loop snd_call packet (sz + k) s1 else Some (Val (), s1))"
    using k(1) by (subst send_loop.simps) (simp add: Let_def)
  show ?case
  proof (cases "sz + k < length packet")
    case True
    with k(2) have "length packet - (sz + k) < length packet - sz" by linarith
    from less.hyps [OF this k(5) True] obtain s' where
      "send_loop snd_call packet (sz + k) s1 = Some (Val (), s')"
      "written s' = written s1 @ drop (sz + k) packet" "ready s'" "frame s' = frame s1"
      by blast
    with True step k show ?thesis
      by (metis append.assoc append_take_drop_id drop_drop add.commute)
  next
    case False
    with k have "k = length (drop sz packet)" by simp
    with False step k show ?thesis by simp
  qed
qed

end

lemma tx_frame_sent:
  assumes "tx_frame s' = tx_frame s"
  shows "s' = s\<lparr>sent := sent s', txq := txq s'\<rparr>"
proof -
  have "s' = (tx_frame s')\<lparr>sent := sent s', txq := txq s'\<rparr>"
    by (simp add: tx_frame_def)
  also have "\<dots> = s\<lparr>sent := sent s', txq := txq s'\<rparr>"
    by (simp add: assms) (simp add: tx_frame_def)
  finally show ?thesis .
qed

lemma send_loop_socket:
  fixes s :: "'z packet_scheme"
  assumes "tx_ready s" and "packet \<noteq> []"
  shows "\<exists>q. send_loop send packet 0 s = Some (Val (), s\<lparr>sent := sent s @ packet, txq := q\<rparr>) \<and>
    tx_ready (s\<lparr>sent := sent s @ packet, txq := q\<rparr>)"
proof -
  obtain s' where s': "send_loop send packet 0 s = Some (Val (), s')"
      "sent s' = sent s @ packet" "tx_ready s'" "tx_frame s' = tx_frame s"
    using socket_sink.send_loop_all [of s 0 packet] assms by auto
  with tx_frame_sent [of s' s] have "s' = s\<lparr>sent := sent s @ packet, txq := txq s'\<rparr>"
    by simp
  with s' show ?thesis by metis
qed

section \<open>The receiving loop\<close>

text \<open>One iteration, for each answer of the socket.\<close>

definition received :: "nat \<Rightarrow> string \<Rightarrow> string list \<Rightarrow> 'z packet_scheme \<Rightarrow> 'z packet_scheme" where
  "received sz data ds s = m_buffer_update (overwrite sz data) (rx_with_pending s ds)"

lemma received_simps [simp]:
  "m_buffer (received sz data ds s) = overwrite sz data (m_buffer s)"
  "sent (received sz data ds s) = sent s"
  "txq (received sz data ds s) = txq s"
  "cout (received sz data ds s) = cout s"
  by (simp_all add: received_def rx_with_pending_def)

lemma rx_pending_received [simp]:
  "rx_pending s = c # cs \<Longrightarrow> rx_pending (received sz data ds s) = ds"
  using socket_source.source_with [of s c cs ds]
  by (simp add: received_def rx_pending_def rx_with_pending_def)

lemma rx_body_step:
  assumes "recv (buffer_size - sz) False s = Some (Val data, rx_with_pending s ds)"
  shows "bnd (recv (buffer_size - sz) False) (\<lambda>data.
     bnd (modifies (m_buffer_update (overwrite sz data))) (\<lambda>_.
     bnd (gets m_buffer) (\<lambda>buf s1.
     let sz' = sz + length data in
       if sz' < 3 then fails (Undefined OutOfBounds) s1
       else if buf ! (sz' - 3) \<noteq> CHR ''#'' then f sz' s1
       else returns sz' s1))) s =
    (if sz + length data < 3 then Some (Fail (Undefined OutOfBounds), received sz data ds s)
     else if overwrite sz data (m_buffer s) ! (sz + length data - 3) \<noteq> CHR ''#''
     then f (sz + length data) (received sz data ds s)
     else Some (Val (sz + length data), received sz data ds s))"
proof -
  have "m_buffer (rx_with_pending s ds) = m_buffer s"
    by (simp add: rx_with_pending_def)
  then show ?thesis
    by (simp add: bnd_Val [where m = "recv (buffer_size - sz) False", OF assms] Let_def received_def)
qed

lemmas rx_loop_step = trans [OF rx_loop.simps rx_body_step]

lemma rx_loop_chunks:
  assumes "rx_pending s = cs @ ds" and "cs \<noteq> []" and "[] \<notin> set cs"
    and "length (m_buffer s) = buffer_size"
    and "w = take sz (m_buffer s) @ concat cs" and "length w = sz + length (concat cs)"
    and "length w \<le> buffer_size" and "3 \<le> sz + length (hd cs)"
    and "w ! (length w - 3) = CHR ''#''" and "CHR ''#'' \<notin> set (take (length w - 3) w)"
  shows "rx_loop sz s = Some (Val (length w), received sz (concat cs) ds s)"
  using assms
proof (induction cs arbitrary: sz s)
  case Nil
  then show ?case by simp
next
  case (Cons c cs)
  have fits: "sz + length (concat (c # cs)) \<le> buffer_size"
    using Cons.prems by simp
  have c: "c \<noteq> []" "length c \<le> buffer_size - sz"
    using Cons.prems(3) fits by auto
  have rc: "recv (buffer_size - sz) False s = Some (Val c, rx_with_pending s (cs @ ds))"
    using Cons.prems(1) c by (intro socket_source.source_fits) auto
  let ?b = "overwrite sz c (m_buffer s)"
  have blen: "length ?b = buffer_size"
    using c Cons.prems(4) fits by simp
  have btake: "take (sz + length c) ?b = take sz (m_buffer s) @ c"
    using take_overwrite_prefix [of sz c "m_buffer s"] fits Cons.prems(4) by simp
  have three: "3 \<le> sz + length c"
    using Cons.prems(8) by simp
  have nth: "?b ! (sz + length c - 3) = w ! (sz + length c - 3)"
  proof -
    have "?b ! (sz + length c - 3) = take (sz + length c) ?b ! (sz + length c - 3)"
      using three by simp
    also have "\<dots> = (take sz (m_buffer s) @ c) ! (sz + length c - 3)"
      by (simp only: btake)
    also have "\<dots> = w ! (sz + length c - 3)"
    proof -
      have "length (take sz (m_buffer s) @ c) = sz + length c"
        using fits Cons.prems(4) by simp
      then have "((take sz (m_buffer s) @ c) @ concat cs) ! (sz + length c - 3) =
          (take sz (m_buffer s) @ c) ! (sz + length c - 3)"
        using three by (intro nth_append_left) simp
      then show ?thesis
        by (simp add: Cons.prems(5))
    qed
    finally show ?thesis .
  qed
  show ?case
  proof (cases "cs = []")
    case True
    then have "?b ! (sz + length c - 3) = CHR ''#''"
      using nth Cons.prems(6,9) by simp
    with True three Cons.prems(6) show ?thesis
      using rx_loop_step [OF rc] by simp
  next
    case False
    then obtain c' cs' where cs: "cs = c' # cs'" "c' \<noteq> []"
      using Cons.prems(3) by (cases cs) auto
    have less: "sz + length c < length w"
      using cs Cons.prems(6) by simp
    then have "?b ! (sz + length c - 3) \<in> set (take (length w - 3) w)"
      unfolding nth using three by (auto simp: in_set_conv_nth intro!: exI [of _ "sz + length c - 3"])
    then have neq: "?b ! (sz + length c - 3) \<noteq> CHR ''#''"
      using Cons.prems(10) by auto
    let ?s = "received sz c (cs @ ds) s"
    have "rx_loop (sz + length c) ?s =
        Some (Val (length w), received (sz + length c) (concat cs) ds ?s)"
    proof (rule Cons.IH)
      show "rx_pending ?s = cs @ ds"
        using Cons.prems(1) by simp
      show "w = take (sz + length c) (m_buffer ?s) @ concat cs"
        using btake Cons.prems(5) by simp
      show "3 \<le> sz + length c + length (hd cs)"
        using three by simp
    qed (use Cons.prems cs blen fits in auto)
    moreover have join: "overwrite (sz + length c) (concat cs) ?b = overwrite sz (concat (c # cs)) (m_buffer s)"
    proof -
      have "overwrite (sz + length c) (concat cs) ?b =
          take (sz + length c) ?b @ concat cs @ drop (sz + length c + length (concat cs)) ?b"
        by (simp only: overwrite_def)
      also have "\<dots> = take sz (m_buffer s) @ c @ concat cs @
          drop (sz + length c + length (concat cs)) (m_buffer s)"
        using fits Cons.prems(4) by (simp only: btake) (simp add: overwrite_def add.commute add.left_commute)
      finally show ?thesis by (simp add: overwrite_def add.assoc)
    qed
    moreover have "received (sz + length c) (concat cs) ds ?s = received sz (concat (c # cs)) ds s"
      using join by (intro packet.equality) (simp_all add: received_def rx_with_pending_def after_chunks_append)
    ultimately show ?thesis
      using rx_loop_step [OF rc] three neq by simp
  qed
qed

section \<open>A received packet\<close>

text \<open>
  \<open>delivers s w ds\<close>: the socket hands over exactly the bytes \<open>w\<close> next, cut into pieces in any way
  that puts at least three bytes into the first one, and the pieces \<open>ds\<close> after them.
\<close>

definition delivers :: "'z env_scheme \<Rightarrow> string \<Rightarrow> string list \<Rightarrow> bool" where
  "delivers s w ds \<longleftrightarrow> (\<exists>cs. rx_pending s = cs @ ds \<and> concat cs = w \<and> cs \<noteq> [] \<and> [] \<notin> set cs \<and> 3 \<le> length (hd cs))"

lemma deliversI:
  "rx_pending s = cs @ ds \<Longrightarrow> concat cs = w \<Longrightarrow> cs \<noteq> [] \<Longrightarrow> [] \<notin> set cs \<Longrightarrow> 3 \<le> length (hd cs) \<Longrightarrow>
    delivers s w ds"
  by (auto simp: delivers_def)

lemma delivers_rxq: "delivers s w ds \<Longrightarrow> rxq t = rxq s \<Longrightarrow> delivers t w ds"
  by (simp add: delivers_def rx_pending_def)

lemma rx_loop_packet:
  assumes "delivers s (x # p @ CHR ''#'' # ck) ds" and "CHR ''#'' \<notin> set (x # p)" and "length ck = 2"
    and "length p + 4 \<le> buffer_size" and "length (m_buffer s) = buffer_size"
  shows "rx_loop 0 s = Some (Val (length p + 4), received 0 (x # p @ CHR ''#'' # ck) ds s)"
proof -
  let ?w = "x # p @ CHR ''#'' # ck"
  obtain cs where cs: "rx_pending s = cs @ ds" "concat cs = ?w" "cs \<noteq> []" "[] \<notin> set cs" "3 \<le> length (hd cs)"
    using assms(1) by (auto simp: delivers_def)
  have len: "length ?w = length p + 4"
    using assms(3) by simp
  have hash: "?w ! (length ?w - 3) = CHR ''#''"
    using assms(3) by (simp add: nth_append)
  have before: "take (length ?w - 3) ?w = x # p"
    using assms(3) by simp
  have "rx_loop 0 s = Some (Val (length ?w), received 0 (concat cs) ds s)"
  proof (rule rx_loop_chunks [where w = ?w])
    show "length ?w \<le> buffer_size" using len assms(4) by simp
    show "CHR ''#'' \<notin> set (take (length ?w - 3) ?w)" using before assms(2) by simp
    show "?w ! (length ?w - 3) = CHR ''#''" by (rule hash)
  qed (use cs assms(5) in simp_all)
  then show ?thesis
    by (simp only: cs(2) len)
qed

definition rx_view :: "string \<Rightarrow> 'z packet_scheme \<Rightarrow> view" where
  "rx_view p s = \<lparr>chars = p, beyond = drop (length p + 1) (m_buffer s)\<rparr>"

definition rx_logged :: "string \<Rightarrow> 'z packet_scheme \<Rightarrow> 'z packet_scheme" where
  "rx_logged p s = s\<lparr>cout := cout s @ ''REMOTE: <- '' @ p @ newline\<rparr>"

lemma rx_after_loop:
  assumes loop: "rx_loop 0 s = Some (Val (length p + 4), s1)"
    and buf: "take (length p + 4) (m_buffer s1) = x # p @ CHR ''#'' # ck" and ck: "length ck = 2"
    and len: "length p + 4 \<le> buffer_size" "length (m_buffer s1) = buffer_size"
  shows "rx ack s = (case from_chars_16 ck of
      None \<Rightarrow> Some (Fail (Undefined Uninitialized), rx_logged p s1)
    | Some k \<Rightarrow>
        if k = unat (checksum p)
        then bnd (if ack then send ACK else returns 0) (\<lambda>_. returns (rx_view p s1)) (rx_logged p s1)
        else bnd (if ack then send NACK else returns 0)
          (\<lambda>_. fails (Thrown (RuntimeError ''Sending NACK (due to parity error).''))) (rx_logged p s1))"
proof -
  let ?v = "\<lparr>chars = take (length p + 4) (m_buffer s1), beyond = drop (length p + 4) (m_buffer s1)\<rparr>"
  have small: "length p + 4 < 2 ^ 64"
    using len(1) by (simp add: buffer_size_def)
  have sub: "size_sub (length p + 4) 4 = length p" "size_sub (length p + 4) 2 = length p + 2"
    using size_sub_le [of 4 "length p + 4"] size_sub_le [of 2 "length p + 4"] small by simp_all
  have split: "m_buffer s1 = (x # p @ CHR ''#'' # ck) @ drop (length p + 4) (m_buffer s1)"
    by (metis append_take_drop_id buf)
  have "drop (length p + 1) (m_buffer s1) = CHR ''#'' # ck @ drop (length p + 4) (m_buffer s1)"
    by (subst split) simp
  then have v1: "substr ?v 1 (length p) = Val (rx_view p s1)"
    by (simp add: substr_Val_iff rx_view_def buf)
  have v2: "substr ?v (length p + 2) 2 = Val \<lparr>chars = ck, beyond = drop (length p + 4) (m_buffer s1)\<rparr>"
    using ck by (simp add: substr_Val_iff buf)
  have logged: "print (''REMOTE: <- '' @ p @ newline) s1 = Some (Val (), rx_logged p s1)"
    by (simp add: print_def rx_logged_def)
  show ?thesis
    using loop v1 v2 logged
    by (simp add: rx_def sub Let_def log_def rx_view_def split: option.split)
qed

lemma send_single:
  fixes s :: "'z packet_scheme"
  assumes "tx_ready s"
  shows "\<exists>q. send [c] s = Some (Val 1, s\<lparr>sent := sent s @ [c], txq := q\<rparr>) \<and> tx_ready (s\<lparr>txq := q\<rparr>)"
proof (cases "txq s")
  case Nil
  then have "send [c] s = Some (Val 1, s\<lparr>sent := sent s @ [c], txq := txq s\<rparr>)"
    by (simp add: send_def)
  moreover have "tx_ready (s\<lparr>txq := txq s\<rparr>)"
    using assms by simp
  ultimately show ?thesis by blast
next
  case (Cons e q)
  with assms obtain k where "e = Accept k" "0 < k"
    by (auto simp: tx_ready_def split: tx_event.splits)
  with Cons have "send [c] s = Some (Val 1, s\<lparr>sent := sent s @ [c], txq := q\<rparr>)"
    by (simp add: send_def min_def)
  moreover have "tx_ready (s\<lparr>txq := q\<rparr>)"
    using assms Cons by (simp add: tx_ready_def)
  ultimately show ?thesis by blast
qed

lemma received_prefix:
  "length w \<le> length (m_buffer s) \<Longrightarrow> take (length w) (m_buffer (received 0 w ds s)) = w"
  by (simp add: overwrite_def)

lemma rx_pending_delivered:
  "delivers s w ds \<Longrightarrow> rx_pending (received 0 w ds s) = ds"
  unfolding delivers_def by (metis append_is_Nil_conv neq_Nil_conv rx_pending_received)

lemma rx_of_delivery:
  assumes "delivers s (CHR ''$'' # p @ CHR ''#'' # ck) ds" and "CHR ''#'' \<notin> set p" and "length ck = 2"
    and "length p + 4 \<le> buffer_size" and "length (m_buffer s) = buffer_size"
  shows "rx ack s = (let s1 = received 0 (CHR ''$'' # p @ CHR ''#'' # ck) ds s in
    case from_chars_16 ck of
      None \<Rightarrow> Some (Fail (Undefined Uninitialized), rx_logged p s1)
    | Some k \<Rightarrow>
        if k = unat (checksum p)
        then bnd (if ack then send ACK else returns 0) (\<lambda>_. returns (rx_view p s1)) (rx_logged p s1)
        else bnd (if ack then send NACK else returns 0)
          (\<lambda>_. fails (Thrown (RuntimeError ''Sending NACK (due to parity error).''))) (rx_logged p s1))"
proof -
  let ?w = "CHR ''$'' # p @ CHR ''#'' # ck"
  have lw: "length ?w = length p + 4"
    using assms(3) by simp
  have "rx_loop 0 s = Some (Val (length p + 4), received 0 ?w ds s)"
    by (rule rx_loop_packet) (use assms in auto)
  moreover have "take (length p + 4) (m_buffer (received 0 ?w ds s)) = ?w"
    using received_prefix [of ?w s ds] assms(4,5) by (simp only: lw)
  moreover have "length (m_buffer (received 0 ?w ds s)) = buffer_size"
    using assms by simp
  ultimately show ?thesis
    unfolding Let_def by (rule rx_after_loop [OF _ _ assms(3,4)])
qed

lemma rx_accepts:
  fixes s :: "'z packet_scheme"
  assumes "delivers s (format_packet p) ds" and "CHR ''#'' \<notin> set p" and "length p + 4 \<le> buffer_size"
    and "length (m_buffer s) = buffer_size" and "tx_ready s"
  shows "\<exists>v r s'. rx ack s = Some (Val v, s') \<and> chars v = p \<and> beyond v = CHR ''#'' # r \<and>
    sent s' = sent s @ (if ack then ACK else []) \<and> rx_pending s' = ds \<and> tx_ready s'"
proof -
  let ?w = "format_packet p"
  let ?s = "rx_logged p (received 0 ?w ds s)"
  have w: "?w = CHR ''$'' # p @ CHR ''#'' # format_02x (checksum p)"
    by (simp add: format_packet_def)
  have rx: "rx ack s = bnd (if ack then send ACK else returns 0)
      (\<lambda>_. returns (rx_view p (received 0 ?w ds s))) ?s"
    using rx_of_delivery [OF assms(1) [unfolded w]] assms by (simp add: w Let_def)
  have b: "\<exists>r. beyond (rx_view p (received 0 ?w ds s)) = CHR ''#'' # r"
    using assms(4) by (simp add: rx_view_def w overwrite_def)
  have "tx_ready ?s"
    using assms(5) by (simp add: rx_logged_def tx_ready_def)
  then obtain q where q: "send ACK ?s = Some (Val 1, ?s\<lparr>sent := sent ?s @ ACK, txq := q\<rparr>)" "tx_ready (?s\<lparr>txq := q\<rparr>)"
    using send_single [of ?s] by (auto simp: ACK_def)
  then have ready: "tx_ready (?s\<lparr>sent := a, txq := q\<rparr>)" for a
    by (simp add: tx_ready_def)
  have pend: "rx_pending (?s\<lparr>sent := a, txq := b\<rparr>) = ds" "rx_pending ?s = ds" for a b
    using rx_pending_delivered [OF assms(1)] by (simp_all add: rx_logged_def rx_pending_def)
  have "sent ?s = sent s"
    by (simp add: rx_logged_def)
  with rx b q pend ready \<open>tx_ready ?s\<close> show ?thesis
    by (cases ack) (auto simp: rx_view_def)
qed

lemma rx_wrong_checksum:
  fixes s :: "'z packet_scheme"
  assumes "delivers s (CHR ''$'' # p @ CHR ''#'' # ck) ds" and "CHR ''#'' \<notin> set p" and "length ck = 2"
    and "from_chars_16 ck = Some k" and "k \<noteq> unat (checksum p)"
    and "length p + 4 \<le> buffer_size" and "length (m_buffer s) = buffer_size" and "tx_ready s"
  shows "\<exists>s'. rx ack s = Some (Fail (Thrown (RuntimeError ''Sending NACK (due to parity error).'')), s') \<and>
    sent s' = sent s @ (if ack then NACK else [])"
proof -
  let ?s = "rx_logged p (received 0 (CHR ''$'' # p @ CHR ''#'' # ck) ds s)"
  have rx: "rx ack s = bnd (if ack then send NACK else returns 0)
      (\<lambda>_. fails (Thrown (RuntimeError ''Sending NACK (due to parity error).''))) ?s"
    using rx_of_delivery [OF assms(1-3,6,7)] assms(4,5) by (simp add: Let_def)
  have "tx_ready ?s"
    using assms(8) by (simp add: rx_logged_def tx_ready_def)
  then obtain q where q: "send NACK ?s = Some (Val 1, ?s\<lparr>sent := sent ?s @ NACK, txq := q\<rparr>)"
    using send_single [of ?s] by (auto simp: NACK_def)
  have "sent ?s = sent s"
    by (simp add: rx_logged_def)
  with rx q show ?thesis
    by (cases ack) auto
qed

lemma rx_rejects:
  fixes s :: "'z packet_scheme"
  assumes "i < length p" and "c \<noteq> p ! i" and "c \<noteq> CHR ''#''" and "CHR ''#'' \<notin> set p"
    and "delivers s (CHR ''$'' # p[i := c] @ CHR ''#'' # format_02x (checksum p)) ds"
    and "length p + 4 \<le> buffer_size" and "length (m_buffer s) = buffer_size" and "tx_ready s"
  shows "\<exists>s'. rx ack s = Some (Fail (Thrown (RuntimeError ''Sending NACK (due to parity error).'')), s') \<and>
    sent s' = sent s @ (if ack then NACK else [])"
proof (rule rx_wrong_checksum [OF assms(5)])
  show "CHR ''#'' \<notin> set (p[i := c])"
    using assms(3,4) set_update_subset_insert [of p i c] by auto
  show "unat (checksum p) \<noteq> unat (checksum (p[i := c]))"
    using checksum_update_neq [OF assms(1,2)] by (simp add: word_unat_eq_iff)
qed (use assms in simp_all)

lemma rx_short_read:
  fixes s :: "'z packet_scheme"
  assumes "(\<exists>c q. rxq s = Chunk c # q \<and> length c < 3) \<or> (\<exists>q. rxq s = Hangup # q)"
  shows "\<exists>s'. rx ack s = Some (Fail (Undefined OutOfBounds), s') \<and> sent s' = sent s"
proof -
  obtain data s1 where r: "recv buffer_size False s = Some (Val data, s1)" "length data < 3" "sent s1 = sent s"
    using assms by (auto simp: recv_def buffer_size_def)
  have "rx_loop 0 s = Some (Fail (Undefined OutOfBounds), m_buffer_update (overwrite 0 data) s1)"
    using r by (subst rx_loop.simps) (simp add: Let_def)
  with r(3) show ?thesis by (simp add: rx_def)
qed

section \<open>What rx and tx do\<close>

text \<open>
  Property C4: a packet that arrives with its own checksum, its payload of at most 508 bytes without a number
  sign, is received according to how the socket cuts it into pieces, of which the last one ends where the
  packet ends.  If the first piece has at least three bytes, \<open>rx\<close> returns exactly the payload,
  followed in storage by the number sign, answers with a plus sign when acknowledgements are on and with
  nothing otherwise, and takes none of the pieces behind the packet.  If the first piece is
  shorter, \<open>rx\<close> reads outside of its buffer before anything is answered.
\<close>

theorem rx_accepts_packet:
  fixes s :: "'z packet_scheme"
  assumes "rx_pending s = cs @ ds" and "concat cs = format_packet p" and "cs \<noteq> []" and "[] \<notin> set cs"
    and "CHR ''#'' \<notin> set p" and "length p + 4 \<le> buffer_size"
    and "length (m_buffer s) = buffer_size" and "tx_ready s"
  shows "if 3 \<le> length (hd cs)
    then \<exists>v r s'. rx ack s = Some (Val v, s') \<and> chars v = p \<and> beyond v = CHR ''#'' # r \<and>
      sent s' = sent s @ (if ack then ACK else []) \<and> rx_pending s' = ds \<and> tx_ready s'
    else \<exists>s'. rx ack s = Some (Fail (Undefined OutOfBounds), s') \<and> sent s' = sent s"
proof (cases "3 \<le> length (hd cs)")
  case True
  with assms(1-4) have "delivers s (format_packet p) ds"
    by (intro deliversI)
  from rx_accepts [OF this assms(5-8)] True show ?thesis by simp
next
  case False
  obtain c cs' where c: "cs = c # cs'"
    using assms(3) by (cases cs) simp_all
  then have "rxq s = Chunk c # map Chunk (cs' @ ds) @ after_chunks (rxq s)"
    using assms(1) chunks_ConsD [of "rxq s" c "cs' @ ds"] by (simp add: rx_pending_def)
  moreover have "length c < 3"
    using False c by simp
  ultimately have "\<exists>s'. rx ack s = Some (Fail (Undefined OutOfBounds), s') \<and> sent s' = sent s"
    by (intro rx_short_read) blast
  with False show ?thesis by simp
qed


text \<open>
  The bytes still to come keep the loop going for ever: they hold no number sign within the part
  that the buffer can take, and there are more of them than the buffer takes.
\<close>

definition starves :: "nat \<Rightarrow> 'z packet_scheme \<Rightarrow> bool" where
  "starves sz s \<longleftrightarrow> rx_pending s \<noteq> [] \<and> [] \<notin> set (rx_pending s) \<and>
     length (m_buffer s) = buffer_size \<and> sz \<le> buffer_size \<and>
     CHR ''#'' \<notin> set (take (buffer_size - 2) (take sz (m_buffer s) @ concat (rx_pending s))) \<and>
     buffer_size < sz + length (concat (rx_pending s)) \<and> (3 \<le> sz \<or> 3 \<le> length (hd (rx_pending s)))"

lemma starves_step:
  assumes "starves sz s"
  obtains data ds where "recv (buffer_size - sz) False s = Some (Val data, rx_with_pending s ds)"
    and "3 \<le> sz + length data"
    and "overwrite sz data (m_buffer s) ! (sz + length data - 3) \<noteq> CHR ''#''"
    and "starves (sz + length data) (received sz data ds s)"
proof -
  obtain c cs where p: "rx_pending s = c # cs"
    using assms by (auto simp: starves_def neq_Nil_conv)
  have c: "c \<noteq> []" "[] \<notin> set cs" "length (m_buffer s) = buffer_size" "sz \<le> buffer_size"
      "CHR ''#'' \<notin> set (take (buffer_size - 2) (take sz (m_buffer s) @ c @ concat cs))"
      "buffer_size < sz + length (c @ concat cs)" "3 \<le> sz \<or> 3 \<le> length c"
    using assms p unfolding starves_def by auto
  define data where "data = take (buffer_size - sz) c"
  define ds where "ds = (if length c \<le> buffer_size - sz then cs else drop (buffer_size - sz) c # cs)"
  have rc: "recv (buffer_size - sz) False s = Some (Val data, rx_with_pending s ds)"
    using socket_source.source_fits [OF p c(1), of "buffer_size - sz"]
      socket_source.source_cut [OF p, of "buffer_size - sz"]
    by (auto simp: data_def ds_def)
  have fits: "sz + length data \<le> buffer_size"
    using c(4) by (simp add: data_def)
  have three: "3 \<le> sz + length data"
    using c(7) by (auto simp: data_def buffer_size_def)
  let ?b = "overwrite sz data (m_buffer s)"
  have rest: "c @ concat cs = data @ concat ds"
    by (auto simp: data_def ds_def)
  have all: "take (sz + length data) ?b @ concat ds = take sz (m_buffer s) @ c @ concat cs"
    using take_overwrite_prefix [of sz data "m_buffer s"] fits c(3) rest by simp
  have idx: "sz + length data - 3 < sz + length data"
    using three by linarith
  have "?b ! (sz + length data - 3) = (take (sz + length data) ?b @ concat ds) ! (sz + length data - 3)"
    using fits idx c(3) by (simp add: nth_append)
  also have "\<dots> \<in> set (take (buffer_size - 2) (take (sz + length data) ?b @ concat ds))"
    using fits three c(3) by (auto simp: in_set_conv_nth nth_append buffer_size_def intro!: exI [of _ "sz + length data - 3"])
  finally have neq: "?b ! (sz + length data - 3) \<noteq> CHR ''#''"
    using c(5) unfolding all by metis
  have "ds \<noteq> []" "[] \<notin> set ds"
    using c(1,2,4,6) by (auto simp: ds_def)
  moreover have "buffer_size < sz + length data + length (concat ds)"
    using c(6) unfolding rest by simp
  ultimately have "starves (sz + length data) (received sz data ds s)"
    unfolding starves_def using p c(3,5) fits three all by simp
  with rc three neq show ?thesis by (rule that)
qed

lemma starves_no_result: "rx_loop sz s = Some y \<Longrightarrow> \<not> starves sz s"
proof (rule rx_loop.raw_induct [where P = "\<lambda>sz s y. \<not> starves sz s"])
  fix f sz y and s :: "'z packet_scheme"
  assume IH: "\<And>sz s y. f sz s = Some y \<Longrightarrow> \<not> starves sz s"
    and eq: "bnd (recv (buffer_size - sz) False) (\<lambda>data.
     bnd (modifies (m_buffer_update (overwrite sz data))) (\<lambda>_.
     bnd (gets m_buffer) (\<lambda>buf s1.
     let sz' = sz + length data in
       if sz' < 3 then fails (Undefined OutOfBounds) s1
       else if buf ! (sz' - 3) \<noteq> CHR ''#'' then f sz' s1
       else returns sz' s1))) s = Some y"
  show "\<not> starves sz s"
  proof
    assume "starves sz s"
    then obtain data ds where d: "recv (buffer_size - sz) False s = Some (Val data, rx_with_pending s ds)"
        "3 \<le> sz + length data"
        "overwrite sz data (m_buffer s) ! (sz + length data - 3) \<noteq> CHR ''#''"
        "starves (sz + length data) (received sz data ds s)"
      by (rule starves_step)
    from eq d(2,3) have "f (sz + length data) (received sz data ds s) = Some y"
      unfolding rx_body_step [OF d(1)] by simp
    with IH d(4) show False by blast
  qed
qed

text \<open>
  A packet whose payload has more than 508 bytes does not fit the receive buffer, and
  \<open>rx\<close> never returns once it has started to receive it: the loop asks for zero more bytes for ever.
\<close>

theorem rx_overlong_never_returns:
  fixes s :: "'z packet_scheme"
  assumes "delivers s (format_packet p) ds" and "[] \<notin> set ds" and "CHR ''#'' \<notin> set p"
    and "buffer_size < length p + 4" and "length (m_buffer s) = buffer_size"
  shows "rx ack s = None"
proof -
  obtain cs where cs: "rx_pending s = cs @ ds" "concat cs = format_packet p" "cs \<noteq> []" "[] \<notin> set cs"
      "3 \<le> length (hd cs)"
    using assms(1) by (auto simp: delivers_def)
  have "take (buffer_size - 2) (concat (cs @ ds)) = take (buffer_size - 2) (CHR ''$'' # p)"
    using assms(4) by (simp add: cs(2) format_packet_def buffer_size_def)
  then have "CHR ''#'' \<notin> set (take (buffer_size - 2) (concat (cs @ ds)))"
    using assms(3) set_take_subset [of "buffer_size - 2" "CHR ''$'' # p"] by auto
  then have "starves 0 s"
    using cs assms by (auto simp: starves_def)
  then have "rx_loop 0 s = None"
    using starves_no_result by (cases "rx_loop 0 s") auto
  then show ?thesis by (simp add: rx_def)
qed

lemma tx_packet:
  fixes s :: "'z packet_scheme"
  assumes "tx_ready s"
  shows "\<exists>q. tx p ack s = (if ack then
      bnd (recv 1 False) (\<lambda>a.
         if a = [] then fails (Undefined Uninitialized)
         else if a = NACK then fails (Thrown (RuntimeError ''Received NACK.''))
         else returns ()) else returns ())
     (s\<lparr>cout := cout s @ ''REMOTE: -> '' @ p @ newline, sent := sent s @ format_packet p, txq := q\<rparr>) \<and>
     tx_ready (s\<lparr>txq := q\<rparr>)"
proof -
  let ?s = "s\<lparr>cout := cout s @ ''REMOTE: -> '' @ p @ newline\<rparr>"
  have log: "log (''REMOTE: -> '' @ p @ newline) s = Some (Val (), ?s)"
    by (simp add: log_def print_def)
  have "tx_ready ?s" "format_packet p \<noteq> []"
    using assms by (simp_all add: tx_ready_def format_packet_def)
  from send_loop_socket [OF this] obtain q where
    q: "send_loop send (format_packet p) 0 ?s =
          Some (Val (), ?s\<lparr>sent := sent ?s @ format_packet p, txq := q\<rparr>)"
       "tx_ready (?s\<lparr>sent := sent ?s @ format_packet p, txq := q\<rparr>)"
    by blast
  from q(2) have "tx_ready (s\<lparr>txq := q\<rparr>)"
    by (simp add: tx_ready_def)
  with log q(1) show ?thesis
    by (intro exI [of _ q]) (simp add: tx_def)
qed

text \<open>
  Property C6: \<open>tx\<close> sends the whole framed packet, however many calls of \<open>send\<close> the socket needs for
  it, and returns; with acknowledgements on it then consumes one byte, and throws exactly when that
  byte is a minus sign.
\<close>

theorem tx_sends_packet:
  fixes s :: "'z packet_scheme"
  assumes "tx_ready s" and "ack \<Longrightarrow> rxq s = Chunk (a # c) # q"
  shows "\<exists>s'. tx p ack s = Some (if ack \<and> [a] = NACK then Fail (Thrown (RuntimeError ''Received NACK.''))
      else Val (), s') \<and> sent s' = sent s @ format_packet p \<and>
    rxq s' = (if ack then (if c = [] then q else Chunk c # q) else rxq s)"
proof -
  obtain t where t: "tx p ack s = (if ack then
      bnd (recv 1 False) (\<lambda>a.
         if a = [] then fails (Undefined Uninitialized)
         else if a = NACK then fails (Thrown (RuntimeError ''Received NACK.''))
         else returns ()) else returns ())
     (s\<lparr>cout := cout s @ ''REMOTE: -> '' @ p @ newline, sent := sent s @ format_packet p, txq := t\<rparr>)"
    using tx_packet [OF assms(1)] by blast
  show ?thesis
  proof (cases ack)
    case True
    with assms(2) have "rxq s = Chunk (a # c) # q" by simp
    with True t show ?thesis
      by (cases c) (auto simp: recv_def bnd_def)
  next
    case False
    with t show ?thesis by simp
  qed
qed

text \<open>
  Property C7: two endpoints agree on every payload that holds no number sign and has at most 508 bytes.  What
  one endpoint sends for it, delivered to the other in pieces of which the first has at least three
  bytes and the last ends where the packet ends, is received there as that payload.
\<close>

theorem link_roundtrip:
  fixes a :: "'y packet_scheme" and b :: "'z packet_scheme"
  assumes "tx_ready a" and "tx p False a = Some (Val (), a')"
    and "delivers b (drop (length (sent a)) (sent a')) ds" and "CHR ''#'' \<notin> set p"
    and "length p + 4 \<le> buffer_size" and "length (m_buffer b) = buffer_size" and "tx_ready b"
  shows "\<exists>v b'. rx ack b = Some (Val v, b') \<and> chars v = p \<and> rx_pending b' = ds"
proof -
  have "sent a' = sent a @ format_packet p"
    using tx_packet [OF assms(1), of p False] assms(2) by auto
  then have "delivers b (format_packet p) ds"
    using assms(3) by simp
  from rx_accepts [OF this assms(4-7)] show ?thesis by blast
qed

text \<open>
  The sum that \<open>std::accumulate\<close> forms in an \<open>int\<close> stays below \<open>2 ^ 31\<close> for every payload
  of up to 8421504 bytes, and the checksum is that sum modulo 256.
\<close>

theorem checksum_no_overflow:
  assumes "length p \<le> 8421504"
  shows "0 \<le> accumulate p \<and> accumulate p < 2 ^ 31 \<and> uint (checksum p) = accumulate p mod 256"
proof -
  have "accumulate p \<le> 255 * int (length p)" "0 \<le> accumulate p"
    using accumulate_bounds [of p] by auto
  moreover have "255 * int (length p) < 2 ^ 31"
    using assms by simp
  ultimately show ?thesis
    by (simp add: checksum_def uint_word_of_int)
qed

section \<open>What the packet layer leaves alone\<close>

text \<open>
  The receive buffer keeps its size, and the fields of the classes derived from \<open>Packet\<close> are not
  touched.
\<close>

definition pk_inv :: "('z \<Rightarrow> bool) \<Rightarrow> 'z packet_scheme \<Rightarrow> bool" where
  "pk_inv J s \<longleftrightarrow> length (m_buffer s) = buffer_size \<and> J (packet.more s)"

lemma keeps_send [keeps_intros]: "keeps (pk_inv J) (send d)"
  by (rule keepsI) (auto simp: send_def pk_inv_def split: list.splits tx_event.splits)

lemma keeps_recv [keeps_intros]: "keeps (pk_inv J) (recv n peek)"
  by (rule keepsI) (auto simp: recv_def pk_inv_def split: list.splits rx_event.splits if_splits)

lemma keeps_print [keeps_intros]: "keeps (pk_inv J) (print str)"
  unfolding print_def by (rule keeps_modifies) (simp add: pk_inv_def)

lemma keeps_log [keeps_intros]: "keeps (pk_inv J) (log str)"
  unfolding log_def by (rule keeps_print)

lemma keeps_os_accept [keeps_intros]: "keeps (pk_inv J) os_accept"
  by (rule keepsI) (auto simp: os_accept_def pk_inv_def split: list.splits client.splits)

lemma keeps_accept [keeps_intros]: "keeps (pk_inv J) accept"
  unfolding accept_def acceptTcp_def acceptUnix_def
  by (intro keeps_intros) (auto intro!: keeps_intros split: client.split bool.split)

lemma recv_length: "recv n peek s = Some (Val data, s') \<Longrightarrow> length data \<le> n"
  by (auto simp: recv_def split: list.splits rx_event.splits)

lemma rx_loop_inv:
  fixes s :: "'z packet_scheme"
  assumes "rx_loop sz s = Some y"
  shows "sz \<le> buffer_size \<Longrightarrow> pk_inv J s \<Longrightarrow> pk_inv J (snd y)"
proof (rule rx_loop.raw_induct [where P = "\<lambda>sz s y. sz \<le> buffer_size \<longrightarrow> pk_inv J s \<longrightarrow> pk_inv J (snd y)",
      OF _ assms, rule_format])
  fix f sz y and s :: "'z packet_scheme"
  assume IH: "\<And>sz s y. f sz s = Some y \<Longrightarrow> sz \<le> buffer_size \<Longrightarrow> pk_inv J s \<Longrightarrow> pk_inv J (snd y)"
    and eq: "bnd (recv (buffer_size - sz) False) (\<lambda>data.
     bnd (modifies (m_buffer_update (overwrite sz data))) (\<lambda>_.
     bnd (gets m_buffer) (\<lambda>buf s1.
     let sz' = sz + length data in
       if sz' < 3 then fails (Undefined OutOfBounds) s1
       else if buf ! (sz' - 3) \<noteq> CHR ''#'' then f sz' s1
       else returns sz' s1))) s = Some y"
    and sz: "sz \<le> buffer_size" and inv: "pk_inv J s"
  obtain r s' where y: "y = (r, s')" by fastforce
  from eq [unfolded y] show "pk_inv J (snd y)"
  proof (rule bnd_SomeE)
    fix data s1
    assume r: "recv (buffer_size - sz) False s = Some (Val data, s1)"
      and k: "bnd (modifies (m_buffer_update (overwrite sz data))) (\<lambda>_.
     bnd (gets m_buffer) (\<lambda>buf s1.
     let sz' = sz + length data in
       if sz' < 3 then fails (Undefined OutOfBounds) s1
       else if buf ! (sz' - 3) \<noteq> CHR ''#'' then f sz' s1
       else returns sz' s1)) s1 = Some (r, s')"
    have len: "sz + length data \<le> buffer_size"
      using recv_length [OF r] sz by simp
    have "pk_inv J s1"
      using keepsD [OF keeps_recv r inv] .
    then have inv': "pk_inv J (m_buffer_update (overwrite sz data) s1)"
      using len by (simp add: pk_inv_def)
    from k y have "y = (Fail (Undefined OutOfBounds), m_buffer_update (overwrite sz data) s1) \<or>
        f (sz + length data) (m_buffer_update (overwrite sz data) s1) = Some y \<or>
        y = (Val (sz + length data), m_buffer_update (overwrite sz data) s1)"
      by (auto simp: Let_def split: if_splits)
    then show "pk_inv J (snd y)"
      using inv' len IH [of "sz + length data" "m_buffer_update (overwrite sz data) s1" y] by auto
  next
    fix e
    assume "recv (buffer_size - sz) False s = Some (Fail e, s')"
    then show "pk_inv J (snd y)"
      using keepsD [OF keeps_recv _ inv] y by auto
  qed
qed

lemma keeps_rx_loop [keeps_intros]: "keeps (pk_inv J) (rx_loop 0)"
  by (rule keepsI) (use rx_loop_inv in fastforce)

lemma keeps_rx [keeps_intros]: "keeps (pk_inv J) (rx ack)"
  unfolding rx_def Let_def by (intro keeps_intros)

lemma send_loop_inv:
  fixes s :: "'z packet_scheme"
  assumes "send_loop send packet sz s = Some y"
  shows "pk_inv J s \<Longrightarrow> pk_inv J (snd y)"
proof (rule send_loop.raw_induct [where P = "\<lambda>call p sz s y. call = send \<longrightarrow> pk_inv J s \<longrightarrow> pk_inv J (snd y)",
      OF _ assms, rule_format])
  fix f call packet sz y and s :: "'z packet_scheme"
  assume IH: "\<And>call packet sz s y. f call packet sz s = Some y \<Longrightarrow> call = send \<Longrightarrow> pk_inv J s \<Longrightarrow> pk_inv J (snd y)"
    and eq: "bnd (call (drop sz packet)) (\<lambda>status s1.
     let sz' = sz + status in
       if sz' < length packet then f call packet sz' s1 else returns () s1) s = Some y"
    and call: "call = send" and inv: "pk_inv J s"
  obtain r s' where y: "y = (r, s')" by fastforce
  have "keeps (pk_inv J) (bnd (call (drop sz packet)) (\<lambda>status s1.
     let sz' = sz + status in
       if sz' < length packet then f call packet sz' s1 else returns () s1))"
    unfolding call
  proof (rule keeps_bnd [OF keeps_send], rule keepsI)
    fix a s1 r s2
    assume i: "pk_inv J s1" and e: "(let sz' = sz + a in if sz' < length packet
        then f send packet sz' s1 else returns () s1) = Some (r, s2)"
    from e i show "pk_inv J s2"
      using IH [of send packet "sz + a" s1 "(r, s2)"] by (auto simp: Let_def split: if_splits)
  qed
  from keepsD [OF this eq [unfolded y] inv] y show "pk_inv J (snd y)" by simp
qed simp

lemma keeps_send_loop [keeps_intros]: "keeps (pk_inv J) (send_loop send packet 0)"
  by (rule keepsI) (use send_loop_inv in fastforce)

lemma keeps_tx [keeps_intros]: "keeps (pk_inv J) (tx p ack)"
  unfolding tx_def by (intro keeps_intros)

section \<open>Instances\<close>

definition demo_packet :: "rx_event list \<Rightarrow> packet" where
  "demo_packet q = \<lparr>rxq = q, txq = [Accept 2, Accept 1], clients = [], sent = [], cout = [],
     m_tcp = False, m_socketFd = 3, m_clientFd = 4, m_buffer = replicate 512 nul\<rparr>"

lemma demo_packet_simps [simp]:
  "rxq (demo_packet q) = q" "sent (demo_packet q) = []" "length (m_buffer (demo_packet q)) = buffer_size"
  "tx_ready (demo_packet q)"
  by (simp_all add: demo_packet_def buffer_size_def tx_ready_def)

lemma format_packet_OK: "format_packet ''OK'' = ''$OK#9a''"
  by code_simp

lemma demo_delivers: "delivers (demo_packet [Chunk ''$OK'', Chunk ''#9a'', Chunk ''+'']) (format_packet ''OK'') [''+'']"
  by (rule deliversI [where cs = "[''$OK'', ''#9a'']"]) (simp_all add: rx_pending_def format_packet_OK)

theorem rx_accepts_packet_witness:
  "\<exists>v r s'. rx True (demo_packet [Chunk ''$OK'', Chunk ''#9a'', Chunk ''+'']) = Some (Val v, s') \<and>
    chars v = ''OK'' \<and> beyond v = CHR ''#'' # r \<and> sent s' = ''+'' \<and> rx_pending s' = [''+'']"
  using rx_accepts_packet [of "demo_packet [Chunk ''$OK'', Chunk ''#9a'', Chunk ''+'']" "[''$OK'', ''#9a'']" "[''+'']"
      "''OK''" True]
  by (auto simp: ACK_def buffer_size_def rx_pending_def format_packet_OK)


theorem rx_overlong_never_returns_witness:
  "rx False (demo_packet [Chunk (format_packet (replicate 509 (CHR ''0'')))]) = None"
proof (rule rx_overlong_never_returns [where p = "replicate 509 (CHR ''0'')" and ds = "[]"])
  show "delivers (demo_packet [Chunk (format_packet (replicate 509 (CHR ''0'')))])
      (format_packet (replicate 509 (CHR ''0''))) []"
    by (rule deliversI [where cs = "[format_packet (replicate 509 (CHR ''0''))]"])
      (simp_all add: rx_pending_def, simp add: format_packet_def)
qed (simp_all add: buffer_size_def)

theorem tx_sends_packet_witness:
  "\<exists>s'. tx ''OK'' True (demo_packet [Chunk ''+$g#67'']) = Some (Val (), s') \<and> sent s' = ''$OK#9a'' \<and>
    rxq s' = [Chunk ''$g#67'']"
  using tx_sends_packet [of "demo_packet [Chunk ''+$g#67'']" True "CHR ''+''" "''$g#67''" "[]" "''OK''"]
  by (simp add: NACK_def format_packet_OK)

theorem link_roundtrip_witness:
  "\<exists>v b'. rx True (demo_packet [Chunk ''$OK'', Chunk ''#9a'', Chunk ''+'']) = Some (Val v, b') \<and> chars v = ''OK''"
proof -
  obtain q where a: "tx ''OK'' False (demo_packet []) = Some (Val (), (demo_packet [])\<lparr>cout := cout (demo_packet []) @
      ''REMOTE: -> '' @ ''OK'' @ newline, sent := format_packet ''OK'', txq := q\<rparr>)"
    using tx_packet [of "demo_packet []" "''OK''" False] by auto
  from link_roundtrip [OF demo_packet_simps(4) a, of "demo_packet [Chunk ''$OK'', Chunk ''#9a'', Chunk ''+'']" "[''+'']" True]
    demo_delivers show ?thesis
    by (auto simp: buffer_size_def)
qed

theorem checksum_no_overflow_witness:
  "0 \<le> accumulate ''OK'' \<and> accumulate ''OK'' < 2 ^ 31 \<and> uint (checksum ''OK'') = accumulate ''OK'' mod 256"
  using checksum_no_overflow [of "''OK''"] by simp

end
