(* ===== verification/Store.thy ===== *)
theory Store
  imports Prelude
begin

text \<open>
  Byte arrays and the spans that refer to them.  The shadow classes own \<open>std::array\<close> members and
  hold \<open>std::span\<close> members that point into arrays; copying such an object copies the arrays and the
  pointers, so that the spans of the copy still point into the arrays of the original.  The store
  makes this visible: an array has an identity (its index in the store) and a span names an array.

  Registers are read and written through \<open>reinterpret_cast\<close> on a little-endian host.
\<close>

type_synonym store = "byte list list"

text \<open>Offsets and lengths count bytes.\<close>

record span =
  sp_arr :: nat
  sp_off :: nat
  sp_len :: nat

definition span_bytes :: "store \<Rightarrow> span \<Rightarrow> byte list" where
  "span_bytes h sp = slice (sp_off sp) (sp_len sp) (h ! sp_arr sp)"

definition wf_span :: "store \<Rightarrow> span \<Rightarrow> bool" where
  "wf_span h sp \<longleftrightarrow> sp_arr sp < length h \<and> sp_off sp + sp_len sp \<le> length (h ! sp_arr sp)"

text \<open>\<open>span::subspan(offset, count)\<close> requires the range to lie inside the span.\<close>

definition subspan :: "span \<Rightarrow> nat \<Rightarrow> nat \<Rightarrow> span result" where
  "subspan sp off n =
     (if off + n \<le> sp_len sp then Val \<lparr>sp_arr = sp_arr sp, sp_off = sp_off sp + off, sp_len = n\<rparr>
      else Fail (Undefined OutOfBounds))"

text \<open>Copying bytes to \<open>sp.data() + off\<close>.\<close>

definition span_copy :: "span \<Rightarrow> nat \<Rightarrow> byte list \<Rightarrow> store \<Rightarrow> store result" where
  "span_copy sp off bs h =
     (if off + length bs \<le> sp_len sp
      then Val (h[sp_arr sp := overwrite (sp_off sp + off) bs (h ! sp_arr sp)])
      else Fail (Undefined OutOfBounds))"

section \<open>Little-endian words\<close>

definition le_enc :: "'a::len word \<Rightarrow> byte list" where
  "le_enc w = map (\<lambda>i. ucast (drop_bit (8 * i) w)) [0..<LENGTH('a) div 8]"

fun le_dec :: "byte list \<Rightarrow> 'a::len word" where
  "le_dec [] = 0"
| "le_dec (b # bs) = or (ucast b) (push_bit 8 (le_dec bs))"

definition span_get :: "store \<Rightarrow> span \<Rightarrow> nat \<Rightarrow> 'a::len word result" where
  "span_get h sp i = (let n = LENGTH('a) div 8 in
     if (i + 1) * n \<le> sp_len sp then Val (le_dec (slice (sp_off sp + i * n) n (h ! sp_arr sp)))
     else Fail (Undefined OutOfBounds))"

definition span_set :: "span \<Rightarrow> nat \<Rightarrow> 'a::len word \<Rightarrow> store \<Rightarrow> store result" where
  "span_set sp i w h = (let n = LENGTH('a) div 8 in
     if (i + 1) * n \<le> sp_len sp
     then Val (h[sp_arr sp := overwrite (sp_off sp + i * n) (le_enc w) (h ! sp_arr sp)])
     else Fail (Undefined OutOfBounds))"

subsection \<open>Spans\<close>

lemma subspan_Val [simp]:
  "off + n \<le> sp_len sp \<Longrightarrow>
    subspan sp off n = Val \<lparr>sp_arr = sp_arr sp, sp_off = sp_off sp + off, sp_len = n\<rparr>"
  by (simp add: subspan_def)

lemma length_span_bytes [simp]: "wf_span h sp \<Longrightarrow> length (span_bytes h sp) = sp_len sp"
  by (simp add: span_bytes_def wf_span_def)

lemma span_copy_lengths:
  assumes "span_copy sp off bs h = Val h'" and "wf_span h sp"
  shows "length h' = length h \<and> (\<forall>a. length (h' ! a) = length (h ! a))"
  using assms
  by (auto simp: span_copy_def wf_span_def nth_list_update split: if_splits)

lemma wf_span_same_lengths:
  "length h' = length h \<Longrightarrow> (\<And>a. length (h' ! a) = length (h ! a)) \<Longrightarrow> wf_span h' sp = wf_span h sp"
  by (simp add: wf_span_def)

lemma span_copy_read_same:
  assumes "span_copy sp off bs h = Val h'" and "wf_span h sp"
  shows "span_bytes h' \<lparr>sp_arr = sp_arr sp, sp_off = sp_off sp + off, sp_len = length bs\<rparr> = bs"
  using assms
  by (auto simp: span_copy_def span_bytes_def wf_span_def slice_overwrite_same split: if_splits)

lemma span_copy_read_other:
  assumes "span_copy sp off bs h = Val h'" and "wf_span h sp"
    and "off' + n \<le> sp_len sp" and "off' + n \<le> off \<or> off + length bs \<le> off'"
  shows "span_bytes h' \<lparr>sp_arr = sp_arr sp, sp_off = sp_off sp + off', sp_len = n\<rparr> =
    span_bytes h \<lparr>sp_arr = sp_arr sp, sp_off = sp_off sp + off', sp_len = n\<rparr>"
  using assms
  by (auto simp: span_copy_def span_bytes_def wf_span_def intro!: slice_overwrite_other split: if_splits)

lemma span_copy_other_array:
  "span_copy sp off bs h = Val h' \<Longrightarrow> a \<noteq> sp_arr sp \<Longrightarrow> h' ! a = h ! a"
  by (auto simp: span_copy_def split: if_splits)

subsection \<open>Words\<close>

lemma length_le_enc [simp]: "length (le_enc (w :: 'a::len word)) = LENGTH('a) div 8"
  by (simp add: le_enc_def)

lemma bit_le_dec:
  "bit (le_dec bs :: 'a::len word) n \<longleftrightarrow> n < LENGTH('a) \<and> n div 8 < length bs \<and> bit (bs ! (n div 8)) (n mod 8)"
proof (induction bs arbitrary: n)
  case Nil
  then show ?case by simp
next
  case (Cons b bs)
  show ?case
  proof (cases "n < 8")
    case True
    then show ?thesis
      by (auto simp: bit_or_iff bit_push_bit_iff bit_ucast_iff)
  next
    case False
    then have d: "n div 8 = Suc ((n - 8) div 8)" "n mod 8 = (n - 8) mod 8"
      by (simp_all add: le_div_geq le_mod_geq)
    have "\<not> bit (ucast b :: 'a word) n"
      using False bit_imp_le_length [of b n] by (auto simp: bit_ucast_iff)
    then have "bit (le_dec (b # bs) :: 'a word) n \<longleftrightarrow> n < LENGTH('a) \<and> bit (le_dec bs :: 'a word) (n - 8)"
      using False by (auto simp: bit_or_iff bit_push_bit_iff)
    then show ?thesis
      using Cons [of "n - 8"] d by auto
  qed
qed

lemma le_dec_enc [simp]:
  fixes w :: "'a::len word"
  assumes "8 dvd LENGTH('a)"
  shows "le_dec (le_enc w) = w"
proof (rule bit_word_eqI)
  fix n
  assume n: "n < LENGTH('a)"
  with assms have q: "n div 8 < LENGTH('a) div 8"
    by (metis div_less_iff_less_mult dvd_div_mult_self zero_less_numeral)
  then have "bit (le_enc w ! (n div 8)) (n mod 8) \<longleftrightarrow> bit w n"
    by (simp add: le_enc_def bit_ucast_iff bit_drop_bit_eq)
  with n q show "bit (le_dec (le_enc w) :: 'a word) n \<longleftrightarrow> bit w n"
    by (simp add: bit_le_dec)
qed

definition dec_word32 :: "byte list \<Rightarrow> 32 word option" where
  "dec_word32 bs = (if length bs = 4 then Some (le_dec bs) else None)"

interpretation word32: codec "le_enc :: 32 word \<Rightarrow> byte list" dec_word32 4
  by unfold_locales (simp_all add: dec_word32_def)

lemma span_set_lengths:
  assumes "span_set sp i (w :: 'a::len word) h = Val h'" and "wf_span h sp"
  shows "length h' = length h \<and> (\<forall>a. length (h' ! a) = length (h ! a))"
proof -
  let ?n = "LENGTH('a) div 8"
  have h': "h' = h[sp_arr sp := overwrite (sp_off sp + i * ?n) (le_enc w) (h ! sp_arr sp)]"
    and fits: "(i + 1) * ?n \<le> sp_len sp"
    using assms(1) by (auto simp: span_set_def Let_def split: if_splits)
  have "length (overwrite (sp_off sp + i * ?n) (le_enc w) (h ! sp_arr sp)) = length (h ! sp_arr sp)"
    using fits assms(2) by (intro length_overwrite) (simp add: wf_span_def)
  then show ?thesis
    using h' assms(2) by (simp add: wf_span_def nth_list_update)
qed

lemma span_get_set_same:
  fixes w :: "'a::len word"
  assumes "span_set sp i w h = Val h'" and "wf_span h sp" and "8 dvd LENGTH('a)"
  shows "span_get h' sp i = Val w"
proof -
  let ?n = "LENGTH('a) div 8"
  have h': "h' = h[sp_arr sp := overwrite (sp_off sp + i * ?n) (le_enc w) (h ! sp_arr sp)]"
    and fits: "(i + 1) * ?n \<le> sp_len sp"
    using assms(1) by (auto simp: span_set_def Let_def split: if_splits)
  have "slice (sp_off sp + i * ?n) ?n (overwrite (sp_off sp + i * ?n) (le_enc w) (h ! sp_arr sp)) = le_enc w"
    using slice_overwrite_same [of "sp_off sp + i * ?n" "le_enc w" "h ! sp_arr sp"] fits assms(2)
    by (simp add: wf_span_def)
  then show ?thesis
    using h' fits assms(2,3) by (simp add: span_get_def Let_def wf_span_def)
qed

lemma span_get_set_other:
  fixes w :: "'a::len word"
  assumes "span_set sp i w h = Val h'" and "wf_span h sp" and "j \<noteq> i"
  shows "(span_get h' sp j :: 'a word result) = span_get h sp j"
proof -
  let ?n = "LENGTH('a) div 8"
  have h': "h' = h[sp_arr sp := overwrite (sp_off sp + i * ?n) (le_enc w) (h ! sp_arr sp)]"
    and fits: "(i + 1) * ?n \<le> sp_len sp"
    using assms(1) by (auto simp: span_set_def Let_def split: if_splits)
  have apart: "(j + 1) * ?n \<le> i * ?n \<or> (i + 1) * ?n \<le> j * ?n"
  proof (cases "j < i")
    case True
    then have "(j + 1) * ?n \<le> i * ?n" by (intro mult_le_mono1) simp
    then show ?thesis ..
  next
    case False
    with assms(3) have "(i + 1) * ?n \<le> j * ?n" by (intro mult_le_mono1) simp
    then show ?thesis ..
  qed
  have "slice (sp_off sp + j * ?n) ?n (overwrite (sp_off sp + i * ?n) (le_enc w) (h ! sp_arr sp)) =
      slice (sp_off sp + j * ?n) ?n (h ! sp_arr sp)" if "(j + 1) * ?n \<le> sp_len sp"
    using that fits assms(2) apart by (intro slice_overwrite_other) (simp_all add: wf_span_def algebra_simps)
  then show ?thesis
    using h' assms(2) by (simp add: span_get_def Let_def wf_span_def)
qed

end
