(* ===== verification/Registers.thy ===== *)
theory Registers
  imports Store
begin

text \<open>
  The shadow registers (\<open>src/shadow/Registers.hpp\<close>).  The class keeps all registers in one byte array
  \<open>m_all\<close>, the image that the debugger's \<open>g\<close> and \<open>G\<close> packets transfer, and reaches the register
  files through spans into it; the program counter is a member of its own.  The template parameters
  \<open>XLEN\<close>, \<open>FLEN\<close> and \<open>VLEN\<close> enter as the number of bytes of each (\<open>xl\<close>, \<open>fl\<close>, \<open>vl\<close>) where only
  sizes matter and as word types where values do.
\<close>

record extensions_riscv =
  ext_E :: bool
  ext_F :: bool
  ext_V :: bool

record isa_riscv =
  EXT :: extensions_riscv
  CSR :: "bool list"

section \<open>Sizes\<close>

definition lenGpr :: "isa_riscv \<Rightarrow> nat" where
  "lenGpr isa = (if ext_E (EXT isa) then 16 else 32)"

definition lenPc :: "isa_riscv \<Rightarrow> nat" where
  "lenPc isa = 1"

definition lenFpr :: "isa_riscv \<Rightarrow> nat" where
  "lenFpr isa = (if ext_F (EXT isa) then 32 else 0)"

definition lenVec :: "isa_riscv \<Rightarrow> nat" where
  "lenVec isa = (if ext_V (EXT isa) then 32 else 0)"

definition lenCsr :: "isa_riscv \<Rightarrow> nat" where
  "lenCsr isa = count_list (CSR isa) True"

definition sizeGpr :: "nat \<Rightarrow> isa_riscv \<Rightarrow> nat" where
  "sizeGpr len isa = lenGpr isa * len"

definition sizePc :: "nat \<Rightarrow> isa_riscv \<Rightarrow> nat" where
  "sizePc len isa = lenPc isa * len"

definition sizeFpr :: "nat \<Rightarrow> isa_riscv \<Rightarrow> nat" where
  "sizeFpr len isa = lenFpr isa * len"

definition sizeVec :: "nat \<Rightarrow> isa_riscv \<Rightarrow> nat" where
  "sizeVec len isa = lenVec isa * len"

definition sizeCsr :: "nat \<Rightarrow> isa_riscv \<Rightarrow> nat" where
  "sizeCsr len isa = lenCsr isa * len"

text \<open>The size of the control registers is taken with \<open>VLEN\<close>, as in the source.\<close>

definition sizeAll :: "nat \<Rightarrow> nat \<Rightarrow> nat \<Rightarrow> isa_riscv \<Rightarrow> nat" where
  "sizeAll xl fl vl isa = sizeGpr xl isa + sizePc xl isa + sizeFpr fl isa + sizeVec vl isa + sizeCsr vl isa"

section \<open>The class\<close>

record 'xlen registers =
  m_all :: nat
  m_gpr :: span
  m_pc :: "'xlen"
  m_fpr :: span
  m_vec :: span
  m_csr :: span

definition registers_new :: "nat \<Rightarrow> nat \<Rightarrow> nat \<Rightarrow> isa_riscv \<Rightarrow> store \<Rightarrow> 'x::len word registers \<times> store" where
  "registers_new xl fl vl isa h =
     (let a = length h in
      (\<lparr>m_all = a,
        m_gpr = \<lparr>sp_arr = a, sp_off = 0, sp_len = lenGpr isa * xl\<rparr>,
        m_pc = 0,
        m_fpr = \<lparr>sp_arr = a, sp_off = sizeGpr xl isa + sizePc xl isa, sp_len = lenFpr isa * fl\<rparr>,
        m_vec = \<lparr>sp_arr = a, sp_off = sizeGpr xl isa + sizePc xl isa + sizeFpr fl isa,
                 sp_len = lenVec isa * vl\<rparr>,
        m_csr = \<lparr>sp_arr = a, sp_off = sizeGpr xl isa + sizePc xl isa + sizeFpr fl isa + sizeVec vl isa,
                 sp_len = lenCsr isa * xl\<rparr>\<rparr>,
       h @ [replicate (sizeAll xl fl vl isa) 0]))"

text \<open>The implicit copy constructor: a new array with the same bytes, the spans as they are.\<close>

definition registers_copy :: "'x::len word registers \<Rightarrow> store \<Rightarrow> 'x word registers \<times> store" where
  "registers_copy r h = (r\<lparr>m_all := length h\<rparr>, h @ [h ! m_all r])"

subsection \<open>Access from the simulation\<close>

text \<open>\<open>std::exchange(m_gpr[index], val)\<close>: the old value and the changed store.\<close>

definition exchange_at :: "span \<Rightarrow> nat \<Rightarrow> 'a::len word \<Rightarrow> store \<Rightarrow> ('a word \<times> store) result" where
  "exchange_at sp index val h =
     rbind (span_get h sp index) (\<lambda>old. rbind (span_set sp index val h) (\<lambda>h'. Val (old, h')))"

definition writeGpr :: "'x::len word registers \<Rightarrow> nat \<Rightarrow> 'x word \<Rightarrow> store \<Rightarrow> ('x word \<times> store) result" where
  "writeGpr r index val h = exchange_at (m_gpr r) index val h"

definition readGpr :: "'x::len word registers \<Rightarrow> nat \<Rightarrow> store \<Rightarrow> 'x word result" where
  "readGpr r index h = span_get h (m_gpr r) index"

definition writeFpr :: "'x::len word registers \<Rightarrow> nat \<Rightarrow> 'f::len word \<Rightarrow> store \<Rightarrow> ('f word \<times> store) result" where
  "writeFpr r index val h = exchange_at (m_fpr r) index val h"

definition readFpr :: "'x::len word registers \<Rightarrow> nat \<Rightarrow> store \<Rightarrow> 'f::len word result" where
  "readFpr r index h = span_get h (m_fpr r) index"

definition writeVec :: "'x::len word registers \<Rightarrow> nat \<Rightarrow> 'v::len word \<Rightarrow> store \<Rightarrow> ('v word \<times> store) result" where
  "writeVec r index val h = exchange_at (m_vec r) index val h"

definition readVec :: "'x::len word registers \<Rightarrow> nat \<Rightarrow> store \<Rightarrow> 'v::len word result" where
  "readVec r index h = span_get h (m_vec r) index"

definition writeCsr :: "'x::len word registers \<Rightarrow> nat \<Rightarrow> 'x word \<Rightarrow> store \<Rightarrow> ('x word \<times> store) result" where
  "writeCsr r index val h = exchange_at (m_csr r) index val h"

definition readCsr :: "'x::len word registers \<Rightarrow> nat \<Rightarrow> store \<Rightarrow> 'x word result" where
  "readCsr r index h = span_get h (m_csr r) index"

subsection \<open>Access from the debugger\<close>

text \<open>\<open>std::copy\<close> to the start of \<open>m_all\<close> does not look at the size of the array.\<close>

definition writeAll :: "'x::len word registers \<Rightarrow> byte list \<Rightarrow> store \<Rightarrow> store result" where
  "writeAll r data h =
     span_copy \<lparr>sp_arr = m_all r, sp_off = 0, sp_len = length (h ! m_all r)\<rparr> 0 data h"

definition readAll :: "'x::len word registers \<Rightarrow> store \<Rightarrow> span" where
  "readAll r h = \<lparr>sp_arr = m_all r, sp_off = 0, sp_len = length (h ! m_all r)\<rparr>"

definition writeOne :: "'x::len word registers \<Rightarrow> 32 word \<Rightarrow> byte list \<Rightarrow> store \<Rightarrow> store result" where
  "writeOne r index data h = Val h"

text \<open>
  The span that \<open>readOne\<close> returns is made from a pointer that is the register's \<^emph>\<open>value\<close>
  (\<open>reinterpret_cast<std::byte *>(m_gpr[idx])\<close>); \<open>WildSpan p n\<close> is a span of \<open>n\<close> bytes at the
  numeric address \<open>p\<close>.
\<close>

datatype byte_span = InStore span | WildSpan nat nat | EmptySpan

definition wild :: "'a::len word result \<Rightarrow> byte_span result" where
  "wild v = rbind v (\<lambda>w. Val (WildSpan (unat w) (LENGTH('a) div 8)))"

text \<open>
  The comparisons with \<open>std::size_t\<close> lengths convert \<open>idx\<close> to an unsigned 64-bit value; the
  comparison with \<open>1\<close> is signed.
\<close>

definition index_below :: "32 word \<Rightarrow> nat \<Rightarrow> bool" where
  "index_below idx n \<longleftrightarrow> (scast idx :: 64 word) < word_of_nat n"

definition readOne :: "isa_riscv \<Rightarrow> 'x::len word registers \<Rightarrow> 'f::len itself \<Rightarrow> 'v::len itself \<Rightarrow>
    32 word \<Rightarrow> store \<Rightarrow> byte_span result" where
  "readOne isa r (f :: 'f itself) (v :: 'v itself) index h =
     (let idx = index in
      if index_below idx (lenGpr isa) then
        wild (span_get h (m_gpr r) (unat idx) :: 'x word result)
      else let idx = idx - word_of_nat (lenGpr isa) in
      if sint idx < 1 then wild (Val (m_pc r))
      else let idx = idx - 1 in
      if index_below idx (lenFpr isa) then
        wild (span_get h (m_fpr r) (unat idx) :: 'f word result)
      else let idx = idx - word_of_nat (lenFpr isa) in
      if index_below idx (lenVec isa) then
        wild (span_get h (m_vec r) (unat idx) :: 'v word result)
      else let idx = idx - word_of_nat (lenVec isa) in
      if index_below idx (lenCsr isa) then
        wild (span_get h (m_csr r) (unat idx) :: 'x word result)
      else Val EmptySpan)"

section \<open>Exchange\<close>

lemma exchange_at_Val:
  "exchange_at sp i val h = Val (old, h') \<longleftrightarrow> span_get h sp i = Val old \<and> span_set sp i val h = Val h'"
  by (auto simp: exchange_at_def rbind_Val_iff)

lemma exchange_at_in_range:
  fixes val :: "'a::len word"
  assumes "(i + 1) * (LENGTH('a) div 8) \<le> sp_len sp"
  shows "\<exists>old h'. exchange_at sp i val h = Val (old, h')"
  using assms by (simp add: exchange_at_def span_get_def span_set_def Let_def)

text \<open>The contract of a register file: four register files provide it.\<close>

locale register_file =
  fixes wr :: "nat \<Rightarrow> 'a::len word \<Rightarrow> store \<Rightarrow> ('a word \<times> store) result"
    and rd :: "nat \<Rightarrow> store \<Rightarrow> 'a word result"
    and cells :: span
  assumes wr_exchange: "wr i val h = exchange_at cells i val h"
    and rd_get: "rd i h = span_get h cells i"
    and bytes: "8 dvd LENGTH('a)"
begin

lemma write_read:
  assumes "wf_span h cells" and "(i + 1) * (LENGTH('a) div 8) \<le> sp_len cells"
  shows "\<exists>old h'. wr i val h = Val (old, h') \<and> rd i h = Val old \<and> rd i h' = Val val \<and>
    (\<forall>j. j \<noteq> i \<longrightarrow> rd j h' = rd j h) \<and> wf_span h' cells"
proof -
  obtain old h' where x: "exchange_at cells i val h = Val (old, h')"
    using exchange_at_in_range [OF assms(2)] by blast
  then have g: "span_get h cells i = Val old" and s: "span_set cells i val h = Val h'"
    by (simp_all add: exchange_at_Val)
  have "wf_span h' cells"
    using span_set_lengths [OF s assms(1)] assms(1) by (simp add: wf_span_def)
  with x g span_get_set_same [OF s assms(1) bytes] span_get_set_other [OF s assms(1)] show ?thesis
    by (auto simp: wr_exchange rd_get)
qed

lemma out_of_range:
  assumes "sp_len cells < (i + 1) * (LENGTH('a) div 8)"
  shows "wr i val h = Fail (Undefined OutOfBounds) \<and> rd i h = Fail (Undefined OutOfBounds)"
  using assms by (simp add: wr_exchange rd_get exchange_at_def span_get_def Let_def)

end

interpretation gpr32: register_file "writeGpr r" "readGpr r" "m_gpr (r :: 32 word registers)"
  by unfold_locales (simp_all add: writeGpr_def readGpr_def)

interpretation fpr32: register_file "writeFpr r" "readFpr r :: nat \<Rightarrow> store \<Rightarrow> 32 word result"
    "m_fpr (r :: 32 word registers)"
  by unfold_locales (simp_all add: writeFpr_def readFpr_def)

interpretation vec32: register_file "writeVec r" "readVec r :: nat \<Rightarrow> store \<Rightarrow> 32 word result"
    "m_vec (r :: 32 word registers)"
  by unfold_locales (simp_all add: writeVec_def readVec_def)

interpretation csr32: register_file "writeCsr r" "readCsr r" "m_csr (r :: 32 word registers)"
  by unfold_locales (simp_all add: writeCsr_def readCsr_def)

interpretation gpr64: register_file "writeGpr r" "readGpr r" "m_gpr (r :: 64 word registers)"
  by unfold_locales (simp_all add: writeGpr_def readGpr_def)

section \<open>Comparisons of the register index\<close>

lemma sint_shift: "sint (w :: 32 word) = (uint w + 2 ^ 31) mod 2 ^ 32 - 2 ^ 31"
  by (simp add: sint_uint signed_take_bit_eq_take_bit_shift take_bit_eq_mod)

lemma uint_bounds32: "0 \<le> uint (w :: 32 word)" "uint (w :: 32 word) < 2 ^ 32"
  using unsigned_less [of w, where ?'a = int] by simp_all

lemma mod_once: "0 \<le> k + m \<Longrightarrow> k < 0 \<Longrightarrow> (k :: int) mod m = k + m"
  by (metis add.commute add_less_same_cancel1 mod_add_self1 mod_pos_pos_trivial)

lemma sint_cases: "sint (w :: 32 word) = (if uint w < 2 ^ 31 then uint w else uint w - 2 ^ 32)"
proof (cases "uint w < 2 ^ 31")
  case True
  then have "(uint w + 2 ^ 31) mod 2 ^ 32 = uint w + 2 ^ 31"
    using uint_bounds32 by (intro mod_pos_pos_trivial) auto
  with True show ?thesis by (simp add: sint_shift)
next
  case False
  have "(uint w + 2 ^ 31) mod 2 ^ 32 = (uint w - 2 ^ 31 + 2 ^ 32) mod 2 ^ 32"
    by (simp add: add.commute)
  also have "\<dots> = uint w - 2 ^ 31"
    using uint_bounds32 [of w] False by (simp only: mod_add_self2) (simp add: mod_pos_pos_trivial)
  finally show ?thesis using False by (simp add: sint_shift)
qed

lemma uint_scast64:
  "uint (scast (w :: 32 word) :: 64 word) = (if uint w < 2 ^ 31 then uint w else uint w + 2 ^ 64 - 2 ^ 32)"
proof -
  have s: "uint (scast w :: 64 word) = sint w mod 2 ^ 64"
    by (simp only: scast_eq uint_word_of_int) simp
  show ?thesis
  proof (cases "uint w < 2 ^ 31")
    case True
    then have "uint w mod 2 ^ 64 = uint w"
      using uint_bounds32(1) by (intro mod_pos_pos_trivial) auto
    with s True show ?thesis by (simp only: sint_cases if_True)
  next
    case False
    then have "(uint w - 2 ^ 32) mod 2 ^ 64 = uint w - 2 ^ 32 + 2 ^ 64"
      using uint_bounds32 [of w] by (intro mod_once) auto
    with s False show ?thesis by (simp only: sint_cases if_False)
  qed
qed

lemma index_below_iff:
  assumes "n < 2 ^ 31"
  shows "index_below idx n \<longleftrightarrow> unat idx < n"
proof -
  have "n < 2 ^ LENGTH(64)"
    using assms by simp
  then have "unat (word_of_nat n :: 64 word) = n"
    by (simp only: unat_of_nat mod_less)
  then have n: "uint (word_of_nat n :: 64 word) = int n"
    by (simp only: uint_nat)
  have "index_below idx n \<longleftrightarrow> uint (scast idx :: 64 word) < int n"
    by (simp only: index_below_def word_less_def n)
  also have "\<dots> \<longleftrightarrow> uint idx < int n"
    using assms uint_bounds32 [of idx] by (subst uint_scast64) simp
  also have "\<dots> \<longleftrightarrow> unat idx < n"
    by (simp only: uint_nat of_nat_less_iff)
  finally show ?thesis .
qed

lemma index_above_pc:
  assumes "n \<le> unat idx" and "n < 2 ^ 31"
  shows "sint (idx - word_of_nat n :: 32 word) < 1 \<longleftrightarrow> unat idx = n \<or> 2 ^ 31 + n \<le> unat idx"
proof -
  have "n < 2 ^ LENGTH(32)"
    using assms(2) by simp
  then have n: "unat (word_of_nat n :: 32 word) = n"
    by (simp only: unat_of_nat mod_less)
  then have "word_of_nat n \<le> idx"
    using assms(1) by (simp add: word_le_nat_alt)
  then have "unat (idx - word_of_nat n) = unat idx - n"
    by (simp only: unat_sub n)
  then have "uint (idx - word_of_nat n) = int (unat idx) - int n"
    using assms(1) by (simp only: uint_nat of_nat_diff)
  moreover have "int (unat idx) < 2 ^ 32"
    using uint_bounds32(2) [of idx] by (simp only: uint_nat)
  ultimately show ?thesis
    using assms by (subst sint_cases) (simp del: of_nat_unat, arith)
qed

section \<open>Objects that own their spans\<close>

text \<open>An object as its constructor leaves it: the register files lie in its own array.\<close>

definition owns :: "'x::len word registers \<Rightarrow> store \<Rightarrow> bool" where
  "owns r h \<longleftrightarrow> m_all r < length h \<and> wf_span h (m_gpr r) \<and>
     sp_arr (m_gpr r) = m_all r \<and> sp_off (m_gpr r) = 0"

lemma owns_new: "registers_new xl fl vl isa h = (r, h') \<Longrightarrow> owns r h'"
  by (auto simp: registers_new_def owns_def wf_span_def sizeAll_def sizeGpr_def Let_def nth_append)

lemma span_bytes_readAll: "span_bytes h (readAll r h) = h ! m_all r"
  by (simp add: span_bytes_def readAll_def)

lemma writeGpr_image:
  fixes r :: "32 word registers"
  assumes "writeGpr r i val h = Val (old, h')"
  shows "h' = h[sp_arr (m_gpr r) := overwrite (sp_off (m_gpr r) + 4 * i) (le_enc val) (h ! sp_arr (m_gpr r))]"
  using assms by (auto simp: writeGpr_def exchange_at_Val span_set_def Let_def mult.commute split: if_splits)

lemma writeAll_fits:
  "length data \<le> length (h ! m_all r) \<Longrightarrow>
    writeAll r data h = Val (h[m_all r := data @ drop (length data) (h ! m_all r)])"
  by (simp add: writeAll_def span_copy_def overwrite_def)

lemma slice_le_enc:
  assumes "i < length ws"
  shows "slice (4 * i) 4 (concat (map (le_enc :: 32 word \<Rightarrow> byte list) ws) @ rest) = le_enc (ws ! i)"
  using assms
proof (induction ws arbitrary: i)
  case Nil
  then show ?case by simp
next
  case (Cons w ws)
  then show ?case
    by (cases i) (simp_all add: slice_def)
qed

lemma readOne_integer:
  fixes r :: "'x::len word registers"
  assumes "lenFpr isa = 0" and "lenVec isa = 0" and "lenCsr isa = 0"
  shows "readOne isa r f v idx h =
    (if unat idx < lenGpr isa then wild (span_get h (m_gpr r) (unat idx)  :: 'x word result)
     else if unat idx = lenGpr isa \<or> 2 ^ 31 + lenGpr isa \<le> unat idx then wild (Val (m_pc r))
     else Val EmptySpan)"
proof -
  have g: "lenGpr isa < 2 ^ 31"
    by (simp add: lenGpr_def)
  have none: "\<not> index_below i 0" for i
    by (simp add: index_below_iff)
  show ?thesis
    using index_above_pc [of "lenGpr isa" idx] g
    by (auto simp: readOne_def Let_def assms index_below_iff [OF g] none)
qed

section \<open>Properties\<close>

text \<open>
  Property C36: on an object that owns its registers, \<open>writeGpr\<close> of a general purpose register returns
  the old value; afterwards \<open>readGpr\<close> reads the new value there and the old values elsewhere, and the
  image that a \<open>g\<close> packet transfers has changed in the four little-endian bytes of that register only.
\<close>

theorem gpr_write_read:
  fixes r :: "32 word registers"
  assumes "owns r h" and "sp_len (m_gpr r) = 4 * n" and "i < n"
  shows "\<exists>old h'. writeGpr r i val h = Val (old, h') \<and> readGpr r i h = Val old \<and> readGpr r i h' = Val val \<and>
    (\<forall>j. j \<noteq> i \<longrightarrow> readGpr r j h' = readGpr r j h) \<and>
    span_bytes h' (readAll r h') = overwrite (4 * i) (le_enc val) (span_bytes h (readAll r h)) \<and> owns r h'"
proof -
  have wf: "wf_span h (m_gpr r)" and fits: "(i + 1) * (LENGTH(32) div 8) \<le> sp_len (m_gpr r)"
    using assms by (simp_all add: owns_def)
  from gpr32.write_read [OF this] obtain old h' where
    w: "writeGpr r i val h = Val (old, h')" "readGpr r i h = Val old" "readGpr r i h' = Val val"
      "\<forall>j. j \<noteq> i \<longrightarrow> readGpr r j h' = readGpr r j h" "wf_span h' (m_gpr r)"
    by blast
  moreover have "span_bytes h' (readAll r h') = overwrite (4 * i) (le_enc val) (span_bytes h (readAll r h))"
    using writeGpr_image [OF w(1)] assms(1) by (simp add: span_bytes_readAll owns_def)
  moreover have "owns r h'"
    using writeGpr_image [OF w(1)] assms(1) w(5) by (simp add: owns_def)
  ultimately show ?thesis by blast
qed

text \<open>
  On an object that owns its registers, the values that a whole-image write puts into the
  image in little-endian order are the values that \<open>readGpr\<close> then returns.
\<close>

theorem writeAll_readGpr:
  fixes r :: "32 word registers"
  assumes "owns r h" and "sp_len (m_gpr r) = 4 * n" and "length ws \<le> n" and "i < length ws"
  shows "\<exists>h'. writeAll r (concat (map le_enc ws)) h = Val h' \<and> readGpr r i h' = Val (ws ! i)"
proof -
  let ?data = "concat (map (le_enc :: 32 word \<Rightarrow> byte list) ws)"
  have len: "length ?data = 4 * length ws"
    by (rule word32.enc_list_width)
  have "length ?data \<le> length (h ! m_all r)"
    using assms unfolding len by (auto simp: owns_def wf_span_def)
  then have "writeAll r ?data h = Val (h[m_all r := ?data @ drop (length ?data) (h ! m_all r)])"
    by (rule writeAll_fits)
  moreover have "readGpr r i (h[m_all r := ?data @ drop (length ?data) (h ! m_all r)]) = Val (ws ! i)"
    using assms slice_le_enc [OF assms(4)]
    by (simp add: readGpr_def span_get_def Let_def owns_def mult.commute)
  ultimately show ?thesis by blast
qed

text \<open>
  A whole-image write is not checked against the size of the image.  It replaces the
  first bytes of the image when the data fit and is undefined behaviour exactly when they do not.
\<close>

theorem writeAll_image:
  "(length data \<le> length (span_bytes h (readAll r h)) \<longrightarrow> m_all r < length h \<longrightarrow>
      (\<exists>h'. writeAll r data h = Val h' \<and>
        span_bytes h' (readAll r h') = data @ drop (length data) (span_bytes h (readAll r h)))) \<and>
   (writeAll r data h = Fail (Undefined OutOfBounds) \<longleftrightarrow> length (span_bytes h (readAll r h)) < length data)"
  by (auto simp: span_bytes_readAll writeAll_fits) (auto simp: writeAll_def span_copy_def split: if_splits)

text \<open>
  Copying a register object does not separate the register files.  A register written
  through the copy changes the image of the original and not the image that the copy owns, so a
  whole-image read of the copy does not show it.
\<close>

theorem registers_copy_aliases_original:
  fixes r :: "32 word registers"
  assumes "owns r h" and "sp_len (m_gpr r) = 4 * n" and "i < n" and "registers_copy r h = (c, h1)"
  shows "\<exists>old h2. writeGpr c i val h1 = Val (old, h2) \<and>
    span_bytes h2 (readAll c h2) = span_bytes h1 (readAll c h1) \<and>
    span_bytes h2 (readAll r h2) = overwrite (4 * i) (le_enc val) (span_bytes h (readAll r h)) \<and>
    readGpr r i h2 = Val val"
proof -
  have c: "c = r\<lparr>m_all := length h\<rparr>" and h1: "h1 = h @ [h ! m_all r]"
    using assms(4) by (simp_all add: registers_copy_def)
  have wf: "wf_span h1 (m_gpr c)" and fits: "(i + 1) * (LENGTH(32) div 8) \<le> sp_len (m_gpr c)"
    using assms by (auto simp: owns_def wf_span_def c h1 nth_append)
  from gpr32.write_read [OF this] obtain old h2 where
    w: "writeGpr c i val h1 = Val (old, h2)" "readGpr c i h2 = Val val"
    by blast
  have h2: "h2 = h1[m_all r := overwrite (4 * i) (le_enc val) (h ! m_all r)]"
    using writeGpr_image [OF w(1)] assms(1) by (simp add: owns_def c h1 nth_append)
  have "readGpr r i h2 = Val val"
    using w(2) by (simp add: readGpr_def c)
  with w(1) h2 assms(1) show ?thesis
    by (auto simp: span_bytes_readAll owns_def c h1 nth_append)
qed

text \<open>
  Property C37: where the constructor puts the register files.  The general purpose, floating point and
  vector files lie in the image one after the other without overlap, and the control registers
  follow; these fit the image exactly when there are none or \<open>XLEN\<close> is not wider than \<open>VLEN\<close>,
  because their part of the image was sized with \<open>VLEN\<close>.
\<close>

theorem register_layout:
  "case registers_new xl fl vl isa h of (r, h') \<Rightarrow>
     wf_span h' (m_gpr r) \<and> wf_span h' (m_fpr r) \<and> wf_span h' (m_vec r) \<and>
     sp_off (m_gpr r) + sp_len (m_gpr r) + xl = sp_off (m_fpr r) \<and>
     sp_off (m_fpr r) + sp_len (m_fpr r) = sp_off (m_vec r) \<and>
     sp_off (m_vec r) + sp_len (m_vec r) = sp_off (m_csr r) \<and>
     (wf_span h' (m_csr r) \<longleftrightarrow> lenCsr isa = 0 \<or> xl \<le> vl)"
  by (auto simp: registers_new_def wf_span_def sizeAll_def sizeGpr_def sizePc_def lenPc_def
      sizeFpr_def sizeVec_def sizeCsr_def Let_def nth_append)

section \<open>Instances\<close>

definition demo_isa :: isa_riscv where
  "demo_isa = \<lparr>EXT = \<lparr>ext_E = False, ext_F = False, ext_V = False\<rparr>, CSR = replicate 4096 False\<rparr>"

lemma demo_isa_lens [simp]:
  "lenGpr demo_isa = 32" "lenFpr demo_isa = 0" "lenVec demo_isa = 0" "lenCsr demo_isa = 0"
  by (simp_all add: demo_isa_def lenGpr_def lenFpr_def lenVec_def lenCsr_def count_list_0_iff)

definition demo_regs :: "32 word registers" where
  "demo_regs = fst (registers_new 4 4 4 demo_isa [])"

definition demo_store :: store where
  "demo_store = snd (registers_new 4 4 4 demo_isa [] :: 32 word registers \<times> store)"

lemma demo_owns: "owns demo_regs demo_store" "sp_len (m_gpr demo_regs) = 4 * 32"
proof -
  show "owns demo_regs demo_store"
    unfolding demo_regs_def demo_store_def by (rule owns_new [where h = "[]"]) simp
  show "sp_len (m_gpr demo_regs) = 4 * 32"
    by (simp add: demo_regs_def registers_new_def Let_def)
qed

theorem gpr_write_read_witness:
  "\<exists>old h'. writeGpr demo_regs 5 0x12345678 demo_store = Val (old, h') \<and> readGpr demo_regs 5 h' = Val 0x12345678"
  using gpr_write_read [OF demo_owns, of 5 "0x12345678"] by auto

theorem writeAll_readGpr_witness:
  "\<exists>h'. writeAll demo_regs (concat (map le_enc [1, 2, 3 :: 32 word])) demo_store = Val h' \<and>
    readGpr demo_regs 1 h' = Val 2"
  using writeAll_readGpr [OF demo_owns, of "[1, 2, 3]" 1] by auto

theorem writeAll_image_witness:
  "writeAll demo_regs (replicate 133 0) demo_store = Fail (Undefined OutOfBounds)"
  using writeAll_image [of "replicate 133 0" demo_store demo_regs]
  by (simp add: span_bytes_readAll demo_regs_def demo_store_def registers_new_def Let_def
      sizeAll_def sizeGpr_def sizePc_def lenPc_def sizeFpr_def sizeVec_def sizeCsr_def)

theorem registers_copy_aliases_original_witness:
  "\<exists>old h2. writeGpr (fst (registers_copy demo_regs demo_store)) 5 7 (snd (registers_copy demo_regs demo_store)) = Val (old, h2) \<and>
    readGpr demo_regs 5 h2 = Val 7"
  using registers_copy_aliases_original [OF demo_owns, of 5 "fst (registers_copy demo_regs demo_store)"
      "snd (registers_copy demo_regs demo_store)" 7] by auto

end
