(* ===== verification/Std_Map.thy ===== *)
theory Std_Map
  imports Prelude "HOL-Library.Char_ord" "HOL-Library.List_Lexorder"
begin

text \<open>
  \<open>std::map\<close>: a dictionary that is iterated in the order of its keys.  It is modelled as the list of
  its entries in that order.  The locale \<open>std_map\<close> is what a client may rely on; the entry list
  provides it, for keys of any linearly ordered type (addresses, characters, strings).
\<close>

type_synonym ('k, 'v) smap = "('k \<times> 'v) list"

text \<open>\<open>m[k] = v\<close>, \<open>m.find(k)\<close>, \<open>m.erase(k)\<close>, \<open>m.contains(k)\<close>, \<open>m.size()\<close>.\<close>

fun map_set :: "'k::linorder \<Rightarrow> 'v \<Rightarrow> ('k, 'v) smap \<Rightarrow> ('k, 'v) smap" where
  "map_set k v [] = [(k, v)]"
| "map_set k v (e # m) =
     (if fst e < k then e # map_set k v m
      else if fst e = k then (k, v) # m
      else (k, v) # e # m)"

definition map_find :: "('k, 'v) smap \<Rightarrow> 'k \<Rightarrow> 'v option" where
  "map_find m k = map_of m k"

definition map_erase :: "'k \<Rightarrow> ('k, 'v) smap \<Rightarrow> ('k, 'v) smap" where
  "map_erase k m = filter (\<lambda>e. fst e \<noteq> k) m"

definition map_contains :: "('k, 'v) smap \<Rightarrow> 'k \<Rightarrow> bool" where
  "map_contains m k \<longleftrightarrow> map_find m k \<noteq> None"

definition map_size :: "('k, 'v) smap \<Rightarrow> nat" where
  "map_size m = length m"

text \<open>
  \<open>m[k]\<close> as an expression: a missing key is inserted with a value-initialised element first.
\<close>

definition map_at :: "'v \<Rightarrow> 'k::linorder \<Rightarrow> ('k, 'v) smap \<Rightarrow> 'v \<times> ('k, 'v) smap" where
  "map_at dflt k m = (case map_find m k of Some v \<Rightarrow> (v, m) | None \<Rightarrow> (dflt, map_set k dflt m))"

definition map_inv :: "('k::linorder, 'v) smap \<Rightarrow> bool" where
  "map_inv m \<longleftrightarrow> sorted_wrt (<) (map fst m)"

section \<open>The interface\<close>

locale std_map =
  fixes find :: "'m \<Rightarrow> 'k \<Rightarrow> 'v option"
    and put :: "'k \<Rightarrow> 'v \<Rightarrow> 'm \<Rightarrow> 'm"
    and erase :: "'k \<Rightarrow> 'm \<Rightarrow> 'm"
    and size :: "'m \<Rightarrow> nat"
    and inv :: "'m \<Rightarrow> bool"
  assumes find_put: "inv m \<Longrightarrow> find (put k v m) k' = (if k' = k then Some v else find m k')"
    and find_erase: "inv m \<Longrightarrow> find (erase k m) k' = (if k' = k then None else find m k')"
    and size_card: "inv m \<Longrightarrow> size m = card (dom (find m))"
    and finite_dom: "inv m \<Longrightarrow> finite (dom (find m))"
    and inv_put: "inv m \<Longrightarrow> inv (put k v m)"
    and inv_erase: "inv m \<Longrightarrow> inv (erase k m)"
begin

lemma dom_put: "inv m \<Longrightarrow> dom (find (put k v m)) = insert k (dom (find m))"
  by (auto simp: find_put dom_def)

lemma dom_erase: "inv m \<Longrightarrow> dom (find (erase k m)) = dom (find m) - {k}"
  by (auto simp: find_erase dom_def)

lemma size_put:
  "inv m \<Longrightarrow> size (put k v m) = (if find m k = None then Suc (size m) else size m)"
  by (auto simp: size_card inv_put dom_put finite_dom card_insert_if)

lemma size_erase:
  "inv m \<Longrightarrow> size (erase k m) = (if find m k = None then size m else size m - 1)"
  by (auto simp: size_card inv_erase dom_erase finite_dom card_Diff_singleton domIff)

lemma erase_put_find:
  "inv m \<Longrightarrow> find m k = None \<Longrightarrow> find (erase k (put k v m)) k' = find m k'"
  by (simp add: find_erase inv_put find_put)

lemma put_put_find:
  "inv m \<Longrightarrow> find (put k v (put k w m)) k' = find (put k v m) k'"
  by (simp add: inv_put find_put)

end

section \<open>The entry list provides it\<close>

lemma map_find_set: "map_inv m \<Longrightarrow> map_find (map_set k v m) k' = (if k' = k then Some v else map_find m k')"
proof (induction m)
  case Nil
  then show ?case by (simp add: map_find_def)
next
  case (Cons e m)
  then have "map_inv m" by (simp add: map_inv_def)
  then show ?case
    using Cons by (cases e) (auto simp: map_find_def)
qed

lemma map_find_erase: "map_find (map_erase k m) k' = (if k' = k then None else map_find m k')"
  by (induction m) (auto simp: map_find_def map_erase_def)

lemma in_map_set: "x \<in> set (map_set k v m) \<Longrightarrow> fst x = k \<or> x \<in> set m"
  by (induction m) (auto split: if_splits)

lemma map_inv_set: "map_inv m \<Longrightarrow> map_inv (map_set k v m)"
proof (induction m)
  case Nil
  then show ?case by (simp add: map_inv_def)
next
  case (Cons e m)
  then have IH: "map_inv (map_set k v m)" by (simp add: map_inv_def)
  show ?case
  proof (cases "fst e < k")
    case True
    then have "\<forall>x \<in> set (map_set k v m). fst e < fst x"
      using Cons.prems by (fastforce simp: map_inv_def dest: in_map_set)
    with True IH show ?thesis by (simp add: map_inv_def)
  next
    case False
    then show ?thesis
      using Cons.prems by (auto simp: map_inv_def)
  qed
qed

lemma map_inv_erase: "map_inv m \<Longrightarrow> map_inv (map_erase k m)"
  by (induction m) (auto simp: map_inv_def map_erase_def)

lemma map_inv_distinct: "map_inv m \<Longrightarrow> distinct (map fst m)"
  by (auto simp: map_inv_def strict_sorted_iff)

lemma map_find_dom: "dom (map_find m) = fst ` set m"
  by (simp add: map_find_def [abs_def] dom_map_of_conv_image_fst)

lemma map_size_card: "map_inv m \<Longrightarrow> map_size m = card (dom (map_find m))"
  by (metis distinct_card length_map list.set_map map_find_dom map_inv_distinct map_size_def)

interpretation smap: std_map map_find map_set map_erase map_size "map_inv :: ('k::linorder, 'v) smap \<Rightarrow> bool"
  by unfold_locales
    (auto simp: map_find_set map_find_erase map_size_card map_find_dom map_inv_set map_inv_erase)

lemma map_inv_Nil [simp]: "map_inv []"
  by (simp add: map_inv_def)

lemma map_at_inv [simp]: "map_inv m \<Longrightarrow> map_inv (snd (map_at d k m))"
  by (auto simp: map_at_def map_inv_set split: option.split)

lemma map_at_find: "map_inv m \<Longrightarrow> map_find (snd (map_at d k m)) k = Some (fst (map_at d k m))"
  by (auto simp: map_at_def map_find_set split: option.split)

lemma map_contains_iff: "map_contains m k \<longleftrightarrow> k \<in> dom (map_find m)"
  by (auto simp: map_contains_def)

end
