(* ===== verification/MemoryMap.thy ===== *)
theory MemoryMap
  imports Store Std_Map
begin

text \<open>
  The address map (\<open>src/shadow/AddressMap.hpp\<close>) and the shadow memory (\<open>src/shadow/MemoryMap.hpp\<close>).
  Addresses are words of the template parameter \<open>XLEN\<close>, a type variable here.  A memory map owns one
  byte array for all memory blocks and reaches it through the span \<open>m_mem\<close>.
\<close>

record 'xlen address_block =
  base :: "'xlen"
  bsize :: "'xlen"

record 'xlen address_map =
  mem :: "'xlen address_block list"
  i_o :: "'xlen address_block list"

fun addressBlockSize :: "'x::len word address_block list \<Rightarrow> 'x word" where
  "addressBlockSize blocks = foldl (\<lambda>size block. size + bsize block) 0 blocks"

fun addressBlockAlignment :: "'x::len word address_block list \<Rightarrow> bool" where
  "addressBlockAlignment [] = True"
| "addressBlockAlignment (block # blocks) =
     (if unat (base block) mod (LENGTH('x) div 8) \<noteq> 0 then False
      else if unat (bsize block) mod (LENGTH('x) div 8) \<noteq> 0 then False
      else addressBlockAlignment blocks)"

record 'xlen memory_map =
  m_buf :: nat
  m_mem :: span
  m_i_o :: "('xlen, 'xlen) smap"

text \<open>
  Default construction puts a zeroed array into the store and points \<open>m_mem\<close> at it; the implicit
  copy constructor copies the array and every other member, the span included.
\<close>

definition memory_map_new :: "'x::len word address_map \<Rightarrow> store \<Rightarrow> 'x word memory_map \<times> store" where
  "memory_map_new amap h =
     (let n = unat (addressBlockSize (mem amap)) in
      (\<lparr>m_buf = length h, m_mem = \<lparr>sp_arr = length h, sp_off = 0, sp_len = n\<rparr>, m_i_o = []\<rparr>,
       h @ [replicate n 0]))"

definition memory_map_copy :: "'x::len word memory_map \<Rightarrow> store \<Rightarrow> 'x word memory_map \<times> store" where
  "memory_map_copy m h = (m\<lparr>m_buf := length h\<rparr>, h @ [h ! m_buf m])"

section \<open>Operations\<close>

text \<open>The sum \<open>base + size\<close> wraps around; an address in no block has offset 0.\<close>

fun offset :: "'x::len word address_block list \<Rightarrow> 'x word \<Rightarrow> 'x word" where
  "offset [] addr = 0"
| "offset (blk # blks) addr =
     (if addr \<ge> base blk \<and> addr < base blk + bsize blk then addr - base blk else offset blks addr)"

definition mm_read :: "'x::len word address_map \<Rightarrow> 'x word memory_map \<Rightarrow> 'x word \<Rightarrow> nat \<Rightarrow> span result" where
  "mm_read amap m addr n = subspan (m_mem m) (unat (offset (mem amap) addr)) n"

definition mm_write :: "'x::len word address_map \<Rightarrow> 'x word memory_map \<Rightarrow> 'x word \<Rightarrow> byte list \<Rightarrow> store \<Rightarrow> store result" where
  "mm_write amap m addr data h = span_copy (m_mem m) (unat (offset (mem amap) addr)) data h"

section \<open>The contract of a shadow memory\<close>

text \<open>
  What the debugger relies on: a write to a valid range can be read back, leaves ranges that are
  apart from it alone, and does not change which ranges are valid.
\<close>

locale shadow_memory =
  fixes rd :: "'m \<Rightarrow> 'a \<Rightarrow> nat \<Rightarrow> byte list result"
    and wr :: "'m \<Rightarrow> 'a \<Rightarrow> byte list \<Rightarrow> 'm result"
    and valid :: "'m \<Rightarrow> 'a \<Rightarrow> nat \<Rightarrow> bool"
    and apart :: "'a \<Rightarrow> nat \<Rightarrow> 'a \<Rightarrow> nat \<Rightarrow> bool"
  assumes wr_valid: "valid m a (length bs) \<Longrightarrow> \<exists>m'. wr m a bs = Val m'"
    and rd_wr_same: "valid m a (length bs) \<Longrightarrow> wr m a bs = Val m' \<Longrightarrow> rd m' a (length bs) = Val bs"
    and rd_wr_other: "valid m a (length bs) \<Longrightarrow> valid m b n \<Longrightarrow> apart a (length bs) b n \<Longrightarrow>
      wr m a bs = Val m' \<Longrightarrow> rd m' b n = rd m b n"
    and valid_wr: "valid m a (length bs) \<Longrightarrow> wr m a bs = Val m' \<Longrightarrow> valid m' b n = valid m b n"
begin

lemma write_back:
  assumes "valid m a (length bs)"
  shows "\<exists>m'. wr m a bs = Val m' \<and> rd m' a (length bs) = Val bs \<and> valid m' a (length bs)"
  using wr_valid [OF assms] rd_wr_same [OF assms] valid_wr [OF assms] assms by blast

lemma second_write_wins:
  assumes "valid m a (length bs)" and "length cs = length bs"
  shows "\<exists>m1 m2. wr m a bs = Val m1 \<and> wr m1 a cs = Val m2 \<and> rd m2 a (length bs) = Val cs"
proof -
  obtain m1 where m1: "wr m a bs = Val m1" "valid m1 a (length cs)"
    using write_back [OF assms(1)] assms(2) by auto
  with write_back [OF m1(2)] assms(2) show ?thesis by auto
qed

lemma writes_apart:
  assumes "valid m a (length bs)" and "valid m b (length cs)"
    and "apart a (length bs) b (length cs)" and "apart b (length cs) a (length bs)"
  shows "\<exists>m1 m2. wr m a bs = Val m1 \<and> wr m1 b cs = Val m2 \<and>
    rd m2 a (length bs) = Val bs \<and> rd m2 b (length cs) = Val cs"
proof -
  obtain m1 where m1: "wr m a bs = Val m1" "rd m1 a (length bs) = Val bs"
      "valid m1 a (length bs)" "valid m1 b (length cs)"
    using write_back [OF assms(1)] valid_wr [OF assms(1)] assms(2) by blast
  obtain m2 where m2: "wr m1 b cs = Val m2" "rd m2 b (length cs) = Val cs"
    using write_back [OF m1(4)] by blast
  with rd_wr_other [OF m1(4,3) assms(4) m2(1)] m1 show ?thesis by metis
qed

end

text \<open>The memory map, together with the store its array lives in.\<close>

definition mm_rd :: "'x::len word address_map \<Rightarrow> 'x word memory_map \<times> store \<Rightarrow> 'x word \<Rightarrow> nat \<Rightarrow> byte list result" where
  "mm_rd amap ms addr n = (case mm_read amap (fst ms) addr n of
      Val sp \<Rightarrow> Val (span_bytes (snd ms) sp) | Fail e \<Rightarrow> Fail e)"

definition mm_wr :: "'x::len word address_map \<Rightarrow> 'x word memory_map \<times> store \<Rightarrow> 'x word \<Rightarrow> byte list \<Rightarrow>
    ('x word memory_map \<times> store) result" where
  "mm_wr amap ms addr data = (case mm_write amap (fst ms) addr data (snd ms) of
      Val h \<Rightarrow> Val (fst ms, h) | Fail e \<Rightarrow> Fail e)"

definition mm_valid :: "'x::len word address_map \<Rightarrow> 'x word memory_map \<times> store \<Rightarrow> 'x word \<Rightarrow> nat \<Rightarrow> bool" where
  "mm_valid amap ms addr n \<longleftrightarrow> wf_span (snd ms) (m_mem (fst ms)) \<and>
     unat (offset (mem amap) addr) + n \<le> sp_len (m_mem (fst ms))"

definition mm_apart :: "'x::len word address_map \<Rightarrow> 'x word \<Rightarrow> nat \<Rightarrow> 'x word \<Rightarrow> nat \<Rightarrow> bool" where
  "mm_apart amap a n b k \<longleftrightarrow>
     unat (offset (mem amap) a) + n \<le> unat (offset (mem amap) b) \<or>
     unat (offset (mem amap) b) + k \<le> unat (offset (mem amap) a)"

interpretation mm: shadow_memory "mm_rd amap" "mm_wr amap" "mm_valid amap" "mm_apart amap"
proof (unfold_locales, goal_cases)
  case (1 m a bs)
  then show ?case
    by (simp add: mm_valid_def mm_wr_def mm_write_def span_copy_def)
next
  case (2 m a bs m')
  then obtain h' where h': "span_copy (m_mem (fst m)) (unat (offset (mem amap) a)) bs (snd m) = Val h'"
      "m' = (fst m, h')"
    by (auto simp: mm_wr_def mm_write_def split: result.splits)
  with 2(1) span_copy_read_same [OF h'(1)] show ?case
    by (simp add: mm_rd_def mm_read_def mm_valid_def)
next
  case (3 m a bs b n m')
  then obtain h' where h': "span_copy (m_mem (fst m)) (unat (offset (mem amap) a)) bs (snd m) = Val h'"
      "m' = (fst m, h')"
    by (auto simp: mm_wr_def mm_write_def split: result.splits)
  have "span_bytes h' \<lparr>sp_arr = sp_arr (m_mem (fst m)),
        sp_off = sp_off (m_mem (fst m)) + unat (offset (mem amap) b), sp_len = n\<rparr> =
      span_bytes (snd m) \<lparr>sp_arr = sp_arr (m_mem (fst m)),
        sp_off = sp_off (m_mem (fst m)) + unat (offset (mem amap) b), sp_len = n\<rparr>"
    using 3 by (intro span_copy_read_other [OF h'(1)]) (auto simp: mm_valid_def mm_apart_def)
  with 3 h'(2) show ?case
    by (simp add: mm_rd_def mm_read_def mm_valid_def)
next
  case (4 m a bs m' b n)
  then obtain h' where h': "span_copy (m_mem (fst m)) (unat (offset (mem amap) a)) bs (snd m) = Val h'"
      "m' = (fst m, h')"
    by (auto simp: mm_wr_def mm_write_def split: result.splits)
  have "wf_span (snd m) (m_mem (fst m))"
    using 4(1) by (simp add: mm_valid_def)
  with span_copy_lengths [OF h'(1)] have "wf_span h' (m_mem (fst m)) = wf_span (snd m) (m_mem (fst m))"
    by (intro wf_span_same_lengths) auto
  with h'(2) show ?case by (simp add: mm_valid_def)
qed

section \<open>Blocks\<close>

definition in_block :: "'x::len word address_block \<Rightarrow> 'x word \<Rightarrow> bool" where
  "in_block blk addr \<longleftrightarrow> base blk \<le> addr \<and> addr < base blk + bsize blk"

lemma offset_in_first: "in_block blk addr \<Longrightarrow> offset (blk # blks) addr = addr - base blk"
  by (simp add: in_block_def)

lemma offset_unmapped: "(\<forall>blk \<in> set blks. \<not> in_block blk addr) \<Longrightarrow> offset blks addr = 0"
  by (induction blks) (auto simp: in_block_def)

lemma unat_offset_in_first:
  assumes "in_block blk addr"
  shows "unat (offset (blk # blks) addr) = unat addr - unat (base blk)"
  using assms offset_in_first [OF assms] by (simp add: in_block_def unat_sub)

lemma addressBlockSize_sum: "addressBlockSize blocks = (\<Sum>b\<leftarrow>blocks. bsize b)"
proof -
  have "foldl (\<lambda>sz block. sz + bsize block) i blocks = i + (\<Sum>b\<leftarrow>blocks. bsize b)" for i
    by (induction blocks arbitrary: i) (simp_all add: add.assoc)
  then show ?thesis by simp
qed

text \<open>A block that does not wrap around the address space.\<close>

definition proper_block :: "'x::len word address_block \<Rightarrow> bool" where
  "proper_block blk \<longleftrightarrow> unat (base blk) + unat (bsize blk) < 2 ^ LENGTH('x)"

lemma in_block_unat:
  assumes "proper_block blk"
  shows "in_block blk addr \<longleftrightarrow> unat (base blk) \<le> unat addr \<and> unat addr < unat (base blk) + unat (bsize blk)"
proof -
  have "unat (base blk + bsize blk) = unat (base blk) + unat (bsize blk)"
    using assms by (simp add: proper_block_def unat_word_ariths)
  then show ?thesis
    by (simp add: in_block_def word_le_nat_alt word_less_nat_alt)
qed

definition in_range :: "'x::len word address_block \<Rightarrow> 'x word \<Rightarrow> nat \<Rightarrow> bool" where
  "in_range blk addr n \<longleftrightarrow> 0 < n \<and> unat (base blk) \<le> unat addr \<and>
     unat addr + n \<le> unat (base blk) + unat (bsize blk)"

lemma in_range_block: "proper_block blk \<Longrightarrow> in_range blk addr n \<Longrightarrow> in_block blk addr"
  by (auto simp: in_range_def in_block_unat)

lemma in_range_offset:
  "proper_block blk \<Longrightarrow> in_range blk addr n \<Longrightarrow>
    unat (offset (blk # blks) addr) = unat addr - unat (base blk) \<and>
    unat (offset (blk # blks) addr) + n \<le> unat (bsize blk)"
  using unat_offset_in_first [OF in_range_block [of blk addr n]] by (auto simp: in_range_def)

text \<open>The memory of a map with a single block, as large as the block.\<close>

definition covers :: "'x::len word address_map \<Rightarrow> 'x word address_block \<Rightarrow> 'x word memory_map \<times> store \<Rightarrow> bool" where
  "covers amap blk ms \<longleftrightarrow> mem amap = [blk] \<and> proper_block blk \<and> wf_span (snd ms) (m_mem (fst ms)) \<and>
     sp_len (m_mem (fst ms)) = unat (bsize blk)"

lemma covers_valid: "covers amap blk ms \<Longrightarrow> in_range blk addr n \<Longrightarrow> mm_valid amap ms addr n"
  using in_range_offset [of blk addr n "[]"] by (simp add: covers_def mm_valid_def)

lemma covers_apart:
  assumes "covers amap blk ms" and "in_range blk a n" and "in_range blk b k"
    and "unat a + n \<le> unat b \<or> unat b + k \<le> unat a"
  shows "mm_apart amap a n b k"
  using assms in_range_offset [of blk a n "[]"] in_range_offset [of blk b k "[]"]
  by (auto simp: covers_def mm_apart_def in_range_def)

lemma memory_map_new_covers:
  assumes "mem amap = [blk]" and "proper_block blk"
  shows "covers amap blk (memory_map_new amap h)"
  using assms by (simp add: covers_def memory_map_new_def Let_def wf_span_def)

section \<open>Properties\<close>

text \<open>
  Property C33: in a memory map with one block, what the debugger writes to a range of the block is
  what a later read of that range returns, and every range of the block that does not overlap it
  still reads as before.
\<close>

theorem memory_write_read:
  assumes "covers amap blk (m, h)" and "in_range blk a (length bs)"
    and "in_range blk b n" and "unat a + length bs \<le> unat b \<or> unat b + n \<le> unat a"
  shows "\<exists>h'. mm_write amap m a bs h = Val h' \<and>
    mm_rd amap (m, h') a (length bs) = Val bs \<and> mm_rd amap (m, h') b n = mm_rd amap (m, h) b n \<and>
    covers amap blk (m, h')"
proof -
  have valid: "mm_valid amap (m, h) a (length bs)" "mm_valid amap (m, h) b n"
    using assms by (auto intro: covers_valid)
  have apart: "mm_apart amap a (length bs) b n"
    using assms by (rule covers_apart)
  from mm.write_back [OF valid(1)] obtain ms where
    ms: "mm_wr amap (m, h) a bs = Val ms" "mm_rd amap ms a (length bs) = Val bs" "mm_valid amap ms a (length bs)"
    by blast
  then obtain h' where h': "mm_write amap m a bs h = Val h'" "ms = (m, h')"
    by (auto simp: mm_wr_def split: result.splits)
  have "mm_rd amap (m, h') b n = mm_rd amap (m, h) b n"
    using mm.rd_wr_other [OF valid apart ms(1)] h'(2) by simp
  moreover have "covers amap blk (m, h')"
    using assms(1) ms(3) h'(2) by (simp add: covers_def mm_valid_def)
  ultimately show ?thesis
    using h' ms(2) by auto
qed

text \<open>
  An address that lies in no memory block is not rejected: reads and writes at it reach
  the start of the array, the bytes of the first address of the first block.
\<close>

theorem unmapped_aliases_first_block:
  assumes "mem amap = blk # blks" and "\<forall>b \<in> set (mem amap). \<not> in_block b addr" and "bsize blk \<noteq> 0"
    and "proper_block blk"
  shows "mm_read amap m addr n = mm_read amap m (base blk) n \<and>
    mm_write amap m addr data h = mm_write amap m (base blk) data h"
proof -
  have "in_block blk (base blk)"
    using assms(3,4) by (simp add: in_block_unat unat_gt_0)
  then have "offset (mem amap) (base blk) = 0"
    unfolding assms(1) by (subst offset_in_first) simp_all
  moreover have "offset (mem amap) addr = 0"
    using assms(2) by (rule offset_unmapped)
  ultimately show ?thesis
    by (simp add: mm_read_def mm_write_def)
qed

text \<open>
  With more than one memory block the blocks share storage.  The offset counts from the
  base of the block an address falls into, not from where that block's bytes begin in the array, so
  the same distance into two blocks is the same byte.
\<close>

theorem blocks_share_storage:
  assumes "mem amap = [blk1, blk2]" and "in_block blk1 (base blk1 + k)" and "in_block blk2 (base blk2 + k)"
    and "\<not> in_block blk1 (base blk2 + k)"
  shows "mm_read amap m (base blk1 + k) n = mm_read amap m (base blk2 + k) n \<and>
    mm_write amap m (base blk1 + k) data h = mm_write amap m (base blk2 + k) data h"
proof -
  have "offset (mem amap) (base blk1 + k) = k" "offset (mem amap) (base blk2 + k) = k"
    using assms by (auto simp: in_block_def)
  then show ?thesis
    by (simp add: mm_read_def mm_write_def)
qed

text \<open>
  A read or write whose range leaves the array is not checked: it is undefined behaviour
  exactly when the offset of its address plus its length exceeds the size of the memory.
\<close>

theorem memory_overrun_undefined:
  "(mm_read amap m addr n = Fail (Undefined OutOfBounds) \<longleftrightarrow>
      sp_len (m_mem m) < unat (offset (mem amap) addr) + n) \<and>
   (mm_write amap m addr data h = Fail (Undefined OutOfBounds) \<longleftrightarrow>
      sp_len (m_mem m) < unat (offset (mem amap) addr) + length data)"
  by (auto simp: mm_read_def mm_write_def subspan_def span_copy_def)

text \<open>
  Copying a memory map does not separate it from the original.  A write through the copy
  changes what the original reads, and leaves the array that the copy owns as it was.
\<close>

theorem memory_copy_aliases_original:
  assumes "covers amap blk (m, h)" and "m_buf m < length h" and "memory_map_copy m h = (m', h1)"
    and "in_range blk a (length bs)"
  shows "\<exists>h2. mm_write amap m' a bs h1 = Val h2 \<and> mm_rd amap (m, h2) a (length bs) = Val bs \<and>
    h2 ! m_buf m' = h ! m_buf m"
proof -
  have m': "m' = m\<lparr>m_buf := length h\<rparr>" and h1: "h1 = h @ [h ! m_buf m]"
    using assms(3) by (simp_all add: memory_map_copy_def)
  have arr: "sp_arr (m_mem m) < length h"
    using assms(1) by (simp add: covers_def wf_span_def)
  have "covers amap blk (m', h1)"
    using assms(1) arr by (simp add: covers_def wf_span_def m' h1 nth_append)
  then have "mm_valid amap (m', h1) a (length bs)"
    using assms(4) by (rule covers_valid)
  from mm.write_back [OF this] obtain ms where
    ms: "mm_wr amap (m', h1) a bs = Val ms" "mm_rd amap ms a (length bs) = Val bs"
    by blast
  then obtain h2 where h2: "mm_write amap m' a bs h1 = Val h2" "ms = (m', h2)"
    by (auto simp: mm_wr_def split: result.splits)
  have "mm_rd amap (m, h2) a (length bs) = Val bs"
    using ms(2) h2(2) by (simp add: mm_rd_def mm_read_def m' split: result.splits)
  moreover have "h2 ! m_buf m' = h1 ! m_buf m'"
    using h2(1) arr by (intro span_copy_other_array) (auto simp: mm_write_def m')
  ultimately show ?thesis
    using h2(1) by (simp add: h1 m')
qed

section \<open>Instances\<close>

definition demo_block :: "nat \<Rightarrow> 32 word address_block" where
  "demo_block n = \<lparr>base = 0x80000000 + word_of_nat n, bsize = 16\<rparr>"

definition demo_map :: "32 word address_map" where
  "demo_map = \<lparr>mem = [demo_block 0], i_o = []\<rparr>"

definition demo_map2 :: "32 word address_map" where
  "demo_map2 = \<lparr>mem = [demo_block 0, demo_block 256], i_o = []\<rparr>"

lemma demo_covers: "covers demo_map (demo_block 0) (memory_map_new demo_map [])"
  by (rule memory_map_new_covers) (simp_all add: demo_map_def demo_block_def proper_block_def)

lemma demo_memory: "memory_map_new demo_map [] =
    (\<lparr>m_buf = 0, m_mem = \<lparr>sp_arr = 0, sp_off = 0, sp_len = 16\<rparr>, m_i_o = []\<rparr>, [replicate 16 0])"
  by (simp add: memory_map_new_def demo_map_def demo_block_def Let_def)

theorem memory_write_read_witness:
  "\<exists>h'. mm_write demo_map (fst (memory_map_new demo_map [])) 0x80000004 [1, 2] (snd (memory_map_new demo_map [])) = Val h' \<and>
    mm_rd demo_map (fst (memory_map_new demo_map []), h') 0x80000004 (length [1 :: byte, 2]) = Val [1, 2]"
  using memory_write_read [of demo_map "demo_block 0" "fst (memory_map_new demo_map [])"
      "snd (memory_map_new demo_map [])" "0x80000004" "[1, 2]" "0x80000008" 4] demo_covers
  by (auto simp: in_range_def demo_block_def)

theorem unmapped_aliases_first_block_witness:
  "mm_read demo_map (fst (memory_map_new demo_map [])) 0 4 =
    mm_read demo_map (fst (memory_map_new demo_map [])) 0x80000000 4"
  using unmapped_aliases_first_block [of demo_map "demo_block 0" "[]" 0
      "fst (memory_map_new demo_map [])" 4 "[]" "[]"]
  by (simp add: demo_map_def demo_block_def in_block_def proper_block_def)

theorem blocks_share_storage_witness:
  "mm_read demo_map2 (fst (memory_map_new demo_map2 [])) 0x80000003 4 =
    mm_read demo_map2 (fst (memory_map_new demo_map2 [])) 0x80000103 4"
  using blocks_share_storage [of demo_map2 "demo_block 0" "demo_block 256" 3
      "fst (memory_map_new demo_map2 [])" 4 "[]" "[]"]
  by (simp add: demo_map2_def demo_block_def in_block_def)

theorem memory_copy_aliases_original_witness:
  "\<exists>h2. mm_write demo_map (fst (memory_map_copy (fst (memory_map_new demo_map [])) (snd (memory_map_new demo_map []))))
      0x80000000 [7] (snd (memory_map_copy (fst (memory_map_new demo_map [])) (snd (memory_map_new demo_map [])))) = Val h2 \<and>
    mm_rd demo_map (fst (memory_map_new demo_map []), h2) 0x80000000 (length [7 :: byte]) = Val [7]"
  using memory_copy_aliases_original [of demo_map "demo_block 0" "fst (memory_map_new demo_map [])"
      "snd (memory_map_new demo_map [])"
      "fst (memory_map_copy (fst (memory_map_new demo_map [])) (snd (memory_map_new demo_map [])))"
      "snd (memory_map_copy (fst (memory_map_new demo_map [])) (snd (memory_map_new demo_map [])))"
      "0x80000000" "[7]"] demo_covers
  by (auto simp: in_range_def demo_block_def demo_memory)

end
