(* ===== verification/Points.thy ===== *)
theory Points
  imports Std_Map
begin

text \<open>
  The types of \<open>src/rsp/rsp.hpp\<close>, the retired instruction (\<open>src/Instruction.hpp\<close>) and the table of
  breakpoints and watchpoints (\<open>src/shadow/Points.hpp\<close>).

  The members of \<open>Points\<close> are templates that the program never instantiates, and two of them do not
  compile as written: \<open>m_break.insert(addr) = {type, kind}\<close> is read as the assignment
  \<open>m_break[addr] = {type, kind}\<close>, and \<open>m_watch[addr].ptype\<close> as the member \<open>type\<close> that the struct has.
  Where a function flows off its end without a \<open>return\<close> the model says so.
\<close>

section \<open>Protocol types\<close>

text \<open>
  A scoped enumeration with underlying type \<open>int\<close> holds every \<open>int\<close>; \<open>Unnamed\<close> stands for the
  values without an enumerator.
\<close>

datatype PointType = swbreak | hwbreak | watch | rwatch | awatch | replaylog | none | Unnamed int

definition PointType_of :: "int \<Rightarrow> PointType" where
  "PointType_of i =
     (if i = 0 then swbreak else if i = 1 then hwbreak else if i = 2 then watch
      else if i = 3 then rwatch else if i = 4 then awatch else if i = 5 then replaylog
      else if i = - 1 then none else Unnamed i)"

type_synonym PointKind = "32 word"

text \<open>An \<open>int\<close> that the code leaves without a value is \<open>None\<close>.\<close>

record ThreadId =
  pid :: "int option"
  tid :: "int option"

text \<open>The sum of the characters, which are signed.\<close>

definition char_value :: "char \<Rightarrow> int" where
  "char_value c = (let n = (of_char c :: nat) in if n < 128 then int n else int n - 256)"

definition lit2hash :: "string \<Rightarrow> int" where
  "lit2hash str = foldl (\<lambda>a c. a + char_value c) 0 str"

section \<open>Retired instructions\<close>

record 'xlen retired_ifu =
  ifu_adr :: "'xlen"
  ifu_pcn :: "'xlen"
  ifu_rdt :: "byte list"
  ifu_ill :: bool

record 'xlen retired_gpr =
  gpr_idx :: "8 word"
  gpr_rdt :: "'xlen list"
  gpr_wdt :: "'xlen list"

record 'flen retired_fpr =
  fpr_idx :: "8 word"
  fpr_rdt :: "'flen"
  fpr_wdt :: "'flen"

record 'vlen retired_vec =
  vec_idx :: "8 word"
  vec_rdt :: "'vlen"
  vec_wdt :: "'vlen"

record 'xlen retired_csr =
  csr_idx :: "16 word"
  csr_rdt :: "'xlen"
  csr_wdt :: "'xlen"

record 'xlen retired_lsu =
  lsu_adr :: "'xlen"
  lsu_rdt :: "byte list"
  lsu_wdt :: "byte list"

record ('xlen, 'flen, 'vlen) retired =
  ifu :: "'xlen retired_ifu"
  gpr :: "'xlen retired_gpr"
  fpr :: "'flen retired_fpr"
  vec :: "'vlen retired_vec"
  csr :: "'xlen retired_csr"
  lsu :: "'xlen retired_lsu"

definition ebreak :: "byte list" where
  "ebreak = [0x73, 0x00, 0x10, 0x00]"

definition c_ebreak :: "byte list" where
  "c_ebreak = [0x02, 0x90]"

section \<open>The table\<close>

record point =
  ptype :: PointType
  pkind :: PointKind

definition SIGILL :: int where
  "SIGILL = 4"

definition SIGTRAP :: int where
  "SIGTRAP = 5"

record 'xlen points =
  m_break :: "('xlen, point) smap"
  m_watch :: "('xlen, point) smap"
  m_signal :: int
  m_reason :: point

text \<open>The \<open>std::size_t\<close> that \<open>size()\<close> returns is converted to \<open>int\<close>.\<close>

definition int_of_size :: "nat \<Rightarrow> int" where
  "int_of_size n = sint (word_of_nat n :: 32 word)"

fun is_break :: "PointType \<Rightarrow> bool" where
  "is_break swbreak = True"
| "is_break hwbreak = True"
| "is_break _ = False"

fun is_watch :: "PointType \<Rightarrow> bool" where
  "is_watch watch = True"
| "is_watch rwatch = True"
| "is_watch awatch = True"
| "is_watch _ = False"

definition points_insert :: "PointType \<Rightarrow> 'x::len word \<Rightarrow> PointKind \<Rightarrow> 'x word points \<Rightarrow> (int \<times> 'x word points) result" where
  "points_insert type addr kind p =
     (if is_break type then
        let b = map_set addr \<lparr>ptype = type, pkind = kind\<rparr> (m_break p)
        in Val (int_of_size (map_size b), p\<lparr>m_break := b\<rparr>)
      else if is_watch type then
        let w = map_set addr \<lparr>ptype = type, pkind = kind\<rparr> (m_watch p)
        in Val (int_of_size (map_size w), p\<lparr>m_watch := w\<rparr>)
      else Fail (Undefined NoReturn))"

definition points_remove :: "PointType \<Rightarrow> 'x::len word \<Rightarrow> PointKind \<Rightarrow> 'x word points \<Rightarrow> (int \<times> 'x word points) result" where
  "points_remove type addr kind p =
     (if is_break type then
        let b = map_erase addr (m_break p) in Val (int_of_size (map_size b), p\<lparr>m_break := b\<rparr>)
      else if is_watch type then
        let w = map_erase addr (m_watch p) in Val (int_of_size (map_size w), p\<lparr>m_watch := w\<rparr>)
      else Fail (Undefined NoReturn))"

definition match_watch :: "('x::len word, 'f, 'v) retired \<Rightarrow> 'x word points \<Rightarrow> (bool \<times> 'x word points) result" where
  "match_watch ret p =
     (let addr = lsu_adr (lsu ret);
          rena = length (lsu_rdt (lsu ret)) > 0;
          wena = length (lsu_wdt (lsu ret)) > 0
      in case map_find (m_watch p) addr of
           None \<Rightarrow> Fail (Undefined NoReturn)
         | Some w \<Rightarrow>
             if (ptype w = watch \<and> wena) \<or> (ptype w = rwatch \<and> rena) \<or> ptype w = awatch
             then Val (True, p\<lparr>m_signal := SIGTRAP, m_reason := w\<rparr>)
             else Fail (Undefined NoReturn))"

definition points_match :: "('x::len word, 'f, 'v) retired \<Rightarrow> 'x word points \<Rightarrow> (bool \<times> 'x word points) result" where
  "points_match ret p =
     (let addr = ifu_adr (ifu ret) in
      if ifu_ill (ifu ret) then Val (True, p\<lparr>m_signal := SIGILL\<rparr>)
      else case map_find (m_break p) addr of
          None \<Rightarrow> match_watch ret p
        | Some b \<Rightarrow>
            if ptype b = hwbreak then Val (True, p\<lparr>m_signal := SIGTRAP, m_reason := b\<rparr>)
            else match_watch ret p)"

section \<open>Well-formed tables\<close>

text \<open>
  Every entry of the break table is a breakpoint and every entry of the watch table a watchpoint;
  both tables are dictionaries.
\<close>

definition points_inv :: "'x::len word points \<Rightarrow> bool" where
  "points_inv p \<longleftrightarrow> map_inv (m_break p) \<and> map_inv (m_watch p) \<and>
     (\<forall>a e. map_find (m_break p) a = Some e \<longrightarrow> is_break (ptype e)) \<and>
     (\<forall>a e. map_find (m_watch p) a = Some e \<longrightarrow> is_watch (ptype e))"

text \<open>
  The abstract table: what point is set at an address, for instructions and for data.
\<close>

definition break_at :: "'x::len word points \<Rightarrow> 'x word \<Rightarrow> point option" where
  "break_at p = map_find (m_break p)"

definition watch_at :: "'x::len word points \<Rightarrow> 'x word \<Rightarrow> point option" where
  "watch_at p = map_find (m_watch p)"

text \<open>The access to data that a watchpoint waits for.\<close>

fun watches :: "PointType \<Rightarrow> 'x retired_lsu \<Rightarrow> bool" where
  "watches watch l = (lsu_wdt l \<noteq> [])"
| "watches rwatch l = (lsu_rdt l \<noteq> [])"
| "watches awatch l = True"
| "watches _ l = False"

text \<open>The points that an instruction hits.\<close>

definition hit_break :: "('x::len word, 'f, 'v) retired \<Rightarrow> 'x word points \<Rightarrow> point \<Rightarrow> bool" where
  "hit_break ret p b \<longleftrightarrow> break_at p (ifu_adr (ifu ret)) = Some b \<and> ptype b = hwbreak"

definition hit_watch :: "('x::len word, 'f, 'v) retired \<Rightarrow> 'x word points \<Rightarrow> point \<Rightarrow> bool" where
  "hit_watch ret p w \<longleftrightarrow> watch_at p (lsu_adr (lsu ret)) = Some w \<and> watches (ptype w) (lsu ret)"

lemma watches_iff:
  "watches t l \<longleftrightarrow> (t = watch \<and> 0 < length (lsu_wdt l)) \<or> (t = rwatch \<and> 0 < length (lsu_rdt l)) \<or> t = awatch"
  by (cases t) auto

lemma is_watch_not_break: "is_watch t \<Longrightarrow> \<not> is_break t"
  by (cases t) auto

lemma points_insert_cases:
  assumes "points_insert t a k p = Val (n, p')"
  obtains (break) "is_break t" "p' = p\<lparr>m_break := map_set a \<lparr>ptype = t, pkind = k\<rparr> (m_break p)\<rparr>"
      "n = int_of_size (map_size (m_break p'))"
    | (watch) "is_watch t" "p' = p\<lparr>m_watch := map_set a \<lparr>ptype = t, pkind = k\<rparr> (m_watch p)\<rparr>"
      "n = int_of_size (map_size (m_watch p'))"
  using assms by (auto simp: points_insert_def Let_def split: if_splits)

lemma points_remove_cases:
  assumes "points_remove t a k p = Val (n, p')"
  obtains (break) "is_break t" "p' = p\<lparr>m_break := map_erase a (m_break p)\<rparr>"
      "n = int_of_size (map_size (m_break p'))"
    | (watch) "is_watch t" "p' = p\<lparr>m_watch := map_erase a (m_watch p)\<rparr>"
      "n = int_of_size (map_size (m_watch p'))"
  using assms by (auto simp: points_remove_def Let_def split: if_splits)

lemma points_insert_inv: "points_inv p \<Longrightarrow> points_insert t a k p = Val (n, p') \<Longrightarrow> points_inv p'"
  by (erule points_insert_cases) (auto simp: points_inv_def smap.inv_put smap.find_put)

lemma points_remove_inv: "points_inv p \<Longrightarrow> points_remove t a k p = Val (n, p') \<Longrightarrow> points_inv p'"
  by (erule points_remove_cases) (auto simp: points_inv_def smap.inv_erase smap.find_erase split: if_splits)

lemma match_watch_inv: "points_inv p \<Longrightarrow> match_watch ret p = Val (b, p') \<Longrightarrow> points_inv p'"
  by (auto simp: match_watch_def points_inv_def Let_def split: option.splits if_splits)

lemma points_match_inv: "points_inv p \<Longrightarrow> points_match ret p = Val (b, p') \<Longrightarrow> points_inv p'"
  using match_watch_inv [of p ret b p']
  by (auto simp: points_match_def Let_def split: option.splits if_splits) (auto simp: points_inv_def)

section \<open>Properties\<close>

text \<open>
  Every operation on the table keeps it well-formed: keys stay unique, the break table
  holds breakpoints only and the watch table watchpoints only.
\<close>

theorem points_operations_keep_inv:
  assumes "points_inv p"
  shows "(points_insert t a k p = Val (n, p1) \<longrightarrow> points_inv p1) \<and>
    (points_remove t a k p = Val (m, p2) \<longrightarrow> points_inv p2) \<and>
    (points_match ret p = Val (b, p3) \<longrightarrow> points_inv p3)"
  using assms points_insert_inv points_remove_inv points_match_inv by blast

text \<open>
  \<open>match\<close> decides the abstract stop condition.  An illegal instruction stops with \<open>SIGILL\<close>;
  otherwise a hardware breakpoint at the instruction's address, and failing that a watchpoint at the
  data address whose kind of access took place, stops with \<open>SIGTRAP\<close> and is recorded as the reason.
  Where none of these applies control flows off the end of the function, so \<open>false\<close> is never
  returned.
\<close>

theorem points_match_decides_stop:
  "(ifu_ill (ifu ret) \<longrightarrow> points_match ret p = Val (True, p\<lparr>m_signal := SIGILL\<rparr>)) \<and>
   (\<not> ifu_ill (ifu ret) \<longrightarrow> hit_break ret p b \<longrightarrow>
      points_match ret p = Val (True, p\<lparr>m_signal := SIGTRAP, m_reason := b\<rparr>)) \<and>
   (\<not> ifu_ill (ifu ret) \<longrightarrow> (\<nexists>b. hit_break ret p b) \<longrightarrow> hit_watch ret p w \<longrightarrow>
      points_match ret p = Val (True, p\<lparr>m_signal := SIGTRAP, m_reason := w\<rparr>)) \<and>
   (\<not> ifu_ill (ifu ret) \<longrightarrow> (\<nexists>b. hit_break ret p b) \<longrightarrow> (\<nexists>w. hit_watch ret p w) \<longrightarrow>
      points_match ret p = Fail (Undefined NoReturn))"
  by (auto simp: points_match_def match_watch_def hit_break_def hit_watch_def break_at_def watch_at_def
      watches_iff Let_def split: option.split)

text \<open>
  Inserting a point and removing it at the same address and type leaves every address as
  if the insertion had not replaced anything: the address has no point of that table any more, all
  other addresses keep theirs, and the number that \<open>remove\<close> returns is the number of the others.
\<close>

theorem points_insert_remove:
  assumes "points_inv p" and "is_break t \<or> is_watch t"
  shows "\<exists>n p1 m p2. points_insert t a k p = Val (n, p1) \<and> points_remove t a k' p1 = Val (m, p2) \<and>
    break_at p2 = (if is_break t then (break_at p)(a := None) else break_at p) \<and>
    watch_at p2 = (if is_break t then watch_at p else (watch_at p)(a := None)) \<and>
    m = int_of_size (card (dom (if is_break t then break_at p else watch_at p) - {a}))"
proof (cases "is_break t")
  case True
  have inv: "map_inv (m_break p)"
    using assms(1) by (simp add: points_inv_def)
  define q where "q = map_erase a (map_set a \<lparr>ptype = t, pkind = k\<rparr> (m_break p))"
  have q: "map_find q = (map_find (m_break p))(a := None)" "map_inv q"
    using inv by (auto simp: q_def smap.find_erase smap.find_put smap.inv_put smap.inv_erase)
  have "map_size q = card (dom (break_at p) - {a})"
    using smap.size_card [OF q(2)] by (simp add: q(1) break_at_def)
  with True q show ?thesis
    by (simp add: points_insert_def points_remove_def Let_def break_at_def watch_at_def flip: q_def)
next
  case False
  then have w: "is_watch t"
    using assms(2) by simp
  have inv: "map_inv (m_watch p)"
    using assms(1) by (simp add: points_inv_def)
  define q where "q = map_erase a (map_set a \<lparr>ptype = t, pkind = k\<rparr> (m_watch p))"
  have q: "map_find q = (map_find (m_watch p))(a := None)" "map_inv q"
    using inv by (auto simp: q_def smap.find_erase smap.find_put smap.inv_put smap.inv_erase)
  have "map_size q = card (dom (watch_at p) - {a})"
    using smap.size_card [OF q(2)] by (simp add: q(1) watch_at_def)
  with False w q show ?thesis
    by (simp add: points_insert_def points_remove_def Let_def break_at_def watch_at_def flip: q_def)
qed

text \<open>
  A hardware breakpoint that was inserted stops the legal instruction at its address with
  \<open>SIGTRAP\<close> and the point as the reason; a software breakpoint at the same address stops nothing that a
  watchpoint does not stop.
\<close>

theorem inserted_breakpoint_matches:
  assumes "points_inv p" and "\<not> ifu_ill (ifu ret)" and "ifu_adr (ifu ret) = a"
  shows "\<exists>n p1. points_insert hwbreak a k p = Val (n, p1) \<and>
      points_match ret p1 = Val (True, p1\<lparr>m_signal := SIGTRAP, m_reason := \<lparr>ptype = hwbreak, pkind = k\<rparr>\<rparr>) \<and>
      (\<exists>m p2. points_insert swbreak a k p = Val (m, p2) \<and> points_match ret p2 = match_watch ret p2)"
proof -
  have "map_inv (m_break p)"
    using assms(1) by (simp add: points_inv_def)
  then show ?thesis
    using assms(2,3) by (simp add: points_insert_def points_match_def Let_def smap.find_put)
qed

section \<open>Instances\<close>

definition no_points :: "32 word points" where
  "no_points = \<lparr>m_break = [], m_watch = [], m_signal = SIGTRAP, m_reason = \<lparr>ptype = swbreak, pkind = 0\<rparr>\<rparr>"

definition demo_retired :: "(32 word, 32 word, 32 word) retired" where
  "demo_retired = \<lparr>ifu = \<lparr>ifu_adr = 0x80000010, ifu_pcn = 0x80000014, ifu_rdt = [0x23, 0, 0, 0], ifu_ill = False\<rparr>,
     gpr = \<lparr>gpr_idx = 0, gpr_rdt = [], gpr_wdt = []\<rparr>, fpr = \<lparr>fpr_idx = 0, fpr_rdt = 0, fpr_wdt = 0\<rparr>,
     vec = \<lparr>vec_idx = 0, vec_rdt = 0, vec_wdt = 0\<rparr>, csr = \<lparr>csr_idx = 0, csr_rdt = 0, csr_wdt = 0\<rparr>,
     lsu = \<lparr>lsu_adr = 0x80000100, lsu_rdt = [], lsu_wdt = [1, 2, 3, 4]\<rparr>\<rparr>"

lemma no_points_inv: "points_inv no_points"
  by (simp add: points_inv_def no_points_def map_find_def)

theorem points_operations_keep_inv_witness:
  "\<exists>n p1. points_insert hwbreak 0x80000010 4 no_points = Val (n, p1) \<and> points_inv p1"
proof -
  obtain n p where "points_insert hwbreak 0x80000010 4 no_points = Val (n, p)"
    by (simp add: points_insert_def Let_def)
  then show ?thesis
    using points_operations_keep_inv [OF no_points_inv, of hwbreak "0x80000010" 4 n p] by blast
qed

theorem points_match_decides_stop_witness:
  "points_match demo_retired (no_points\<lparr>m_watch := [(0x80000100, \<lparr>ptype = watch, pkind = 4\<rparr>)]\<rparr>) =
    Val (True, no_points\<lparr>m_watch := [(0x80000100, \<lparr>ptype = watch, pkind = 4\<rparr>)], m_signal := SIGTRAP,
      m_reason := \<lparr>ptype = watch, pkind = 4\<rparr>\<rparr>)"
  using points_match_decides_stop [of demo_retired "no_points\<lparr>m_watch := [(0x80000100, \<lparr>ptype = watch, pkind = 4\<rparr>)]\<rparr>"
      "\<lparr>ptype = hwbreak, pkind = 0\<rparr>" "\<lparr>ptype = watch, pkind = 4\<rparr>"]
  by (simp add: demo_retired_def no_points_def hit_break_def hit_watch_def break_at_def watch_at_def map_find_def)

theorem points_insert_remove_witness:
  "\<exists>n p1 m p2. points_insert watch 0x80000100 4 no_points = Val (n, p1) \<and>
    points_remove watch 0x80000100 4 p1 = Val (m, p2) \<and> watch_at p2 = (watch_at no_points)(0x80000100 := None)"
  using points_insert_remove [OF no_points_inv, of watch "0x80000100" 4 4] by auto

theorem inserted_breakpoint_matches_witness:
  "\<exists>n p1. points_insert hwbreak 0x80000010 4 no_points = Val (n, p1) \<and>
    points_match demo_retired p1 = Val (True, p1\<lparr>m_signal := SIGTRAP, m_reason := \<lparr>ptype = hwbreak, pkind = 4\<rparr>\<rparr>)"
  using inserted_breakpoint_matches [OF no_points_inv, of demo_retired "0x80000010" 4]
  by (auto simp: demo_retired_def)

end
