(* ===== verification/Shadow_System.thy ===== *)
theory Shadow_System
  imports Registers MemoryMap Points
begin

text \<open>
  The shadow of one core and of the whole system (\<open>src/shadow/Core.hpp\<close>, \<open>src/shadow/System.hpp\<close>),
  and the configuration that the program instantiates (\<open>src/hdldb.hpp\<close>).  A core inherits from its
  registers, its memory map and its points; the record has one field for each base class.  The
  template parameters, the instruction set and the address maps, are the record \<open>config\<close>.
\<close>

record 'xlen core =
  core_regs :: "'xlen registers"
  core_mmap :: "'xlen memory_map"
  core_point :: "'xlen points"
  cnt :: nat

record ('xlen, 'flen, 'vlen) system =
  m_mmap :: "'xlen memory_map"
  m_core :: "'xlen core"
  m_point :: "'xlen points"
  time :: int
  position :: nat
  m_trace :: "('xlen, 'flen, 'vlen) retired list"

record 'xlen config =
  cfg_isa :: isa_riscv
  cfg_core :: "'xlen address_map"
  cfg_system :: "'xlen address_map"

section \<open>Construction and copying\<close>

definition points_new :: "'x::len word points" where
  "points_new = \<lparr>m_break = [], m_watch = [], m_signal = SIGTRAP, m_reason = \<lparr>ptype = swbreak, pkind = 0\<rparr>\<rparr>"

definition core_new :: "nat \<Rightarrow> nat \<Rightarrow> nat \<Rightarrow> 'x::len word config \<Rightarrow> store \<Rightarrow> 'x word core \<times> store" where
  "core_new xl fl vl cfg h =
     (let (r, h1) = registers_new xl fl vl (cfg_isa cfg) h;
          (m, h2) = memory_map_new (cfg_core cfg) h1
      in (\<lparr>core_regs = r, core_mmap = m, core_point = points_new, cnt = 0\<rparr>, h2))"

definition system_new :: "nat \<Rightarrow> nat \<Rightarrow> nat \<Rightarrow> 'x::len word config \<Rightarrow> store \<Rightarrow> ('x word, 'f, 'v) system \<times> store" where
  "system_new xl fl vl cfg h =
     (let (m, h1) = memory_map_new (cfg_system cfg) h;
          (c, h2) = core_new xl fl vl cfg h1
      in (\<lparr>m_mmap = m, m_core = c, m_point = points_new, time = 0, position = 0, m_trace = []\<rparr>, h2))"

definition core_copy :: "'x::len word core \<Rightarrow> store \<Rightarrow> 'x word core \<times> store" where
  "core_copy c h =
     (let (r, h1) = registers_copy (core_regs c) h;
          (m, h2) = memory_map_copy (core_mmap c) h1
      in (c\<lparr>core_regs := r, core_mmap := m\<rparr>, h2))"

definition system_copy :: "('x::len word, 'f, 'v) system \<Rightarrow> store \<Rightarrow> ('x word, 'f, 'v) system \<times> store" where
  "system_copy sys h =
     (let (m, h1) = memory_map_copy (m_mmap sys) h;
          (c, h2) = core_copy (m_core sys) h1
      in (sys\<lparr>m_mmap := m, m_core := c\<rparr>, h2))"

section \<open>Operations\<close>

text \<open>The thread is a parameter of every operation and none of them looks at it.\<close>

definition reg_readAll :: "('x::len word, 'f, 'v) system \<Rightarrow> ThreadId \<Rightarrow> store \<Rightarrow> span" where
  "reg_readAll sys threadId h = readAll (core_regs (m_core sys)) h"

definition reg_writeAll :: "('x::len word, 'f, 'v) system \<Rightarrow> ThreadId \<Rightarrow> byte list \<Rightarrow> store \<Rightarrow> store result" where
  "reg_writeAll sys threadId data h = writeAll (core_regs (m_core sys)) data h"

definition reg_readOne :: "'x word config \<Rightarrow> ('x::len word, 'f::len word, 'v::len word) system \<Rightarrow> ThreadId \<Rightarrow>
    32 word \<Rightarrow> store \<Rightarrow> byte_span result" where
  "reg_readOne cfg sys threadId index h =
     readOne (cfg_isa cfg) (core_regs (m_core sys)) TYPE('f) TYPE('v) index h"

definition reg_writeOne :: "('x::len word, 'f, 'v) system \<Rightarrow> ThreadId \<Rightarrow> 32 word \<Rightarrow> byte list \<Rightarrow> store \<Rightarrow> store result" where
  "reg_writeOne sys threadId index data h = writeOne (core_regs (m_core sys)) index data h"

definition system_mem_read :: "'x word config \<Rightarrow> ('x::len word, 'f, 'v) system \<Rightarrow> ThreadId \<Rightarrow> 'x word \<Rightarrow> nat \<Rightarrow> span result" where
  "system_mem_read cfg sys threadId addr n = mm_read (cfg_core cfg) (core_mmap (m_core sys)) addr n"

definition system_mem_write :: "'x word config \<Rightarrow> ('x::len word, 'f, 'v) system \<Rightarrow> ThreadId \<Rightarrow> 'x word \<Rightarrow> byte list \<Rightarrow>
    store \<Rightarrow> store result" where
  "system_mem_write cfg sys threadId addr data h = mm_write (cfg_core cfg) (core_mmap (m_core sys)) addr data h"

text \<open>The points of the system are placeholders: they change nothing.\<close>

definition pointInsert :: "ThreadId \<Rightarrow> PointType \<Rightarrow> 'x::len word \<Rightarrow> PointKind \<Rightarrow> ('x word, 'f, 'v) system \<Rightarrow>
    int \<times> ('x word, 'f, 'v) system" where
  "pointInsert threadId type addr kind sys = (0, sys)"

definition pointRemove :: "ThreadId \<Rightarrow> PointType \<Rightarrow> 'x::len word \<Rightarrow> PointKind \<Rightarrow> ('x word, 'f, 'v) system \<Rightarrow>
    int \<times> ('x word, 'f, 'v) system" where
  "pointRemove threadId type addr kind sys = (0, sys)"

definition pointMatch :: "ThreadId \<Rightarrow> ('x::len word, 'f, 'v) retired \<Rightarrow> ('x word, 'f, 'v) system \<Rightarrow>
    bool \<times> ('x word, 'f, 'v) system" where
  "pointMatch threadId ret sys = (False, sys)"

section \<open>The configuration of the program\<close>

definition IsaHdlDb :: isa_riscv where
  "IsaHdlDb = \<lparr>EXT = \<lparr>ext_E = False, ext_F = False, ext_V = False\<rparr>, CSR = replicate 4096 False\<rparr>"

definition AmapCoreHdlDb :: "32 word address_map" where
  "AmapCoreHdlDb = \<lparr>mem = [\<lparr>base = 0x80000000, bsize = 0x00010000\<rparr>],
     i_o = [\<lparr>base = 0x80010000, bsize = 0x00010000\<rparr>]\<rparr>"

definition AmapSystemHdlDb :: "32 word address_map" where
  "AmapSystemHdlDb = \<lparr>mem = [\<lparr>base = 0x80020000, bsize = 0x00010000\<rparr>],
     i_o = [\<lparr>base = 0x80030000, bsize = 0x00010000\<rparr>]\<rparr>"

definition ConfigHdlDb :: "32 word config" where
  "ConfigHdlDb = \<lparr>cfg_isa = IsaHdlDb, cfg_core = AmapCoreHdlDb, cfg_system = AmapSystemHdlDb\<rparr>"

section \<open>Well-formed shadows\<close>

text \<open>
  What every operation keeps: the arrays that the registers and the memory of the core live in exist
  and the spans lie inside them.
\<close>

definition system_inv :: "('x::len word, 'f, 'v) system \<Rightarrow> store \<Rightarrow> bool" where
  "system_inv sys h \<longleftrightarrow> m_all (core_regs (m_core sys)) < length h \<and>
     wf_span h (m_gpr (core_regs (m_core sys))) \<and> wf_span h (m_mem (core_mmap (m_core sys)))"

lemma system_inv_lengths:
  "length h' = length h \<Longrightarrow> (\<And>a. length (h' ! a) = length (h ! a)) \<Longrightarrow> system_inv sys h' = system_inv sys h"
  using wf_span_same_lengths [of h' h] by (simp add: system_inv_def)

lemma system_mem_write_inv:
  assumes "system_inv sys h" and "system_mem_write cfg sys t a bs h = Val h'"
  shows "system_inv sys h'"
proof -
  have "wf_span h (m_mem (core_mmap (m_core sys)))"
    using assms(1) by (simp add: system_inv_def)
  then have "length h' = length h \<and> (\<forall>a. length (h' ! a) = length (h ! a))"
    using assms(2) span_copy_lengths by (auto simp: system_mem_write_def mm_write_def)
  then show ?thesis
    using assms(1) system_inv_lengths [of h' h sys] by simp
qed

lemma reg_writeAll_inv:
  assumes "system_inv sys h" and "reg_writeAll sys t bs h = Val h'"
  shows "system_inv sys h'"
proof -
  let ?r = "core_regs (m_core sys)"
  have "wf_span h \<lparr>sp_arr = m_all ?r, sp_off = 0, sp_len = length (h ! m_all ?r)\<rparr>"
    using assms(1) by (simp add: system_inv_def wf_span_def)
  then have "length h' = length h \<and> (\<forall>a. length (h' ! a) = length (h ! a))"
    using assms(2) span_copy_lengths by (auto simp: reg_writeAll_def writeAll_def)
  then show ?thesis
    using assms(1) system_inv_lengths [of h' h sys] by simp
qed

text \<open>The lengths of the arrays stay the same under every write.\<close>

lemma system_new_inv: "system_new xl fl vl cfg h = (sys, h') \<Longrightarrow> system_inv sys h'"
  by (auto simp: system_new_def core_new_def registers_new_def memory_map_new_def system_inv_def
      wf_span_def sizeAll_def sizeGpr_def Let_def nth_append)

lemma system_copy_inv: "system_inv sys h \<Longrightarrow> system_copy sys h = (sys', h') \<Longrightarrow> system_inv sys' h'"
  by (auto simp: system_copy_def core_copy_def registers_copy_def memory_map_copy_def system_inv_def
      wf_span_def Let_def nth_append)

section \<open>Properties\<close>

text \<open>
  In the instantiated configuration the two memories and the two peripheral regions do not
  overlap, every block is aligned, no block wraps around the address space, and the image
  of the registers has 132 bytes: 32 registers and the program counter.
\<close>

theorem hdldb_configuration:
  "addressBlockAlignment (mem AmapCoreHdlDb @ i_o AmapCoreHdlDb @ mem AmapSystemHdlDb @ i_o AmapSystemHdlDb) \<and>
   list_all proper_block (mem AmapCoreHdlDb @ i_o AmapCoreHdlDb @ mem AmapSystemHdlDb @ i_o AmapSystemHdlDb) \<and>
   sorted_wrt (\<lambda>x y. unat (base x) + unat (bsize x) \<le> unat (base y))
     (mem AmapCoreHdlDb @ i_o AmapCoreHdlDb @ mem AmapSystemHdlDb @ i_o AmapSystemHdlDb) \<and>
   sizeAll 4 4 4 IsaHdlDb = 132"
  by (simp add: AmapCoreHdlDb_def AmapSystemHdlDb_def proper_block_def sizeAll_def sizeGpr_def sizePc_def
      sizeFpr_def sizeVec_def sizeCsr_def lenGpr_def lenPc_def lenFpr_def lenVec_def lenCsr_def IsaHdlDb_def
      count_list_0_iff)

end
