(* ===== verification/Protocol.thy ===== *)
theory Protocol
  imports Packet Shadow_System
begin

text \<open>
  The protocol layer (\<open>src/rsp/Protocol.hpp\<close>): the state of the server, the conversions between
  bytes and hexadecimal text, one handler for each kind of packet, the dispatcher \<open>parse\<close> and the
  main loop.  The class template is modelled at the types the program instantiates: 32-bit
  \<open>XLEN\<close> and the shadow \<open>System\<close> whose address map and instruction set are the parameter \<open>cfg\<close>.

  Two more things are parameters.  \<open>hash\<close> is \<open>std::hash<std::string_view>\<close>, a function that the
  language does not specify.  The members of \<open>m_state\<close> have no initial value in the source, so the
  constructor takes them as an argument.

  A variable that \<open>sscanf\<close> may leave without a value is an \<open>option\<close>; its use without a value is
  undefined behaviour.  The switches on \<open>sizeof(XLEN)*8\<close> have no \<open>break\<close>, so that at 32 bits both
  calls of \<open>sscanf\<close> run and the second decides.
\<close>

record state =
  enableErrorStrings :: bool
  startNoAckMode :: bool
  extendedMode :: bool
  dut_memory :: bool
  remote_log :: bool

type_synonym shadow = "(32 word, 32 word, 32 word) system"

record protocol = packet +
  m_state :: state
  m_features_server :: "(string, string) smap"
  m_features_client :: "(string, string) smap"
  m_operation :: "(char, ThreadId) smap"
  m_shadow :: shadow
  heap :: store

definition features_server :: "(string, string) smap" where
  "features_server = foldl (\<lambda>m kv. map_set (fst kv) (snd kv) m) []
     [(''swbreak'', ''+''), (''hwbreak'', ''+''), (''error-message'', ''+''), (''binary-upload'', ''-''),
      (''multiprocess'', ''-''), (''ReverseStep'', ''+''), (''ReverseContinue'', ''+''), (''QStartNoAckMode'', ''+'')]"

section \<open>Construction\<close>

text \<open>The members, initialised after the base class; the shadow is copied.\<close>

definition Protocol_members :: "state \<Rightarrow> shadow \<Rightarrow> (protocol, unit) prog" where
  "Protocol_members st shadow s =
     (let (sys, h) = system_copy shadow (heap s) in
      Some (Val (), s\<lparr>m_state := st, m_features_server := features_server, m_features_client := [],
        m_operation := [], m_shadow := sys, heap := h\<rparr>))"

definition Protocol_name :: "os_setup \<Rightarrow> string \<Rightarrow> state \<Rightarrow> shadow \<Rightarrow> (protocol, unit) prog" where
  "Protocol_name os name st shadow = seq (Socket_name os name) (Protocol_members st shadow)"

definition Protocol_port :: "os_setup \<Rightarrow> 16 word \<Rightarrow> state \<Rightarrow> shadow \<Rightarrow> (protocol, unit) prog" where
  "Protocol_port os port st shadow = seq (Socket_port os port) (Protocol_members st shadow)"

section \<open>Communication\<close>

definition protocol_rx :: "(protocol, view) prog" where
  "protocol_rx = bnd (gets m_state) (\<lambda>st. Packet.rx (\<not> startNoAckMode st))"

definition protocol_tx :: "string \<Rightarrow> (protocol, unit) prog" where
  "protocol_tx packet = bnd (gets m_state) (\<lambda>st. Packet.tx packet (\<not> startNoAckMode st))"

section \<open>Conversion\<close>

text \<open>The loops that would decode the digits are commented out in the source.\<close>

definition hex2bin :: "string \<Rightarrow> byte list" where
  "hex2bin hex = replicate (length hex div 2) 0"

definition hex2str :: "string \<Rightarrow> string" where
  "hex2str hex = replicate (length hex div 2) (CHR '' '')"

definition bin2hex :: "byte list \<Rightarrow> string" where
  "bin2hex bin = concat (map format_02x bin)"

definition str2hex :: "string \<Rightarrow> string" where
  "str2hex str = concat (map (\<lambda>c. format_02x (byte_of_char c)) str)"

section \<open>Local variables and members\<close>

definition use_value :: "'a option \<Rightarrow> (protocol, 'a) prog" where
  "use_value x = (case x of None \<Rightarrow> fails (Undefined Uninitialized) | Some v \<Rightarrow> returns v)"

definition scan_var :: "scanned list \<Rightarrow> nat \<Rightarrow> 32 word option \<Rightarrow> 32 word option" where
  "scan_var vs i old =
     (if i < length vs then (case vs ! i of HexV v \<Rightarrow> Some v | ChrV _ \<Rightarrow> old) else old)"

definition scan_int :: "scanned list \<Rightarrow> nat \<Rightarrow> int option" where
  "scan_int vs i = map_option sint (scan_var vs i None)"

text \<open>\<open>m_operation[c]\<close> and \<open>m_features_server[key][0]\<close>, which insert a missing key.\<close>

definition operation_at :: "char \<Rightarrow> (protocol, ThreadId) prog" where
  "operation_at c s =
     (let (t, m) = map_at \<lparr>pid = Some 0, tid = Some 0\<rparr> c (m_operation s)
      in Some (Val t, s\<lparr>m_operation := m\<rparr>))"

definition feature_char :: "string \<Rightarrow> (protocol, char) prog" where
  "feature_char key s =
     (let (v, m) = map_at [] key (m_features_server s)
      in Some (Val (case v of [] \<Rightarrow> nul | c # _ \<Rightarrow> c), s\<lparr>m_features_server := m\<rparr>))"

section \<open>Signals and errors\<close>

text \<open>\<open>{:02x}\<close> of an \<open>int\<close>.\<close>

definition format_int_02x :: "int \<Rightarrow> string" where
  "format_int_02x i = (let str = format_x i in if length str < 2 then CHR ''0'' # str else str)"

definition stop_reply :: "(protocol, unit) prog" where
  "stop_reply = bnd (gets m_shadow) (\<lambda>shadow.
     protocol_tx (CHR ''T'' # format_int_02x (m_signal (core_point (m_core shadow)))))"

definition signal :: "view \<Rightarrow> (protocol, unit) prog" where
  "signal packet = stop_reply"

definition error_number_reply :: "8 word \<Rightarrow> (protocol, unit) prog" where
  "error_number_reply value = protocol_tx (CHR ''E'' # format_02x value)"

section \<open>Threads\<close>

definition thread_format :: "ThreadId \<Rightarrow> (protocol, string) prog" where
  "thread_format threadId =
     bnd (feature_char ''multiprocess'') (\<lambda>c.
       if c = CHR ''+'' then
         bnd (use_value (pid threadId)) (\<lambda>p. bnd (use_value (tid threadId)) (\<lambda>t.
           returns (CHR ''p'' # format_x p @ CHR '','' # format_x t)))
       else if c = CHR ''-'' then
         bnd (use_value (tid threadId)) (\<lambda>t. returns (format_x t))
       else returns [])"

definition thread_scan :: "view \<Rightarrow> (protocol, ThreadId) prog" where
  "thread_scan str =
     bnd (feature_char ''multiprocess'') (\<lambda>c. returns (
       if c = CHR ''+'' then
         let vs = sscanf [Lit (CHR ''p''), Hex None, Lit (CHR '',''), Hex None, Lit (CHR '';'')] (c_str str)
         in \<lparr>pid = scan_int vs 0, tid = scan_int vs 1\<rparr>
       else if c = CHR ''-'' then
         \<lparr>pid = Some 1, tid = scan_int (sscanf [Hex None] (c_str str)) 0\<rparr>
       else \<lparr>pid = None, tid = None\<rparr>))"

definition thread :: "view \<Rightarrow> (protocol, unit) prog" where
  "thread packet =
     bnd (lifts (substr packet 2 (size_sub (length (chars packet)) 2))) (\<lambda>str.
     bnd (thread_scan str) (\<lambda>threadId.
     seq (modifies (\<lambda>s. s\<lparr>m_operation := map_set (chars packet ! 1) threadId (m_operation s)\<rparr>))
     (protocol_tx ''OK'')))"

section \<open>Queries\<close>

definition query_monitor_reply :: "string \<Rightarrow> (protocol, unit) prog" where
  "query_monitor_reply str = protocol_tx (str2hex str)"

definition help_text :: string where
  "help_text = ''HELP: Available monitor commands:'' @ newline @
     ''* 'set remote log on/off','' @ newline @
     ''* 'set waveform dump on/off','' @ newline @
     ''* 'set memory=dut/shadow' (reading memories from dut/shadow, default is shadow),'' @ newline @
     ''* 'reset assert' (assert reset for a few clock periods),'' @ newline @
     ''* 'reset release' (synchronously release reset).''"

text \<open>
  The cases of the switch: the literal whose \<open>lit2hash\<close> is the label, the change of the state and the
  answer.
\<close>

definition monitor_cases :: "(string \<times> (state \<Rightarrow> state) \<times> string) list" where
  "monitor_cases =
     [(''help'', id, help_text),
      (''set remote log on'', remote_log_update (\<lambda>_. True), ''Enabled remote logging to STDOUT.'' @ newline),
      (''set remote log off'', remote_log_update (\<lambda>_. False), ''Disabled remote logging.'' @ newline),
      (''set waveform dump on'', id, ''Enabled waveform dumping.'' @ newline),
      (''set waveform dump off'', id, ''Disabled waveform dumping.'' @ newline),
      (''set memory=dut'', dut_memory_update (\<lambda>_. True), ''Reading memory directly from DUT.'' @ newline),
      (''set memory=shadow'', dut_memory_update (\<lambda>_. False), ''Reading memory from shadow copy.'' @ newline),
      (''reset assert'', id, ''DUT reset asserted.'' @ newline),
      (''reset release'', id, ''DUT reset released.'' @ newline)]"

definition not_recognized :: string where
  "not_recognized = CHR 0x27 # ''monitor' command was not recognized.'' @ newline"

definition query_monitor :: "(string \<Rightarrow> nat) \<Rightarrow> string \<Rightarrow> (protocol, unit) prog" where
  "query_monitor hash str =
     (case find (\<lambda>mc. int (hash str) = lit2hash (fst mc)) monitor_cases of
        Some (lit, upd, reply) \<Rightarrow>
          seq (modifies (\<lambda>s. s\<lparr>m_state := upd (m_state s)\<rparr>)) (query_monitor_reply reply)
      | None \<Rightarrow> query_monitor_reply not_recognized)"

definition is_flag :: "char \<Rightarrow> bool" where
  "is_flag c \<longleftrightarrow> c = CHR ''+'' \<or> c = CHR ''-'' \<or> c = CHR ''?''"

text \<open>
  One feature of the client: \<open>name+\<close>, \<open>name-\<close> or \<open>name?\<close>, otherwise \<open>name=value\<close> where the
  stored value begins at the equals sign.
\<close>

definition client_feature :: "string \<Rightarrow> (string \<times> string) result" where
  "client_feature item =
     (if item = [] then Fail (Undefined OutOfBounds)
      else if is_flag (last item) then Val (butlast item, [last item])
      else if CHR ''='' \<in> set item then
        Val (takeWhile (\<lambda>c. c \<noteq> CHR ''='') item, dropWhile (\<lambda>c. c \<noteq> CHR ''='') item)
      else Fail (Thrown OutOfRange))"

fun scan_features :: "view list \<Rightarrow> (protocol, unit) prog" where
  "scan_features [] = returns ()"
| "scan_features (item # items) =
     bnd (lifts (client_feature (chars item))) (\<lambda>kv.
     seq (modifies (\<lambda>s. s\<lparr>m_features_client := map_set (fst kv) (snd kv) (m_features_client s)\<rparr>))
     (scan_features items))"

definition format_feature :: "string \<times> string \<Rightarrow> string" where
  "format_feature kv =
     (if is_flag (case snd kv of [] \<Rightarrow> nul | c # _ \<Rightarrow> c) then fst kv @ snd kv
      else fst kv @ CHR ''='' # snd kv)"

definition query_supported :: "view \<Rightarrow> (protocol, unit) prog" where
  "query_supported str =
     seq (scan_features (views_split (CHR '';'') str))
     (bnd (gets m_features_server) (\<lambda>features.
       protocol_tx (join_with (CHR '';'') (map format_feature features))))"

definition query :: "(string \<Rightarrow> nat) \<Rightarrow> view \<Rightarrow> (protocol, unit) prog" where
  "query hash packet =
     (let p = chars packet in
      if starts_with p ''qSupported:'' then
        bnd (lifts (substr packet (length ''qSupported:'') npos)) query_supported
      else if starts_with p ''qRcmd,'' then
        bnd (lifts (substr packet (length ''qRcmd,'') npos)) (\<lambda>v. query_monitor hash (hex2str (chars v)))
      else if p = ''QStartNoAckMode'' then
        seq (protocol_tx ''OK'')
          (modifies (\<lambda>s. s\<lparr>m_state := (m_state s)\<lparr>startNoAckMode := True\<rparr>\<rparr>))
      else if p = ''QEnableErrorStrings'' then
        seq (protocol_tx ''OK'')
          (modifies (\<lambda>s. s\<lparr>m_state := (m_state s)\<lparr>enableErrorStrings := True\<rparr>\<rparr>))
      else if p = ''qfThreadInfo'' then
        bnd (thread_format \<lparr>pid = Some 1, tid = Some 1\<rparr>) (\<lambda>t.
          protocol_tx (CHR ''m'' # join_with (CHR '';'') [t]))
      else if p = ''qsThreadInfo'' then protocol_tx ''l''
      else if starts_with p ''qThreadExtraInfo,'' then
        bnd (lifts (substr packet (length ''qThreadExtraInfo,'') npos)) (\<lambda>v.
        bnd (thread_scan v) (\<lambda>_. returns ()))
      else if p = ''qC'' then
        bnd (thread_format \<lparr>pid = Some 1, tid = Some 1\<rparr>) (\<lambda>t. protocol_tx (''QC'' @ t))
      else if p = ''qAttached'' then protocol_tx ''1''
      else protocol_tx [])"

section \<open>Verbose packets\<close>

fun scan_actions :: "view list \<Rightarrow> (protocol, unit) prog" where
  "scan_actions [] = returns ()"
| "scan_actions (item # items) =
     seq (check (chars item \<noteq> []) (Undefined OutOfBounds))
    (seq (if CHR '':'' \<in> set (chars item) then
            bnd (lifts (substr item 2 (size_sub (length (chars item)) 2))) (\<lambda>v.
            bnd (thread_scan v) (\<lambda>_. returns ()))
          else returns ())
    (scan_actions items))"

definition verbose :: "view \<Rightarrow> (protocol, unit) prog" where
  "verbose packet =
     (let p = chars packet in
      if p = ''vCtrlC'' then protocol_tx []
      else if p = ''vCont?'' then protocol_tx ''vCont;c;C;s;S''
      else if starts_with p ''vCont'' then
        bnd (lifts (substr packet (length ''vCont'') npos)) (\<lambda>str.
        seq (scan_actions (drop 1 (views_split (CHR '';'') str))) stop_reply)
      else protocol_tx [])"

section \<open>Memory\<close>

definition dut_mem_read :: "32 word \<Rightarrow> 32 word \<Rightarrow> byte list" where
  "dut_mem_read addr n = []"

definition shadow_read :: "32 word config \<Rightarrow> 32 word \<Rightarrow> 32 word \<Rightarrow> (protocol, byte list) prog" where
  "shadow_read cfg addr n =
     bnd (operation_at (CHR ''m'')) (\<lambda>t.
     bnd (gets (\<lambda>s. system_mem_read cfg (m_shadow s) t addr (unat n))) (\<lambda>r.
     bnd (lifts r) (\<lambda>data. gets (\<lambda>s. span_bytes (heap s) data))))"

definition range_format :: "char \<Rightarrow> nat \<Rightarrow> fmt list" where
  "range_format c w = [Lit c, Hex (Some w), Lit (CHR '',''), Hex (Some w)]"

definition mem_read :: "32 word config \<Rightarrow> view \<Rightarrow> (protocol, unit) prog" where
  "mem_read cfg packet =
     (let vs = sscanf (range_format (CHR ''m'') 8) (c_str packet);
          ws = sscanf (range_format (CHR ''m'') 16) (c_str packet)
      in bnd (use_value (scan_var ws 0 (scan_var vs 0 None))) (\<lambda>addr.
         bnd (use_value (scan_var ws 1 (scan_var vs 1 None))) (\<lambda>n.
         bnd (gets m_state) (\<lambda>st.
         bnd (if dut_memory st then returns (dut_mem_read addr n) else shadow_read cfg addr n) (\<lambda>data.
         protocol_tx (bin2hex data))))))"

definition write_store :: "(protocol \<Rightarrow> store result) \<Rightarrow> (protocol, unit) prog" where
  "write_store f = bnd (gets f) (\<lambda>r. bnd (lifts r) (\<lambda>h. modifies (\<lambda>s. s\<lparr>heap := h\<rparr>)))"

definition mem_write :: "32 word config \<Rightarrow> view \<Rightarrow> (protocol, unit) prog" where
  "mem_write cfg packet =
     (let vs = sscanf (range_format (CHR ''M'') 8 @ [Lit (CHR '':'')]) (c_str packet);
          ws = sscanf (range_format (CHR ''M'') 16 @ [Lit (CHR '':'')]) (c_str packet)
      in bnd (use_value (scan_var ws 1 (scan_var vs 1 None))) (\<lambda>len.
         bnd (lifts (substr packet (size_sub (length (chars packet)) (unat (2 * len))) (unat (2 * len)))) (\<lambda>hex.
         bnd (use_value (scan_var ws 0 (scan_var vs 0 None))) (\<lambda>adr.
         bnd (operation_at (CHR ''M'')) (\<lambda>t.
         seq (write_store (\<lambda>s. system_mem_write cfg (m_shadow s) t adr (hex2bin (chars hex)) (heap s)))
         (protocol_tx ''OK''))))))"

section \<open>Registers\<close>

definition reg_readall :: "view \<Rightarrow> (protocol, unit) prog" where
  "reg_readall packet =
     bnd (operation_at (CHR ''g'')) (\<lambda>t.
     bnd (gets (\<lambda>s. span_bytes (heap s) (reg_readAll (m_shadow s) t (heap s)))) (\<lambda>val.
     protocol_tx (bin2hex val)))"

definition reg_writeall :: "view \<Rightarrow> (protocol, unit) prog" where
  "reg_writeall packet =
     bnd (lifts (substr packet 1 (size_sub (length (chars packet)) 1))) (\<lambda>hex.
     bnd (operation_at (CHR ''G'')) (\<lambda>t.
     seq (write_store (\<lambda>s. reg_writeAll (m_shadow s) t (hex2bin (chars hex)) (heap s)))
     (protocol_tx ''OK'')))"

text \<open>
  The view \<open>response\<close> refers to a temporary that is gone when it is sent; sending it reads nothing
  exactly when it is empty.
\<close>

definition read_span :: "byte_span \<Rightarrow> (protocol, byte list) prog" where
  "read_span sp = (case sp of
      InStore x \<Rightarrow> gets (\<lambda>s. span_bytes (heap s) x)
    | WildSpan p n \<Rightarrow> if n = 0 then returns [] else fails (Undefined WildPointer)
    | EmptySpan \<Rightarrow> returns [])"

definition reg_readone :: "32 word config \<Rightarrow> view \<Rightarrow> (protocol, unit) prog" where
  "reg_readone cfg packet =
     (let vs = sscanf [Lit (CHR ''p''), Hex None] (c_str packet) in
      bnd (use_value (scan_var vs 0 None)) (\<lambda>idx.
      bnd (operation_at (CHR ''p'')) (\<lambda>t.
      bnd (gets (\<lambda>s. reg_readOne cfg (m_shadow s) t idx (heap s))) (\<lambda>r.
      bnd (lifts r) (\<lambda>sp.
      bnd (read_span sp) (\<lambda>val.
      seq (check (bin2hex val = []) (Undefined Dangling))
      (protocol_tx (bin2hex val))))))))"

definition reg_writeone :: "view \<Rightarrow> (protocol, unit) prog" where
  "reg_writeone packet =
     (let vs = sscanf [Lit (CHR ''P''), Hex None, Lit (CHR ''='')] (c_str packet) in
      bnd (lifts (substr packet (size_sub (length (chars packet)) 4) 4)) (\<lambda>hex.
      bnd (use_value (scan_var vs 0 None)) (\<lambda>idx.
      bnd (operation_at (CHR ''P'')) (\<lambda>t.
      seq (write_store (\<lambda>s. reg_writeOne (m_shadow s) t idx (hex2bin (chars hex)) (heap s)))
      (protocol_tx ''OK'')))))"

section \<open>Running\<close>

definition run_step :: "view \<Rightarrow> (protocol, unit) prog" where
  "run_step packet = returns ()"

definition run_continue :: "view \<Rightarrow> (protocol, unit) prog" where
  "run_continue packet = returns ()"

definition run_backward :: "view \<Rightarrow> (protocol, unit) prog" where
  "run_backward packet = returns ()"

section \<open>Breakpoints and watchpoints\<close>

definition point_format :: "nat \<Rightarrow> fmt list" where
  "point_format w = [Chr, Hex None, Lit (CHR '',''), Hex (Some w), Lit (CHR '',''), Hex None]"

text \<open>The cases of the switch on the command have no \<open>break\<close>: a removal runs into the insertion.\<close>

definition point_remove_insert :: "char \<Rightarrow> PointType \<Rightarrow> 32 word option \<Rightarrow> PointKind option \<Rightarrow> (protocol, unit) prog" where
  "point_remove_insert command type addr kind =
     (let call = (\<lambda>f. bnd (operation_at command) (\<lambda>t. bnd (use_value addr) (\<lambda>a. bnd (use_value kind) (\<lambda>k.
            modifies (\<lambda>s. s\<lparr>m_shadow := snd (f t type a k (m_shadow s))\<rparr>)))))
      in if command = CHR ''z'' then seq (call pointRemove) (call pointInsert)
         else if command = CHR ''Z'' then call pointInsert
         else returns ())"

definition point_packet :: "view \<Rightarrow> (protocol, unit) prog" where
  "point_packet packet =
     (let vs = sscanf (point_format 8) (c_str packet);
          ws = sscanf (point_format 16) (c_str packet)
      in bnd (use_value (scan_var ws 1 (scan_var vs 1 None))) (\<lambda>type_tmp.
         bnd (use_value (case ws of ChrV c # _ \<Rightarrow> Some c | _ \<Rightarrow> None)) (\<lambda>command.
         seq (point_remove_insert command (PointType_of (sint type_tmp))
                (scan_var ws 2 (scan_var vs 2 None)) (scan_var ws 3 (scan_var vs 3 None)))
         (protocol_tx ''OK''))))"

section \<open>Session\<close>

definition extended :: "(protocol, unit) prog" where
  "extended =
     seq (modifies (\<lambda>s. s\<lparr>m_state := (m_state s)\<lparr>extendedMode := True\<rparr>\<rparr>)) (protocol_tx ''OK'')"

definition reset :: "(protocol, unit) prog" where
  "reset = returns ()"

definition detach :: "(protocol, unit) prog" where
  "detach =
     seq (protocol_tx ''OK'')
    (seq (print ''GDB: continuing stopped HDL simulation, waiting for GDB to reconnect.'')
    accept)"

definition kill :: "(protocol, unit) prog" where
  "kill = fails (Exited 0)"

section \<open>Dispatch\<close>

definition parse :: "32 word config \<Rightarrow> (string \<Rightarrow> nat) \<Rightarrow> view \<Rightarrow> (protocol, unit) prog" where
  "parse cfg hash packet =
     (case chars packet of
        [] \<Rightarrow> fails (Undefined OutOfBounds)
      | c # _ \<Rightarrow>
          if c = CHR ''m'' then mem_read cfg packet
          else if c = CHR ''M'' then mem_write cfg packet
          else if c = CHR ''g'' then reg_readall packet
          else if c = CHR ''G'' then reg_writeall packet
          else if c = CHR ''p'' then reg_readone cfg packet
          else if c = CHR ''P'' then reg_writeone packet
          else if c = CHR ''H'' then thread packet
          else if c = CHR ''?'' then signal packet
          else if c = CHR ''s'' \<or> c = CHR ''S'' then run_step packet
          else if c = CHR ''c'' \<or> c = CHR ''C'' then run_continue packet
          else if c = CHR ''b'' then run_backward packet
          else if c = CHR ''Q'' \<or> c = CHR ''q'' then query hash packet
          else if c = CHR ''v'' then verbose packet
          else if c = CHR ''z'' \<or> c = CHR ''Z'' then point_packet packet
          else if c = CHR ''!'' then extended
          else if c = CHR ''R'' then reset
          else if c = CHR ''D'' then detach
          else if c = CHR ''k'' then kill
          else protocol_tx [])"

text \<open>
  One round of the main loop.  \<open>tmp_char\<close> keeps its value when \<open>recv\<close> brings nothing.
\<close>

definition loop_body :: "32 word config \<Rightarrow> (string \<Rightarrow> nat) \<Rightarrow> char \<Rightarrow> (protocol, char) prog" where
  "loop_body cfg hash tmp_char =
     bnd (recv 1 True) (\<lambda>d.
     let c = (case d of [] \<Rightarrow> tmp_char | x # _ \<Rightarrow> x) in
       if c = CHR ''+'' then bnd (recv 1 False) (\<lambda>e. returns (case e of [] \<Rightarrow> c | x # _ \<Rightarrow> x))
       else bnd protocol_rx (\<lambda>packet. seq (parse cfg hash packet) (returns c)))"

partial_function (option) run_loop ::
  "32 word config \<Rightarrow> (string \<Rightarrow> nat) \<Rightarrow> char \<Rightarrow> protocol \<Rightarrow> (unit result \<times> protocol) option"
where
  "run_loop cfg hash tmp_char s = bnd (loop_body cfg hash tmp_char) (\<lambda>c s1. run_loop cfg hash c s1) s"

definition loop :: "32 word config \<Rightarrow> (string \<Rightarrow> nat) \<Rightarrow> (protocol, unit) prog" where
  "loop cfg hash = seq (print (''Hello from HDLDB!'' @ newline)) (run_loop cfg hash nul)"

end
