(* ===== verification/Replies.thy ===== *)
theory Replies
  imports Protocol
begin

text \<open>
  What the packet handlers of \<open>src/rsp/Protocol.hpp\<close> do, handler by handler, when the client takes
  the replies: which packet is sent, what changes in the server, and on which packets a handler
  throws or leaves defined behaviour.
\<close>

named_theorems reply_simps \<open>definitions that evaluate a handler up to its reply\<close>

section \<open>Sending a reply\<close>

text \<open>
  The client takes one reply: the socket accepts data, and with acknowledgements on the next byte
  that arrives is not a minus sign.
\<close>

definition client_ready :: "protocol \<Rightarrow> bool" where
  "client_ready s \<longleftrightarrow> tx_ready s \<and>
     (startNoAckMode (m_state s) \<or> (\<exists>a c q. rxq s = Chunk (a # c) # q \<and> [a] \<noteq> NACK))"

definition after_ack :: "protocol \<Rightarrow> rx_event list" where
  "after_ack s = (if startNoAckMode (m_state s) then rxq s
     else case rxq s of Chunk (a # c) # q \<Rightarrow> (if c = [] then q else Chunk c # q) | q \<Rightarrow> q)"

text \<open>\<open>s'\<close> is \<open>s\<close> after the payload \<open>p\<close> was sent and acknowledged; no other member changed.\<close>

definition replied :: "string \<Rightarrow> protocol \<Rightarrow> protocol \<Rightarrow> bool" where
  "replied p s s' \<longleftrightarrow> sent s' = sent s @ format_packet p \<and> rxq s' = after_ack s \<and> tx_ready s' \<and>
     m_buffer s' = m_buffer s \<and> clients s' = clients s \<and> packet.more s' = packet.more s"

lemma more_members:
  assumes "packet.more s' = packet.more (s :: protocol)"
  shows "m_state s' = m_state s" "m_features_server s' = m_features_server s"
    "m_features_client s' = m_features_client s" "m_operation s' = m_operation s"
    "m_shadow s' = m_shadow s" "heap s' = heap s"
  using assms by (cases s; cases s'; simp)+

lemma replied_members:
  assumes "replied p s s'"
  shows "m_state s' = m_state s" "m_features_server s' = m_features_server s"
    "m_features_client s' = m_features_client s" "m_operation s' = m_operation s"
    "m_shadow s' = m_shadow s" "heap s' = heap s" "m_buffer s' = m_buffer s"
    "sent s' = sent s @ format_packet p" "rxq s' = after_ack s" "tx_ready s'"
  using assms more_members [of s' s] by (simp_all add: replied_def)

lemma tx_ready_members [simp]:
  fixes s :: protocol
  shows "tx_ready (s\<lparr>m_operation := o'\<rparr>) = tx_ready s" "tx_ready (s\<lparr>heap := h\<rparr>) = tx_ready s"
    "tx_ready (s\<lparr>m_state := st\<rparr>) = tx_ready s" "tx_ready (s\<lparr>m_features_client := f\<rparr>) = tx_ready s"
    "tx_ready (s\<lparr>m_features_server := f\<rparr>) = tx_ready s" "tx_ready (s\<lparr>m_shadow := sh\<rparr>) = tx_ready s"
  by (simp_all add: tx_ready_def)

lemma client_ready_members [simp]:
  "client_ready (s\<lparr>m_operation := o'\<rparr>) = client_ready s" "client_ready (s\<lparr>heap := h\<rparr>) = client_ready s"
  "client_ready (s\<lparr>m_features_client := f\<rparr>) = client_ready s" "client_ready (s\<lparr>m_shadow := sh\<rparr>) = client_ready s"
  "client_ready (s\<lparr>m_features_server := f\<rparr>) = client_ready s"
  by (simp_all add: client_ready_def)

lemma client_ready_state:
  "startNoAckMode st = startNoAckMode (m_state s) \<Longrightarrow> client_ready (s\<lparr>m_state := st\<rparr>) = client_ready s"
  by (simp add: client_ready_def)

lemma protocol_tx_ready:
  assumes "client_ready s"
  shows "\<exists>s'. protocol_tx p s = Some (Val (), s') \<and> replied p s s'"
proof -
  let ?ack = "\<not> startNoAckMode (m_state s)"
  have ready: "tx_ready s"
    using assms by (simp add: client_ready_def)
  obtain t where t: "Packet.tx p ?ack s = (if ?ack then
      bnd (recv 1 False) (\<lambda>a.
         if a = [] then fails (Undefined Uninitialized)
         else if a = NACK then fails (Thrown (RuntimeError ''Received NACK.''))
         else returns ()) else returns ())
     (s\<lparr>cout := cout s @ ''REMOTE: -> '' @ p @ newline, sent := sent s @ format_packet p, txq := t\<rparr>)"
     "tx_ready (s\<lparr>txq := t\<rparr>)"
    using tx_packet [OF ready] by blast
  have tx: "protocol_tx p s = Packet.tx p ?ack s"
    by (simp add: protocol_tx_def)
  have r: "tx_ready s' = tx_ready (s\<lparr>txq := t\<rparr>)" if "txq s' = t" for s' :: protocol
    using that by (simp add: tx_ready_def)
  show ?thesis
  proof (cases "startNoAckMode (m_state s)")
    case True
    define x where "x = s\<lparr>cout := cout s @ ''REMOTE: -> '' @ p @ newline, sent := sent s @ format_packet p, txq := t\<rparr>"
    have "protocol_tx p s = Some (Val (), x)"
      using True unfolding tx t(1) by (simp add: x_def)
    moreover have "replied p s x"
      using True r [of x] t(2) by (simp add: replied_def after_ack_def x_def)
    ultimately show ?thesis by blast
  next
    case False
    then obtain a c q where q: "rxq s = Chunk (a # c) # q" "[a] \<noteq> NACK"
      using assms by (auto simp: client_ready_def)
    define x where "x = s\<lparr>cout := cout s @ ''REMOTE: -> '' @ p @ newline, sent := sent s @ format_packet p, txq := t\<rparr>"
    have "recv 1 False x = Some (Val [a], x\<lparr>rxq := after_ack s\<rparr>)"
      using q False by (simp add: recv_def x_def after_ack_def)
    then have "protocol_tx p s = Some (Val (), x\<lparr>rxq := after_ack s\<rparr>)"
      using False q(2) unfolding tx t(1) x_def [symmetric] by simp
    moreover have "replied p s (x\<lparr>rxq := after_ack s\<rparr>)"
      using r [of "x\<lparr>rxq := after_ack s\<rparr>"] t(2) by (simp add: replied_def x_def)
    ultimately show ?thesis by blast
  qed
qed

lemma seq_replies:
  assumes "m s = Some (Val a, s1)" and "client_ready s1"
  shows "\<exists>s'. seq m (protocol_tx p) s = Some (Val (), s') \<and> replied p s1 s'"
  using assms protocol_tx_ready by simp

section \<open>Members that are read through a dictionary\<close>

definition thread_at :: "char \<Rightarrow> protocol \<Rightarrow> ThreadId" where
  "thread_at c s = fst (map_at \<lparr>pid = Some 0, tid = Some 0\<rparr> c (m_operation s))"

definition touched :: "char \<Rightarrow> protocol \<Rightarrow> protocol" where
  "touched c s = s\<lparr>m_operation := snd (map_at \<lparr>pid = Some 0, tid = Some 0\<rparr> c (m_operation s))\<rparr>"

lemma operation_at_apply [simp]: "operation_at c s = Some (Val (thread_at c s), touched c s)"
  by (simp add: operation_at_def thread_at_def touched_def split_beta Let_def)

lemma touched_simps [simp]:
  "m_state (touched c s) = m_state s" "m_shadow (touched c s) = m_shadow s" "heap (touched c s) = heap s"
  "m_features_server (touched c s) = m_features_server s" "m_features_client (touched c s) = m_features_client s"
  "sent (touched c s) = sent s" "rxq (touched c s) = rxq s" "m_buffer (touched c s) = m_buffer s"
  "client_ready (touched c s) = client_ready s" "after_ack (touched c s) = after_ack s"
  "tx_ready (touched c s) = tx_ready s"
  by (simp_all add: touched_def after_ack_def)

text \<open>The server never changes its features, so threads are plain numbers.\<close>

definition single_process :: "protocol \<Rightarrow> bool" where
  "single_process s \<longleftrightarrow> map_find (m_features_server s) ''multiprocess'' = Some ''-''"

lemma single_process_cong: "m_features_server s' = m_features_server s \<Longrightarrow> single_process s' = single_process s"
  by (simp add: single_process_def)

lemma feature_char_apply [simp]:
  "single_process s \<Longrightarrow> feature_char ''multiprocess'' s = Some (Val (CHR ''-''), s)"
  by (simp add: feature_char_def single_process_def map_at_def)

lemma thread_scan_apply [simp]:
  "single_process s \<Longrightarrow> thread_scan str s =
    Some (Val \<lparr>pid = Some 1, tid = scan_int (sscanf [Hex None] (c_str str)) 0\<rparr>, s)"
  by (simp add: thread_scan_def)

lemma thread_format_apply [simp]:
  "single_process s \<Longrightarrow> thread_format \<lparr>pid = Some p, tid = Some t\<rparr> s = Some (Val (format_x t), s)"
  by (simp add: thread_format_def use_value_def)

lemma use_value_Some [simp]: "use_value (Some v) = returns v"
  by (simp add: use_value_def)

lemma use_value_None [simp]: "use_value None = fails (Undefined Uninitialized)"
  by (simp add: use_value_def)

section \<open>Scanning packets\<close>

text \<open>
  A packet as \<open>rx\<close> returns it: its payload, followed in the buffer by the number sign.
\<close>

definition payload :: "string \<Rightarrow> view \<Rightarrow> bool" where
  "payload p v \<longleftrightarrow> chars v = p \<and> (\<exists>r. beyond v = CHR ''#'' # r) \<and> nul \<notin> set p \<and>
     length p \<le> buffer_size"

lemma nul_neq [simp]: "CHR ''#'' \<noteq> nul" "CHR '','' \<noteq> nul" "CHR '':'' \<noteq> nul" "CHR ''='' \<noteq> nul"
  by (simp_all add: nul_def)

lemma payload_c_str:
  assumes "payload p v"
  obtains r where "c_str v = p @ CHR ''#'' # r"
proof -
  obtain r where v: "chars v = p" "beyond v = CHR ''#'' # r" "nul \<notin> set p"
    using assms by (auto simp: payload_def)
  then have "\<forall>c \<in> set p. c \<noteq> nul" by auto
  then have "c_str v = p @ CHR ''#'' # takeWhile (\<lambda>c. c \<noteq> nul) r"
    using v by (simp add: c_str_def takeWhile_append2)
  then show ?thesis by (rule that)
qed

text \<open>A number of up to 16 hexadecimal digits.\<close>

definition numeral16 :: "string \<Rightarrow> bool" where
  "numeral16 ds \<longleftrightarrow> list_all is_hex ds \<and> ds \<noteq> [] \<and> length ds \<le> 16"

definition word_of_hex :: "string \<Rightarrow> 32 word" where
  "word_of_hex ds = word_of_nat (hex_number ds)"

lemma scan_numeral16:
  "numeral16 ds \<Longrightarrow> ends_number r \<Longrightarrow> (case w of None \<Rightarrow> True | Some n \<Rightarrow> n = 16) \<Longrightarrow>
    scan_hex w (ds @ r) = Some (word_of_hex ds, r)"
  unfolding numeral16_def word_of_hex_def
  by (rule scan_hex_digits) (auto split: option.splits)

lemma ends_number_Cons [simp]:
  "ends_number (CHR ''#'' # r)" "ends_number (CHR '','' # r)" "ends_number (CHR '':'' # r)"
  "ends_number (CHR ''='' # r)"
  by (simp_all add: ends_number_def)

lemma scan_range:
  assumes "numeral16 da" and "numeral16 dn" and "ends_number r"
  shows "sscanf (range_format c 16 @ fs) (c # da @ CHR '','' # dn @ r) =
    HexV (word_of_hex da) # HexV (word_of_hex dn) # sscanf fs r"
  using assms by (simp add: range_format_def scan_numeral16)

lemma scan_var_Cons [simp]:
  "scan_var (HexV a # vs) 0 old = Some a" "scan_var (x # vs) (Suc i) old = scan_var vs i old"
  by (simp_all add: scan_var_def)


section \<open>Conversions\<close>

text \<open>The decoder that the client applies to hexadecimal data.\<close>

fun unhex :: "string \<Rightarrow> byte list option" where
  "unhex [] = Some []"
| "unhex [_] = None"
| "unhex (a # b # r) =
     (case (dec_02x [a, b], unhex r) of (Some x, Some xs) \<Rightarrow> Some (x # xs) | _ \<Rightarrow> None)"

lemma length_bin2hex: "length (bin2hex bs) = 2 * length bs"
  unfolding bin2hex_def by (rule hex02.enc_list_width)

lemma unhex_bin2hex: "unhex (bin2hex bs) = Some bs"
proof (induction bs)
  case Nil
  then show ?case by (simp add: bin2hex_def)
next
  case (Cons b bs)
  obtain x y where xy: "format_02x b = [x, y]"
    by (simp add: format_02x_def)
  have "dec_02x [x, y] = Some b"
    using hex02.dec_enc [of b] xy by simp
  then show ?case
    using Cons xy by (simp add: bin2hex_def)
qed

lemma str2hex_bin2hex: "str2hex str = bin2hex (map byte_of_char str)"
  by (simp add: str2hex_def bin2hex_def comp_def)

lemma bin2hex_zeros: "bin2hex (replicate n 0) = replicate (2 * n) (CHR ''0'')"
  by (induction n) (simp_all add: bin2hex_def format_02x_def hex_digit_def)

section \<open>Writing the store and cutting packets\<close>

lemma write_store_apply:
  "write_store f s = (case f s of Val h \<Rightarrow> Some (Val (), s\<lparr>heap := h\<rparr>) | Fail e \<Rightarrow> Some (Fail e, s))"
  by (simp add: write_store_def bnd_def split: result.split)

lemma payload_size_sub:
  assumes "payload p v" and "b \<le> 2 ^ 32"
  shows "size_sub (length p) b \<le> length p \<longleftrightarrow> b \<le> length p"
    "b \<le> length p \<Longrightarrow> size_sub (length p) b = length p - b"
proof -
  have len: "length p \<le> 512"
    using assms(1) by (simp add: payload_def buffer_size_def)
  show eq: "b \<le> length p \<Longrightarrow> size_sub (length p) b = length p - b"
    using len by (intro size_sub_le) simp_all
  show "size_sub (length p) b \<le> length p \<longleftrightarrow> b \<le> length p"
  proof (cases "b \<le> length p")
    case True
    with eq show ?thesis by simp
  next
    case False
    then have "2 ^ 63 \<le> size_sub (length p) b"
      using assms(2) by (intro size_sub_wrap) simp_all
    moreover have "length p < 2 ^ 63"
      using len by simp
    ultimately show ?thesis
      using False by linarith
  qed
qed

section \<open>A server to apply the theorems to\<close>

definition demo_config :: "32 word config" where
  "demo_config = \<lparr>cfg_isa = demo_isa, cfg_core = demo_map, cfg_system = demo_map\<rparr>"

definition demo_shadow :: "shadow \<times> store" where
  "demo_shadow = (case system_new 4 4 4 demo_config [] of (sys, h) \<Rightarrow> system_copy sys h)"

definition demo_state :: state where
  "demo_state = \<lparr>enableErrorStrings = False, startNoAckMode = False, extendedMode = False,
     dut_memory = False, remote_log = False\<rparr>"

text \<open>A server that is about to read the given events.\<close>

definition demo_server :: "rx_event list \<Rightarrow> protocol" where
  "demo_server q = \<lparr>rxq = q, txq = [Accept 2, Accept 1], clients = [], sent = [], cout = [],
     m_tcp = False, m_socketFd = 3, m_clientFd = 4, m_buffer = replicate 512 nul,
     m_state = demo_state, m_features_server = features_server, m_features_client = [], m_operation = [],
     m_shadow = fst demo_shadow, heap = snd demo_shadow\<rparr>"

definition demo_view :: "string \<Rightarrow> view" where
  "demo_view p = \<lparr>chars = p, beyond = ''#''\<rparr>"

lemma demo_payload: "list_all (\<lambda>c. c \<noteq> nul) p \<Longrightarrow> length p \<le> 512 \<Longrightarrow> payload p (demo_view p)"
  by (auto simp: payload_def demo_view_def buffer_size_def list_all_iff)

lemma demo_server_simps [simp]:
  "rxq (demo_server q) = q" "sent (demo_server q) = []" "m_state (demo_server q) = demo_state"
  "m_features_server (demo_server q) = features_server" "m_features_client (demo_server q) = []"
  "m_operation (demo_server q) = []" "m_shadow (demo_server q) = fst demo_shadow"
  "heap (demo_server q) = snd demo_shadow" "length (m_buffer (demo_server q)) = buffer_size"
  "tx_ready (demo_server q)" "dut_memory demo_state = False" "startNoAckMode demo_state = False"
  by (simp_all add: demo_server_def demo_state_def buffer_size_def tx_ready_def)

lemma demo_ready [simp]: "client_ready (demo_server (Chunk ''+'' # q))"
  by (simp add: client_ready_def NACK_def)

lemma demo_single_process [simp]: "single_process (demo_server q)"
  unfolding single_process_def demo_server_simps by code_simp

lemma demo_system_inv: "system_inv (fst demo_shadow) (snd demo_shadow)"
proof -
  obtain sys h where n: "system_new 4 4 4 demo_config [] = (sys :: shadow, h)" by fastforce
  obtain sys' h' where c: "system_copy sys h = (sys', h')" by fastforce
  show ?thesis
    using system_copy_inv [OF system_new_inv [OF n] c] n c by (simp add: demo_shadow_def)
qed

lemma demo_memory_span: "m_mem (core_mmap (m_core (fst demo_shadow))) = \<lparr>sp_arr = 2, sp_off = 0, sp_len = 16\<rparr>"
  by (simp add: demo_shadow_def system_new_def core_new_def registers_new_def memory_map_new_def Let_def
      system_copy_def core_copy_def registers_copy_def memory_map_copy_def demo_config_def demo_map_def demo_block_def)

lemma demo_covers_server:
  "covers (cfg_core demo_config) (demo_block 0) (core_mmap (m_core (fst demo_shadow)), snd demo_shadow)"
  using demo_system_inv
  by (simp add: covers_def system_inv_def demo_memory_span demo_config_def demo_map_def demo_block_def proper_block_def)

end
