(* ===== verification/Memory_Packets.thy ===== *)
theory Memory_Packets
  imports Replies
begin

text \<open>
  The packets \<open>m\<close> and \<open>M\<close>: reading and writing the memory of the shadow (\<open>mem_read\<close> and \<open>mem_write\<close> in
  \<open>src/rsp/Protocol.hpp\<close>, over \<open>src/shadow/System.hpp\<close> and \<open>src/shadow/MemoryMap.hpp\<close>).
\<close>

section \<open>The handlers as functions\<close>

abbreviation core_memory :: "protocol \<Rightarrow> 32 word memory_map" where
  "core_memory s \<equiv> core_mmap (m_core (m_shadow s))"

lemma shadow_read_apply:
  "shadow_read cfg addr n s =
    (case mm_rd (cfg_core cfg) (core_memory s, heap s) addr (unat n) of
       Val bs \<Rightarrow> Some (Val bs, touched (CHR ''m'') s) | Fail e \<Rightarrow> Some (Fail e, touched (CHR ''m'') s))"
  by (simp add: shadow_read_def mm_rd_def system_mem_read_def bnd_def split: result.split)

lemma mem_read_apply:
  assumes "payload (CHR ''m'' # da @ CHR '','' # dn) v" and "numeral16 da" and "numeral16 dn"
  shows "mem_read cfg v s =
    (if dut_memory (m_state s) then protocol_tx [] s
     else case mm_rd (cfg_core cfg) (core_memory s, heap s) (word_of_hex da) (unat (word_of_hex dn)) of
       Val bs \<Rightarrow> protocol_tx (bin2hex bs) (touched (CHR ''m'') s)
     | Fail e \<Rightarrow> Some (Fail e, touched (CHR ''m'') s))"
proof -
  obtain r where r: "c_str v = CHR ''m'' # da @ CHR '','' # dn @ CHR ''#'' # r"
    using assms(1) by (rule payload_c_str) simp
  have "sscanf (range_format (CHR ''m'') 16) (c_str v) = [HexV (word_of_hex da), HexV (word_of_hex dn)]"
    using scan_range [OF assms(2,3), of "CHR ''#'' # r" "CHR ''m''" "[]"] by (simp add: r)
  then show ?thesis
    by (simp add: mem_read_def Let_def dut_mem_read_def bin2hex_def shadow_read_apply bnd_def split: result.split)
qed

lemma mem_write_apply:
  assumes v: "payload p v" "p = CHR ''M'' # da @ CHR '','' # dn @ CHR '':'' # ds"
    and "numeral16 da" and "numeral16 dn"
  shows "mem_write cfg v s =
    (let len = unat (2 * word_of_hex dn) in
     if length p < len then Some (Fail (Thrown OutOfRange), s)
     else case mm_write (cfg_core cfg) (core_memory s) (word_of_hex da) (replicate (len div 2) 0) (heap s) of
       Val h \<Rightarrow> protocol_tx ''OK'' ((touched (CHR ''M'') s)\<lparr>heap := h\<rparr>)
     | Fail e \<Rightarrow> Some (Fail e, touched (CHR ''M'') s))"
proof -
  obtain r where r: "c_str v = CHR ''M'' # da @ CHR '','' # dn @ CHR '':'' # ds @ CHR ''#'' # r"
    using v(1) by (rule payload_c_str) (simp add: v(2))
  have scan: "sscanf (range_format (CHR ''M'') 16 @ [Lit (CHR '':'')]) (c_str v) =
      [HexV (word_of_hex da), HexV (word_of_hex dn)]"
    using scan_range [OF assms(3,4), of "CHR '':'' # ds @ CHR ''#'' # r" "CHR ''M''" "[Lit (CHR '':'')]"]
    by (simp add: r)
  define len where "len = unat (2 * word_of_hex dn)"
  have len: "len \<le> 2 ^ 32"
    using unsigned_less [of "2 * word_of_hex dn", where ?'a = nat] by (simp add: len_def)
  have chars: "chars v = p"
    using v by (simp add: payload_def)
  have sub: "substr v (size_sub (length (chars v)) len) len =
      (if length p < len then Fail (Thrown OutOfRange)
       else Val \<lparr>chars = drop (length p - len) p, beyond = beyond v\<rparr>)"
    using payload_size_sub [OF v(1) len] unfolding chars [symmetric]
    by (auto simp: substr_def Let_def)
  show ?thesis
    using sub unfolding mem_write_def Let_def scan len_def
    by (cases "length p < unat (2 * word_of_hex dn)")
      (simp_all add: hex2bin_def write_store_apply system_mem_write_def seq_def bnd_def split: result.split)
qed


lemma mm_rd_covered:
  assumes "covers amap blk (m, h)" and "in_range blk a n"
  shows "\<exists>bs. mm_rd amap (m, h) a n = Val bs \<and> length bs = n"
proof -
  have "mm_valid amap (m, h) a n"
    using assms by (rule covers_valid)
  then show ?thesis
    by (simp add: mm_rd_def mm_read_def mm_valid_def span_bytes_def wf_span_def)
qed

lemma mm_write_covered:
  assumes "covers amap blk (m, h)" and "in_range blk a (length bs)"
  shows "\<exists>h'. mm_write amap m a bs h = Val h' \<and> mm_rd amap (m, h') a (length bs) = Val bs"
proof -
  have "mm_valid amap (m, h) a (length bs)"
    using assms by (rule covers_valid)
  from mm.write_back [OF this] show ?thesis
    by (auto simp: mm_wr_def split: result.splits)
qed

section \<open>Properties\<close>

text \<open>
  Property C31: a memory read packet for a range inside the memory block of the core is answered with the
  hexadecimal text of exactly the bytes of that range, from which the client recovers them, and
  the read changes neither the memory nor the state of the server.
\<close>

theorem mem_read_replies_memory:
  assumes "payload (CHR ''m'' # da @ CHR '','' # dn) v" and "numeral16 da" and "numeral16 dn"
    and "\<not> dut_memory (m_state s)" and "client_ready s"
    and "covers (cfg_core cfg) blk (core_memory s, heap s)"
    and "in_range blk (word_of_hex da) (unat (word_of_hex dn))"
  shows "\<exists>bs s'. mem_read cfg v s = Some (Val (), s') \<and>
    mm_rd (cfg_core cfg) (core_memory s, heap s) (word_of_hex da) (unat (word_of_hex dn)) = Val bs \<and>
    length bs = unat (word_of_hex dn) \<and> sent s' = sent s @ format_packet (bin2hex bs) \<and>
    unhex (bin2hex bs) = Some bs \<and> heap s' = heap s \<and> m_shadow s' = m_shadow s \<and> m_state s' = m_state s"
proof -
  obtain bs where bs: "mm_rd (cfg_core cfg) (core_memory s, heap s) (word_of_hex da) (unat (word_of_hex dn)) = Val bs"
      "length bs = unat (word_of_hex dn)"
    using mm_rd_covered [OF assms(6,7)] by blast
  obtain s' where s': "protocol_tx (bin2hex bs) (touched (CHR ''m'') s) = Some (Val (), s')"
      "replied (bin2hex bs) (touched (CHR ''m'') s) s'"
    using protocol_tx_ready [of "touched (CHR ''m'') s"] assms(5) by auto
  from s'(1) bs(1) assms(4) have "mem_read cfg v s = Some (Val (), s')"
    by (simp add: mem_read_apply [OF assms(1-3)])
  with bs replied_members [OF s'(2)] show ?thesis
    by (simp add: unhex_bin2hex)
qed

text \<open>
  Property C32: a memory write packet for a range inside the memory block is answered with \<open>OK\<close>, and what
  the block holds there afterwards is zero in every byte, whatever data the packet carried: a read
  packet for the same range is then answered with zeros.
\<close>

theorem mem_write_stores_zeros:
  assumes "payload p v" and "p = CHR ''M'' # da @ CHR '','' # dn @ CHR '':'' # ds"
    and "numeral16 da" and "numeral16 dn"
    and "length ds = 2 * unat (word_of_hex dn)" and "client_ready s"
    and "covers (cfg_core cfg) blk (core_memory s, heap s)"
    and "in_range blk (word_of_hex da) (unat (word_of_hex dn))"
    and "payload (CHR ''m'' # da @ CHR '','' # dn) w"
  shows "\<exists>s'. mem_write cfg v s = Some (Val (), s') \<and> sent s' = sent s @ format_packet ''OK'' \<and>
    mm_rd (cfg_core cfg) (core_memory s', heap s') (word_of_hex da) (unat (word_of_hex dn)) =
      Val (replicate (unat (word_of_hex dn)) 0) \<and>
    (\<forall>t. \<not> dut_memory (m_state t) \<longrightarrow> m_shadow t = m_shadow s' \<longrightarrow> heap t = heap s' \<longrightarrow>
      mem_read cfg w t = protocol_tx (replicate (length ds) (CHR ''0'')) (touched (CHR ''m'') t))"
proof -
  let ?n = "unat (word_of_hex dn)" and ?a = "word_of_hex da"
  have "length p \<le> 512"
    using assms(1) by (simp add: payload_def buffer_size_def)
  then have small: "2 * ?n \<le> length p" "2 * ?n < 2 ^ 32"
    using assms(2,5) by simp_all
  then have two: "unat (2 * word_of_hex dn) = 2 * ?n"
    by (simp add: unat_word_ariths)
  obtain h where h: "mm_write (cfg_core cfg) (core_memory s) ?a (replicate ?n 0) (heap s) = Val h"
      "mm_rd (cfg_core cfg) (core_memory s, h) ?a ?n = Val (replicate ?n 0)"
    using mm_write_covered [OF assms(7), of ?a "replicate ?n 0"] assms(8) by auto
  let ?t = "(touched (CHR ''M'') s)\<lparr>heap := h\<rparr>"
  obtain s' where s': "protocol_tx ''OK'' ?t = Some (Val (), s')" "replied ''OK'' ?t s'"
    using protocol_tx_ready [of ?t] assms(6) by auto
  have "mem_write cfg v s = Some (Val (), s')"
    using s'(1) h(1) small by (simp add: mem_write_apply [OF assms(1-4)] Let_def two)
  moreover have "mem_read cfg w t = protocol_tx (replicate (length ds) (CHR ''0'')) (touched (CHR ''m'') t)"
    if "\<not> dut_memory (m_state t)" "m_shadow t = m_shadow s'" "heap t = heap s'" for t
    using that h(2) replied_members(5,6) [OF s'(2)]
    by (simp add: mem_read_apply [OF assms(9,3,4)] bin2hex_zeros assms(5))
  ultimately show ?thesis
    using h(2) replied_members [OF s'(2)] by simp
qed

text \<open>
  A memory write packet whose length field asks for more digits than the whole packet has
  throws \<open>std::out_of_range\<close> before anything is written or sent.
\<close>

theorem mem_write_short_throws:
  assumes "payload p v" and "p = CHR ''M'' # da @ CHR '','' # dn @ CHR '':'' # ds"
    and "numeral16 da" and "numeral16 dn" and "unat (word_of_hex dn) < 2 ^ 31"
    and "length p < 2 * unat (word_of_hex dn)"
  shows "mem_write cfg v s = Some (Fail (Thrown OutOfRange), s)"
proof -
  have "unat (2 * word_of_hex dn) = 2 * unat (word_of_hex dn)"
    using assms(5) by (simp add: unat_word_ariths)
  then show ?thesis
    using assms(6) by (simp add: mem_write_apply [OF assms(1-4)] Let_def)
qed

text \<open>
  The number of digits is computed at 32 bits.  A write packet for \<open>2 ^ 31\<close> bytes therefore
  asks for none, is answered with \<open>OK\<close> and writes nothing.
\<close>

theorem mem_write_length_wraps:
  assumes "payload p v" and "p = CHR ''M'' # da @ CHR '','' # dn @ CHR '':'' # ds"
    and "numeral16 da" and "numeral16 dn" and "word_of_hex dn = 0x80000000" and "client_ready s"
    and "system_inv (m_shadow s) (heap s)"
    and "unat (offset (mem (cfg_core cfg)) (word_of_hex da)) \<le> sp_len (m_mem (core_memory s))"
  shows "\<exists>s'. mem_write cfg v s = Some (Val (), s') \<and> sent s' = sent s @ format_packet ''OK'' \<and> heap s' = heap s"
proof -
  have len: "unat (2 * word_of_hex dn) = 0"
    using assms(5) by simp
  have w: "mm_write (cfg_core cfg) (core_memory s) (word_of_hex da) [] (heap s) = Val (heap s)"
    using assms(8) by (simp add: mm_write_def span_copy_def)
  let ?t = "(touched (CHR ''M'') s)\<lparr>heap := heap s\<rparr>"
  obtain s' where s': "protocol_tx ''OK'' ?t = Some (Val (), s')" "replied ''OK'' ?t s'"
    using protocol_tx_ready [of ?t] assms(6) by auto
  have "mem_write cfg v s = Some (Val (), s')"
    using s'(1) w by (simp add: mem_write_apply [OF assms(1-4)] Let_def len)
  with replied_members [OF s'(2)] show ?thesis by simp
qed

text \<open>
  A memory packet whose address lies in no block of the core is not refused: it is answered
  as if it had named the first address of the first block.
\<close>

theorem mem_read_unmapped_aliases:
  assumes "payload (CHR ''m'' # da @ CHR '','' # dn) v" and "payload (CHR ''m'' # db @ CHR '','' # dn) w"
    and "numeral16 da" and "numeral16 db" and "numeral16 dn"
    and "mem (cfg_core cfg) = [blk]" and "proper_block blk" and "bsize blk \<noteq> 0"
    and "\<not> in_block blk (word_of_hex da)" and "word_of_hex db = base blk"
  shows "mem_read cfg v s = mem_read cfg w s"
proof -
  have "offset (mem (cfg_core cfg)) (word_of_hex da) = 0"
    using assms(6,9) by (intro offset_unmapped) simp
  moreover have "in_block blk (base blk)"
    using assms(7,8) by (simp add: in_block_unat unat_gt_0)
  then have "offset (mem (cfg_core cfg)) (word_of_hex db) = 0"
    using assms(6,10) offset_in_first [of blk "base blk" "[]"] by simp
  ultimately have "mm_rd (cfg_core cfg) ms (word_of_hex da) n = mm_rd (cfg_core cfg) ms (word_of_hex db) n" for ms n
    by (simp add: mm_rd_def mm_read_def)
  then show ?thesis
    by (simp add: mem_read_apply [OF assms(1,3,5)] mem_read_apply [OF assms(2,4,5)])
qed

text \<open>
  A memory read packet that reaches past the end of the memory, or that lacks an address or
  a length, is not answered with an error: the handler leaves defined behaviour and sends nothing.
\<close>

theorem mem_read_undefined:
  assumes "payload (CHR ''m'' # da @ CHR '','' # dn) v" and "numeral16 da" and "numeral16 dn"
    and "\<not> dut_memory (m_state s)"
    and "sp_len (m_mem (core_memory s)) < unat (offset (mem (cfg_core cfg)) (word_of_hex da)) + unat (word_of_hex dn)"
    and "payload ''m'' w"
  shows "mem_read cfg v s = Some (Fail (Undefined OutOfBounds), touched (CHR ''m'') s) \<and>
    mem_read cfg w s = Some (Fail (Undefined Uninitialized), s)"
proof -
  have "mm_rd (cfg_core cfg) (core_memory s, heap s) (word_of_hex da) (unat (word_of_hex dn)) =
      Fail (Undefined OutOfBounds)"
    using assms(5) by (simp add: mm_rd_def mm_read_def subspan_def)
  moreover obtain r where r: "c_str w = ''m'' @ CHR ''#'' # r"
    using assms(6) by (rule payload_c_str)
  have "scan_hex n (CHR ''#'' # r) = None" for n
    by (cases n; cases r) (auto simp: scan_hex_def is_space_def scan_sign_def scan_prefix_def Let_def take_Cons' split: option.splits)
  then have "mem_read cfg w s = Some (Fail (Undefined Uninitialized), s)"
    by (simp add: mem_read_def r range_format_def scan_var_def)
  ultimately show ?thesis
    using assms(4) by (simp add: mem_read_apply [OF assms(1-3)])
qed

section \<open>Instances\<close>

lemma demo_numerals:
  "numeral16 ''80000004''" "numeral16 ''2''" "numeral16 ''80000000''" "numeral16 ''11''" "numeral16 ''0''"
  "numeral16 ''7f''"
  by code_simp+

lemma demo_words:
  "word_of_hex ''80000004'' = 0x80000004" "word_of_hex ''2'' = 2" "word_of_hex ''80000000'' = 0x80000000"
  "word_of_hex ''11'' = 17" "word_of_hex ''0'' = 0" "word_of_hex ''7f'' = 127"
  by (simp_all add: word_of_hex_def hex_number_def hex_val_def)

lemma demo_in_range: "in_range (demo_block 0) (word_of_hex ''80000004'') (unat (word_of_hex ''2''))"
  by (simp add: demo_words in_range_def demo_block_def)

lemma demo_payloads:
  "payload (''m'' @ ''80000004'' @ '','' @ ''2'') (demo_view ''m80000004,2'')"
  "payload ''M80000004,2:beef'' (demo_view ''M80000004,2:beef'')"
  "payload ''M80000004,11:be'' (demo_view ''M80000004,11:be'')"
  "payload ''M80000004,80000000:beef'' (demo_view ''M80000004,80000000:beef'')"
  "payload (''m'' @ ''7f'' @ '','' @ ''2'') (demo_view ''m7f,2'')"
  "payload (''m'' @ ''80000000'' @ '','' @ ''2'') (demo_view ''m80000000,2'')"
  "payload (''m'' @ ''80000004'' @ '','' @ ''11'') (demo_view ''m80000004,11'')"
  "payload ''m'' (demo_view ''m'')"
  by (simp_all add: payload_def demo_view_def nul_def buffer_size_def)

lemma demo_unmapped: "\<not> in_block (demo_block 0) (word_of_hex ''7f'')"
  by (simp add: demo_words in_block_def demo_block_def)

lemma demo_offset: "offset (mem (cfg_core demo_config)) (word_of_hex ''80000004'') = 4"
  by (simp add: demo_words demo_config_def demo_map_def demo_block_def)

theorem mem_read_replies_memory_witness:
  "\<exists>bs s'. mem_read demo_config (demo_view ''m80000004,2'') (demo_server [Chunk ''+'']) = Some (Val (), s') \<and>
    length bs = unat (word_of_hex ''2'') \<and> sent s' = sent (demo_server [Chunk ''+'']) @ format_packet (bin2hex bs)"
proof -
  have "payload (CHR ''m'' # ''80000004'' @ CHR '','' # ''2'') (demo_view ''m80000004,2'')"
    using demo_payloads(1) by simp
  from mem_read_replies_memory [OF this demo_numerals(1,2), of "demo_server [Chunk ''+'']" demo_config "demo_block 0"]
  show ?thesis
    using demo_covers_server demo_in_range by (auto simp only: demo_server_simps demo_ready)
qed

theorem mem_write_stores_zeros_witness:
  "\<exists>s'. mem_write demo_config (demo_view ''M80000004,2:beef'') (demo_server [Chunk ''+'']) = Some (Val (), s') \<and>
    sent s' = sent (demo_server [Chunk ''+'']) @ format_packet ''OK'' \<and>
    mm_rd (cfg_core demo_config) (core_memory s', heap s') (word_of_hex ''80000004'') (unat (word_of_hex ''2'')) =
      Val (replicate (unat (word_of_hex ''2'')) 0)"
proof -
  have "payload (CHR ''m'' # ''80000004'' @ CHR '','' # ''2'') (demo_view ''m80000004,2'')"
    using demo_payloads(1) by simp
  moreover have "length ''beef'' = 2 * unat (word_of_hex ''2'')"
    by (simp add: demo_words)
  ultimately show ?thesis
    using mem_write_stores_zeros [OF demo_payloads(2) _ demo_numerals(1,2) _ _ _ demo_in_range, of "''beef''"
        "demo_server [Chunk ''+'']" demo_config "demo_view ''m80000004,2''"] demo_covers_server
    by (auto simp only: demo_server_simps demo_ready append.simps)
qed

theorem mem_write_short_throws_witness:
  "mem_write demo_config (demo_view ''M80000004,11:be'') (demo_server []) =
    Some (Fail (Thrown OutOfRange), demo_server [])"
  by (rule mem_write_short_throws [OF demo_payloads(3) _ demo_numerals(1,4), of "''be''"])
    (simp_all add: demo_words)

theorem mem_write_length_wraps_witness:
  "\<exists>s'. mem_write demo_config (demo_view ''M80000004,80000000:beef'') (demo_server [Chunk ''+'']) = Some (Val (), s') \<and>
    sent s' = sent (demo_server [Chunk ''+'']) @ format_packet ''OK'' \<and> heap s' = heap (demo_server [Chunk ''+''])"
proof (rule mem_write_length_wraps [OF demo_payloads(4) _ demo_numerals(1,3) demo_words(3) demo_ready, of "''beef''"])
  show "system_inv (m_shadow (demo_server [Chunk ''+''])) (heap (demo_server [Chunk ''+'']))"
    unfolding demo_server_simps by (rule demo_system_inv)
qed (simp_all add: demo_memory_span demo_offset)

theorem mem_read_unmapped_aliases_witness:
  "mem_read demo_config (demo_view ''m7f,2'') (demo_server [Chunk ''+'']) =
    mem_read demo_config (demo_view ''m80000000,2'') (demo_server [Chunk ''+''])"
proof (rule mem_read_unmapped_aliases [OF _ _ demo_numerals(6,3,2) _ _ _ demo_unmapped])
  show "payload (CHR ''m'' # ''7f'' @ CHR '','' # ''2'') (demo_view ''m7f,2'')"
    using demo_payloads(5) by simp
  show "payload (CHR ''m'' # ''80000000'' @ CHR '','' # ''2'') (demo_view ''m80000000,2'')"
    using demo_payloads(6) by simp
qed (simp_all add: demo_words demo_config_def demo_map_def demo_block_def proper_block_def)

theorem mem_read_undefined_witness:
  "mem_read demo_config (demo_view ''m80000004,11'') (demo_server []) =
    Some (Fail (Undefined OutOfBounds), touched (CHR ''m'') (demo_server []))"
proof -
  have "payload (CHR ''m'' # ''80000004'' @ CHR '','' # ''11'') (demo_view ''m80000004,11'')"
    using demo_payloads(7) by simp
  from mem_read_undefined [OF this demo_numerals(1,4) _ _ demo_payloads(8), of "demo_server []" demo_config]
  show ?thesis
    by (simp add: demo_memory_span demo_offset demo_words)
qed

end
