(* ===== verification/Register_Packets.thy ===== *)
theory Register_Packets
  imports Replies
begin

text \<open>
  The packets \<open>g\<close>, \<open>G\<close>, \<open>p\<close> and \<open>P\<close>: reading and writing the registers of the shadow (\<open>reg_readall\<close>,
  \<open>reg_writeall\<close>, \<open>reg_readone\<close> and \<open>reg_writeone\<close> in \<open>src/rsp/Protocol.hpp\<close>, over
  \<open>src/shadow/System.hpp\<close> and \<open>src/shadow/Registers.hpp\<close>).
\<close>

section \<open>The handlers as functions\<close>

abbreviation core_registers :: "protocol \<Rightarrow> 32 word registers" where
  "core_registers s \<equiv> core_regs (m_core (m_shadow s))"

definition register_image :: "protocol \<Rightarrow> byte list" where
  "register_image s = heap s ! m_all (core_registers s)"

lemma reg_readall_apply:
  "reg_readall v s = protocol_tx (bin2hex (register_image s)) (touched (CHR ''g'') s)"
  by (simp add: reg_readall_def reg_readAll_def span_bytes_readAll register_image_def)

lemma reg_writeall_apply:
  assumes "payload (CHR ''G'' # ds) v"
  shows "reg_writeall v s =
    (case writeAll (core_registers s) (replicate (length ds div 2) 0) (heap s) of
       Val h \<Rightarrow> protocol_tx ''OK'' ((touched (CHR ''G'') s)\<lparr>heap := h\<rparr>)
     | Fail e \<Rightarrow> Some (Fail e, touched (CHR ''G'') s))"
proof -
  have v: "chars v = CHR ''G'' # ds"
    using assms by (simp add: payload_def)
  have "substr v 1 (size_sub (length (chars v)) 1) = Val \<lparr>chars = ds, beyond = beyond v\<rparr>"
    using payload_size_sub(2) [OF assms, of 1] by (simp add: substr_def v)
  then show ?thesis
    by (simp add: reg_writeall_def hex2bin_def write_store_apply reg_writeAll_def seq_def bnd_def split: result.split)
qed

lemma reg_readone_apply:
  assumes "payload (CHR ''p'' # ds) v" and "numeral16 ds"
  shows "reg_readone cfg v s =
    (case reg_readOne cfg (m_shadow s) (thread_at (CHR ''p'') s) (word_of_hex ds) (heap s) of
       Val sp \<Rightarrow> bnd (read_span sp) (\<lambda>val.
         seq (check (bin2hex val = []) (Undefined Dangling)) (protocol_tx (bin2hex val))) (touched (CHR ''p'') s)
     | Fail e \<Rightarrow> Some (Fail e, touched (CHR ''p'') s))"
proof -
  obtain r where r: "c_str v = CHR ''p'' # ds @ CHR ''#'' # r"
    using assms(1) by (rule payload_c_str) simp
  then have "sscanf [Lit (CHR ''p''), Hex None] (c_str v) = [HexV (word_of_hex ds)]"
    using assms(2) by (simp add: scan_numeral16)
  then show ?thesis
    by (simp add: reg_readone_def Let_def bnd_def [of "lifts _"] split: result.split)
qed

text \<open>A shadow of an integer-only core whose spans are in place.\<close>

definition integer_core :: "32 word config \<Rightarrow> protocol \<Rightarrow> bool" where
  "integer_core cfg s \<longleftrightarrow> lenFpr (cfg_isa cfg) = 0 \<and> lenVec (cfg_isa cfg) = 0 \<and> lenCsr (cfg_isa cfg) = 0 \<and>
     sp_len (m_gpr (core_registers s)) = 4 * lenGpr (cfg_isa cfg)"

text \<open>Indices that select a register or, by the signed comparison, the program counter.\<close>

definition selects_register :: "32 word config \<Rightarrow> 32 word \<Rightarrow> bool" where
  "selects_register cfg idx \<longleftrightarrow>
     unat idx \<le> lenGpr (cfg_isa cfg) \<or> 2 ^ 31 + lenGpr (cfg_isa cfg) \<le> unat idx"

lemma reg_readOne_cases:
  assumes "integer_core cfg s"
  shows "(selects_register cfg idx \<longrightarrow> (\<exists>p. reg_readOne cfg (m_shadow s) t idx (heap s) = Val (WildSpan p 4))) \<and>
    (\<not> selects_register cfg idx \<longrightarrow> reg_readOne cfg (m_shadow s) t idx (heap s) = Val EmptySpan)"
proof -
  have gpr: "\<exists>w. (span_get (heap s) (m_gpr (core_registers s)) (unat idx) :: 32 word result) = Val w"
    if "unat idx < lenGpr (cfg_isa cfg)"
    using assms that by (simp add: integer_core_def span_get_def Let_def)
  have cases: "readOne (cfg_isa cfg) (core_registers s) TYPE(32) TYPE(32) idx (heap s) =
    (if unat idx < lenGpr (cfg_isa cfg)
     then wild (span_get (heap s) (m_gpr (core_registers s)) (unat idx) :: 32 word result)
     else if unat idx = lenGpr (cfg_isa cfg) \<or> 2 ^ 31 + lenGpr (cfg_isa cfg) \<le> unat idx
     then wild (Val (m_pc (core_registers s))) else Val EmptySpan)"
    using assms by (intro readOne_integer) (simp_all add: integer_core_def)
  show ?thesis
    using gpr by (auto simp: reg_readOne_def cases selects_register_def wild_def)
qed

text \<open>Copying separates the array of the image from the registers, once and for all.\<close>

lemma system_copy_separates:
  assumes "system_inv sys h" and "system_copy sys h = (sys', h')"
  shows "sp_arr (m_gpr (core_regs (m_core sys'))) < m_all (core_regs (m_core sys'))"
  using assms
  by (auto simp: system_copy_def core_copy_def registers_copy_def memory_map_copy_def system_inv_def wf_span_def Let_def)

section \<open>Properties\<close>

text \<open>
  The packet \<open>g\<close> is answered with the hexadecimal text of the whole register image, from
  which the client recovers every byte, and changes neither registers nor memory.
\<close>

theorem reg_readall_replies_image:
  assumes "client_ready s"
  shows "\<exists>s'. reg_readall v s = Some (Val (), s') \<and> sent s' = sent s @ format_packet (bin2hex (register_image s)) \<and>
    unhex (bin2hex (register_image s)) = Some (register_image s) \<and> heap s' = heap s \<and> m_shadow s' = m_shadow s"
proof -
  obtain s' where s': "reg_readall v s = Some (Val (), s')"
      "replied (bin2hex (register_image s)) (touched (CHR ''g'') s) s'"
    using protocol_tx_ready [of "touched (CHR ''g'') s"] assms unfolding reg_readall_apply by auto
  with replied_members [OF s'(2)] show ?thesis
    by (simp add: unhex_bin2hex)
qed

text \<open>
  The packet \<open>G\<close> with digits for at most the whole image is answered with \<open>OK\<close> and clears
  that many bytes of the image, whatever the digits were; with more digits than the image has room
  for, the copy runs past the end of the array and nothing is sent.
\<close>

theorem reg_writeall_clears_image:
  assumes "payload (CHR ''G'' # ds) v" and "client_ready s" and "system_inv (m_shadow s) (heap s)"
  shows "if length ds div 2 \<le> length (register_image s) then
      (\<exists>s'. reg_writeall v s = Some (Val (), s') \<and> sent s' = sent s @ format_packet ''OK'' \<and>
        register_image s' = replicate (length ds div 2) 0 @ drop (length ds div 2) (register_image s))
    else reg_writeall v s = Some (Fail (Undefined OutOfBounds), touched (CHR ''G'') s)"
proof (cases "length ds div 2 \<le> length (register_image s)")
  case True
  let ?d = "replicate (length ds div 2) 0 :: byte list"
  define h where "h = (heap s)[m_all (core_registers s) := ?d @ drop (length ?d) (register_image s)]"
  have "writeAll (core_registers s) ?d (heap s) = Val h"
    using True unfolding h_def register_image_def by (intro writeAll_fits) simp
  moreover obtain s' where s': "protocol_tx ''OK'' ((touched (CHR ''G'') s)\<lparr>heap := h\<rparr>) = Some (Val (), s')"
      "replied ''OK'' ((touched (CHR ''G'') s)\<lparr>heap := h\<rparr>) s'"
    using protocol_tx_ready [of "(touched (CHR ''G'') s)\<lparr>heap := h\<rparr>"] assms(2) by auto
  ultimately have "reg_writeall v s = Some (Val (), s')"
    by (simp add: reg_writeall_apply [OF assms(1)])
  moreover have "m_all (core_registers s) < length (heap s)"
    using assms(3) by (simp add: system_inv_def)
  ultimately show ?thesis
    using True replied_members [OF s'(2)] by (simp add: register_image_def h_def)
next
  case False
  then have "writeAll (core_registers s) (replicate (length ds div 2) 0) (heap s) = Fail (Undefined OutOfBounds)"
    by (simp add: writeAll_def span_copy_def register_image_def)
  with False show ?thesis
    by (simp add: reg_writeall_apply [OF assms(1)])
qed

text \<open>
  Property C34: in a server whose shadow was copied by the constructor, a \<open>G\<close> packet changes the image
  that later \<open>g\<close> packets show but no register that the simulation reads through \<open>readGpr\<close>: the
  registers are still those of the object that was copied.
\<close>

theorem reg_writeall_misses_registers:
  assumes "system_inv shadow (heap s0)" and "Protocol_members st shadow s0 = Some (Val (), s)"
    and "payload (CHR ''G'' # ds) v" and "client_ready s" and "length ds div 2 \<le> length (register_image s)"
  shows "\<exists>s'. reg_writeall v s = Some (Val (), s') \<and> (\<forall>i. readGpr (core_registers s') i (heap s') = readGpr (core_registers s) i (heap s))"
proof -
  obtain sys h where c: "system_copy shadow (heap s0) = (sys, h)" by fastforce
  have s: "m_shadow s = sys" "heap s = h"
    using assms(2) c by (auto simp: Protocol_members_def)
  have apart: "sp_arr (m_gpr (core_registers s)) < m_all (core_registers s)"
    using system_copy_separates [OF assms(1) c] s by simp
  let ?d = "replicate (length ds div 2) 0 :: byte list"
  define h' where "h' = (heap s)[m_all (core_registers s) := ?d @ drop (length ?d) (register_image s)]"
  have "writeAll (core_registers s) ?d (heap s) = Val h'"
    using assms(5) unfolding h'_def register_image_def by (intro writeAll_fits) simp
  moreover obtain s' where s': "protocol_tx ''OK'' ((touched (CHR ''G'') s)\<lparr>heap := h'\<rparr>) = Some (Val (), s')"
      "replied ''OK'' ((touched (CHR ''G'') s)\<lparr>heap := h'\<rparr>) s'"
    using protocol_tx_ready [of "(touched (CHR ''G'') s)\<lparr>heap := h'\<rparr>"] assms(4) by auto
  ultimately have "reg_writeall v s = Some (Val (), s')"
    by (simp add: reg_writeall_apply [OF assms(3)])
  moreover have "h' ! sp_arr (m_gpr (core_registers s)) = heap s ! sp_arr (m_gpr (core_registers s))"
    using apart by (simp add: h'_def)
  then have "readGpr (core_registers s') i (heap s') = readGpr (core_registers s) i (heap s)" for i
    using replied_members [OF s'(2)] by (simp add: readGpr_def span_get_def)
  ultimately show ?thesis by blast
qed

text \<open>
  Property C35: the packet \<open>p\<close> on an integer-only core never answers with a register.  The index of a
  general purpose register or of the program counter makes the handler read memory at the address
  that is the register's value, which is undefined; every other index below \<open>2 ^ 31\<close> is answered
  with an empty packet.
\<close>

theorem reg_readone_never_replies_register:
  assumes "payload (CHR ''p'' # ds) v" and "numeral16 ds" and "integer_core cfg s" and "client_ready s"
  shows "if selects_register cfg (word_of_hex ds)
    then reg_readone cfg v s = Some (Fail (Undefined WildPointer), touched (CHR ''p'') s)
    else (\<exists>s'. reg_readone cfg v s = Some (Val (), s') \<and> sent s' = sent s @ format_packet [])"
proof (cases "selects_register cfg (word_of_hex ds)")
  case True
  then obtain p where "reg_readOne cfg (m_shadow s) (thread_at (CHR ''p'') s) (word_of_hex ds) (heap s) = Val (WildSpan p 4)"
    using reg_readOne_cases [OF assms(3)] by blast
  with True show ?thesis
    by (simp add: reg_readone_apply [OF assms(1,2)] read_span_def)
next
  case False
  then have "reg_readOne cfg (m_shadow s) (thread_at (CHR ''p'') s) (word_of_hex ds) (heap s) = Val EmptySpan"
    using reg_readOne_cases [OF assms(3)] by blast
  then have "reg_readone cfg v s = protocol_tx [] (touched (CHR ''p'') s)"
    by (simp add: reg_readone_apply [OF assms(1,2)] read_span_def bin2hex_def)
  moreover obtain s' where "protocol_tx [] (touched (CHR ''p'') s) = Some (Val (), s')"
      "replied [] (touched (CHR ''p'') s) s'"
    using protocol_tx_ready [of "touched (CHR ''p'') s"] assms(4) by auto
  ultimately show ?thesis
    using False replied_members [of "[]" "touched (CHR ''p'') s" s'] by simp
qed

text \<open>
  The packet \<open>P\<close> is answered with \<open>OK\<close> and changes no register and no memory, whatever
  register and value it names.
\<close>

theorem reg_writeone_changes_nothing:
  assumes "payload p v" and "p = CHR ''P'' # ds @ CHR ''='' # val" and "numeral16 ds" and "4 \<le> length p"
    and "client_ready s"
  shows "\<exists>s'. reg_writeone v s = Some (Val (), s') \<and> sent s' = sent s @ format_packet ''OK'' \<and>
    heap s' = heap s \<and> m_shadow s' = m_shadow s"
proof -
  obtain r where r: "c_str v = CHR ''P'' # ds @ CHR ''='' # val @ CHR ''#'' # r"
    using assms(1) by (rule payload_c_str) (simp add: assms(2))
  then have scan: "scan_var (sscanf [Lit (CHR ''P''), Hex None, Lit (CHR ''='')] (c_str v)) 0 None = Some (word_of_hex ds)"
    using assms(3) by (simp add: scan_numeral16)
  have v: "chars v = p"
    using assms(1) by (simp add: payload_def)
  obtain w where sub: "substr v (size_sub (length (chars v)) 4) 4 = Val w"
    using payload_size_sub(2) [OF assms(1), of 4] assms(4) by (simp add: v substr_in_range)
  let ?t = "(touched (CHR ''P'') s)\<lparr>heap := heap s\<rparr>"
  obtain s' where s': "protocol_tx ''OK'' ?t = Some (Val (), s')" "replied ''OK'' ?t s'"
    using protocol_tx_ready [of ?t] assms(5) by auto
  have "reg_writeone v s = Some (Val (), s')"
    using s'(1) unfolding reg_writeone_def Let_def scan
    by (simp add: sub write_store_apply reg_writeOne_def writeOne_def)
  with replied_members [OF s'(2)] show ?thesis by simp
qed

section \<open>Instances\<close>

lemma demo_register_payloads:
  "payload (CHR ''G'' # ''deadbeef'') (demo_view ''Gdeadbeef'')"
  "payload (CHR ''p'' # ''5'') (demo_view ''p5'')"
  "payload ''P5=0000002a'' (demo_view ''P5=0000002a'')"
  by (simp_all add: payload_def demo_view_def nul_def buffer_size_def)

lemma demo_register_numeral: "numeral16 ''5''"
  by code_simp

lemma demo_register_index: "word_of_hex ''5'' = 5"
  by (simp add: word_of_hex_def hex_number_def hex_val_def)

lemma demo_image_length: "length (register_image (demo_server q)) = 132"
  by (simp add: register_image_def demo_shadow_def system_new_def core_new_def registers_new_def memory_map_new_def
      Let_def system_copy_def core_copy_def registers_copy_def memory_map_copy_def demo_config_def nth_append
      sizeAll_def sizeGpr_def sizePc_def lenPc_def sizeFpr_def sizeVec_def sizeCsr_def)

lemma demo_integer_core: "integer_core demo_config (demo_server q)"
  by (simp add: integer_core_def demo_shadow_def system_new_def core_new_def registers_new_def memory_map_new_def
      Let_def system_copy_def core_copy_def registers_copy_def memory_map_copy_def demo_config_def)

lemma demo_server_inv: "system_inv (m_shadow (demo_server q)) (heap (demo_server q))"
  unfolding demo_server_simps by (rule demo_system_inv)

theorem reg_readall_replies_image_witness:
  "\<exists>s'. reg_readall (demo_view ''g'') (demo_server [Chunk ''+'']) = Some (Val (), s') \<and>
    sent s' = sent (demo_server [Chunk ''+'']) @ format_packet (bin2hex (register_image (demo_server [Chunk ''+''])))"
  using reg_readall_replies_image [OF demo_ready, of "demo_view ''g''" "[]"] by blast

theorem reg_writeall_clears_image_witness:
  "\<exists>s'. reg_writeall (demo_view ''Gdeadbeef'') (demo_server [Chunk ''+'']) = Some (Val (), s') \<and>
    sent s' = sent (demo_server [Chunk ''+'']) @ format_packet ''OK''"
proof -
  have "length ''deadbeef'' div 2 \<le> length (register_image (demo_server [Chunk ''+'']))"
    by (simp add: demo_image_length)
  then have fits: "(length ''deadbeef'' div 2 \<le> length (register_image (demo_server [Chunk ''+'']))) = True"
    by simp
  from reg_writeall_clears_image [OF demo_register_payloads(1) demo_ready demo_server_inv, of "[]"] show ?thesis
    unfolding fits if_True by blast
qed

lemma demo_members:
  obtains s where "Protocol_members demo_state (fst demo_shadow) (demo_server [Chunk ''+'']) = Some (Val (), s)"
    "client_ready s" "length (register_image s) = 132"
proof -
  obtain sys h where c: "system_copy (fst demo_shadow) (snd demo_shadow) = (sys, h)" by fastforce
  let ?s = "(demo_server [Chunk ''+''])\<lparr>m_state := demo_state, m_features_server := features_server,
    m_features_client := [], m_operation := [], m_shadow := sys, heap := h\<rparr>"
  have "Protocol_members demo_state (fst demo_shadow) (demo_server [Chunk ''+'']) = Some (Val (), ?s)"
    by (simp add: Protocol_members_def c)
  moreover have "client_ready ?s"
    by (simp add: client_ready_state)
  moreover have "h ! m_all (core_regs (m_core sys)) = register_image (demo_server [])"
    using c demo_system_inv
    by (auto simp: system_copy_def core_copy_def registers_copy_def memory_map_copy_def register_image_def
        system_inv_def Let_def nth_append)
  then have "length (register_image ?s) = 132"
    using demo_image_length by (simp add: register_image_def)
  ultimately show ?thesis by (rule that)
qed

theorem reg_writeall_misses_registers_witness:
  "\<exists>s s'. Protocol_members demo_state (fst demo_shadow) (demo_server [Chunk ''+'']) = Some (Val (), s) \<and>
    reg_writeall (demo_view ''Gdeadbeef'') s = Some (Val (), s') \<and>
    readGpr (core_registers s') 0 (heap s') = readGpr (core_registers s) 0 (heap s)"
proof (rule demo_members)
  fix s
  assume s: "Protocol_members demo_state (fst demo_shadow) (demo_server [Chunk ''+'']) = Some (Val (), s)"
    "client_ready s" "length (register_image s) = 132"
  have "length ''deadbeef'' div 2 \<le> length (register_image s)"
    by (simp add: s(3))
  from reg_writeall_misses_registers [OF demo_server_inv [unfolded demo_server_simps(7)] s(1) demo_register_payloads(1) s(2) this] s(1)
  show ?thesis by blast
qed

theorem reg_readone_never_replies_register_witness:
  "reg_readone demo_config (demo_view ''p5'') (demo_server [Chunk ''+'']) =
    Some (Fail (Undefined WildPointer), touched (CHR ''p'') (demo_server [Chunk ''+'']))"
proof -
  have "selects_register demo_config (word_of_hex ''5'')"
    by (simp add: selects_register_def demo_register_index demo_config_def)
  with reg_readone_never_replies_register [OF demo_register_payloads(2) demo_register_numeral demo_integer_core demo_ready]
  show ?thesis by simp
qed

theorem reg_writeone_changes_nothing_witness:
  "\<exists>s'. reg_writeone (demo_view ''P5=0000002a'') (demo_server [Chunk ''+'']) = Some (Val (), s') \<and>
    heap s' = heap (demo_server [Chunk ''+''])"
  using reg_writeone_changes_nothing [OF demo_register_payloads(3) _ demo_register_numeral _ demo_ready, of "''0000002a''" "[]"]
  by auto

end
