(* ===== verification/Query_Packets.thy ===== *)
theory Query_Packets
  imports Replies
begin

text \<open>
  Queries, threads, verbose packets and breakpoints: the handlers \<open>query\<close>, \<open>query_supported\<close>,
  \<open>query_monitor\<close>, \<open>thread\<close>, \<open>verbose\<close> and \<open>point\<close> of \<open>src/rsp/Protocol.hpp\<close>.
\<close>

section \<open>Splitting and joining\<close>

lemma takeWhile_neq: "c \<notin> set t \<Longrightarrow> takeWhile (\<lambda>x. x \<noteq> c) t = t"
  by (auto simp: takeWhile_eq_all_conv)

lemma split_from_last:
  assumes "c \<notin> set t"
  shows "split_from c t b = [\<lparr>chars = t, beyond = b\<rparr>]"
proof -
  have "dropWhile (\<lambda>x. x \<noteq> c) t = []"
    using assms by (auto simp: dropWhile_eq_Nil_conv)
  then show ?thesis by (simp only: split_from.simps [of c t] list.case)
qed

lemma split_from_item:
  assumes "c \<notin> set t"
  shows "split_from c (t @ c # r) b = \<lparr>chars = t, beyond = c # r @ b\<rparr> # split_from c r b"
proof -
  have "dropWhile (\<lambda>x. x \<noteq> c) (t @ c # r) = c # r" "takeWhile (\<lambda>x. x \<noteq> c) (t @ c # r) = t"
    using assms by (auto simp: dropWhile_append3 takeWhile_neq takeWhile_tail)
  then show ?thesis by (subst split_from.simps) simp
qed

lemma split_from_join:
  assumes "items \<noteq> []" and "\<forall>i \<in> set items. c \<notin> set i"
  shows "map chars (split_from c (join_with c items) b) = items"
  using assms by (induction c items rule: join_with.induct) (simp_all add: split_from_last split_from_item)

lemma views_split_join:
  assumes "chars v = join_with c items" and "join_with c items \<noteq> []" and "\<forall>i \<in> set items. c \<notin> set i"
  shows "map chars (views_split c v) = items"
  using assms split_from_join [of items c "beyond v"] by (cases items) (auto simp: views_split_def)

lemma substr_prefix:
  assumes "chars v = cmd @ t" and "length t \<le> n"
  shows "substr v (length cmd) n = Val \<lparr>chars = t, beyond = beyond v\<rparr>"
  using assms by (simp add: substr_in_range)

section \<open>Features\<close>

lemma features_server_text:
  "join_with (CHR '';'') (map format_feature features_server) =
    ''QStartNoAckMode+;ReverseContinue+;ReverseStep+;binary-upload-;error-message+;hwbreak+;multiprocess-;swbreak+''"
  by code_simp

lemma features_server_multiprocess: "map_find features_server ''multiprocess'' = Some ''-''"
  by code_simp

lemma scan_features_apply:
  assumes "map (\<lambda>v. client_feature (chars v)) items = map Val kvs"
  shows "scan_features items s =
    Some (Val (), s\<lparr>m_features_client := foldl (\<lambda>m kv. map_set (fst kv) (snd kv) m) (m_features_client s) kvs\<rparr>)"
  using assms
proof (induction items arbitrary: kvs s)
  case Nil
  then show ?case by simp
next
  case (Cons v items)
  then obtain kv kvs' where kvs: "kvs = kv # kvs'" "client_feature (chars v) = Val kv"
      "map (\<lambda>v. client_feature (chars v)) items = map Val kvs'"
    by (cases kvs) auto
  then show ?case
    using Cons.IH [OF kvs(3)] by simp
qed

lemma query_supported_apply:
  assumes "chars v = join_with (CHR '';'') items" and "join_with (CHR '';'') items \<noteq> []"
    and "\<forall>i \<in> set items. CHR '';'' \<notin> set i" and "map client_feature items = map Val kvs"
    and "m_features_server s = features_server"
  shows "query_supported v s = protocol_tx
      ''QStartNoAckMode+;ReverseContinue+;ReverseStep+;binary-upload-;error-message+;hwbreak+;multiprocess-;swbreak+''
      (s\<lparr>m_features_client := foldl (\<lambda>m kv. map_set (fst kv) (snd kv) m) (m_features_client s) kvs\<rparr>)"
proof -
  have "map (\<lambda>v. client_feature (chars v)) (views_split (CHR '';'') v) = map client_feature (map chars (views_split (CHR '';'') v))"
    by simp
  also have "\<dots> = map Val kvs"
    using views_split_join [OF assms(1-3)] assms(4) by (simp only:)
  finally have "scan_features (views_split (CHR '';'') v) s =
      Some (Val (), s\<lparr>m_features_client := foldl (\<lambda>m kv. map_set (fst kv) (snd kv) m) (m_features_client s) kvs\<rparr>)"
    by (rule scan_features_apply)
  then show ?thesis
    by (simp add: query_supported_def assms(5) features_server_text)
qed

section \<open>Monitor commands\<close>

definition monitor_labels :: "int list" where
  "monitor_labels = map (\<lambda>mc. lit2hash (fst mc)) monitor_cases"

lemma monitor_labels_values: "monitor_labels = [425, 1623, 1717, 1958, 2052, 1423, 1736, 1237, 1316]"
  by code_simp

lemma query_monitor_default:
  assumes "int (hash str) \<notin> set monitor_labels"
  shows "query_monitor hash str = query_monitor_reply not_recognized"
proof -
  have "find (\<lambda>mc. int (hash str) = lit2hash (fst mc)) monitor_cases = None"
    using assms by (force simp: find_None_iff monitor_labels_def)
  then show ?thesis by (simp add: query_monitor_def)
qed

lemma lit2hash_blanks: "lit2hash (replicate n (CHR '' '')) = 32 * int n"
proof -
  have "foldl (\<lambda>a c. a + char_value c) i (replicate n (CHR '' '')) = i + 32 * int n" for i
    by (induction n arbitrary: i) (simp_all add: char_value_def algebra_simps)
  then show ?thesis by (simp add: lit2hash_def)
qed

section \<open>Properties of queries\<close>

text \<open>
  A well-formed \<open>qSupported\<close> query is answered with the features of the server in the order
  of their names, and every feature of the client is remembered, a later one of the same name
  replacing an earlier one.
\<close>

theorem query_supported_replies_features:
  assumes "chars v = ''qSupported:'' @ join_with (CHR '';'') items" and "join_with (CHR '';'') items \<noteq> []"
    and "\<forall>i \<in> set items. CHR '';'' \<notin> set i" and "map client_feature items = map Val kvs"
    and "m_features_server s = features_server" and "client_ready s" and "length (chars v) \<le> buffer_size"
  shows "\<exists>s'. query hash v s = Some (Val (), s') \<and> sent s' = sent s @ format_packet
      ''QStartNoAckMode+;ReverseContinue+;ReverseStep+;binary-upload-;error-message+;hwbreak+;multiprocess-;swbreak+'' \<and>
    m_features_client s' = foldl (\<lambda>m kv. map_set (fst kv) (snd kv) m) (m_features_client s) kvs"
proof -
  let ?t = "s\<lparr>m_features_client := foldl (\<lambda>m kv. map_set (fst kv) (snd kv) m) (m_features_client s) kvs\<rparr>"
  define j where "j = join_with (CHR '';'') items"
  have "length j \<le> npos"
    using assms(1,7) by (simp add: j_def npos_def buffer_size_def)
  then have sub: "substr v (length ''qSupported:'') npos = Val \<lparr>chars = j, beyond = beyond v\<rparr>"
    using assms(1) unfolding j_def [symmetric] by (intro substr_prefix)
  have "query hash v s = query_supported \<lparr>chars = j, beyond = beyond v\<rparr> s"
    unfolding query_def Let_def sub by (simp add: assms(1) starts_with_def)
  also have "\<dots> = protocol_tx
      ''QStartNoAckMode+;ReverseContinue+;ReverseStep+;binary-upload-;error-message+;hwbreak+;multiprocess-;swbreak+'' ?t"
    using assms by (intro query_supported_apply) (simp_all add: j_def)
  finally have q: "query hash v s = protocol_tx
      ''QStartNoAckMode+;ReverseContinue+;ReverseStep+;binary-upload-;error-message+;hwbreak+;multiprocess-;swbreak+'' ?t" .
  show ?thesis
    using protocol_tx_ready [of ?t] assms(6) replied_members(3,8) unfolding q by fastforce
qed

text \<open>
  How one feature of the client is read.  A trailing plus, minus or question mark is the
  value of the name before it.  Otherwise the value begins \<^emph>\<open>at\<close> the first equals sign, so that it is
  stored with that sign; without one the handler throws, and an empty item is undefined behaviour.
\<close>

theorem client_feature_cases:
  "(is_flag c \<longrightarrow> client_feature (name @ [c]) = Val (name, [c])) \<and>
   (CHR ''='' \<notin> set name \<longrightarrow> value \<noteq> [] \<longrightarrow> \<not> is_flag (last value) \<longrightarrow>
      client_feature (name @ CHR ''='' # value) = Val (name, CHR ''='' # value)) \<and>
   (name \<noteq> [] \<longrightarrow> \<not> is_flag (last name) \<longrightarrow> CHR ''='' \<notin> set name \<longrightarrow>
      client_feature name = Fail (Thrown OutOfRange)) \<and>
   client_feature [] = Fail (Undefined OutOfBounds)"
  by (auto simp: client_feature_def takeWhile_neq takeWhile_tail dropWhile_append3)

text \<open>
  Starting the mode without acknowledgements.  The answer \<open>OK\<close> is itself still
  acknowledged; from then on packets are received and sent without any acknowledgement.
\<close>

theorem no_ack_mode_starts_after_reply:
  assumes "chars v = ''QStartNoAckMode''" and "client_ready s"
  shows "\<exists>s'. query hash v s = Some (Val (), s') \<and> sent s' = sent s @ format_packet ''OK'' \<and> rxq s' = after_ack s \<and>
    m_state s' = (m_state s)\<lparr>startNoAckMode := True\<rparr> \<and>
    protocol_rx s' = Packet.rx False s' \<and> protocol_tx p s' = Packet.tx p False s'"
proof -
  obtain t where t: "protocol_tx ''OK'' s = Some (Val (), t)" "replied ''OK'' s t"
    using protocol_tx_ready [OF assms(2)] by blast
  have "query hash v s = Some (Val (), t\<lparr>m_state := (m_state t)\<lparr>startNoAckMode := True\<rparr>\<rparr>)"
    using t(1) by (simp add: query_def assms(1) starts_with_def)
  then show ?thesis
    using replied_members [OF t(2)] by (simp add: protocol_rx_def protocol_tx_def)
qed

lemma query_blanks:
  assumes "chars v = ''qRcmd,'' @ hex" and "length (chars v) \<le> buffer_size"
  shows "query hash v s = query_monitor hash (replicate (length hex div 2) (CHR '' '')) s"
proof -
  have "length hex \<le> npos"
    using assms by (simp add: npos_def buffer_size_def)
  then have sub: "substr v (length ''qRcmd,'') npos = Val \<lparr>chars = hex, beyond = beyond v\<rparr>"
    using assms(1) by (intro substr_prefix)
  show ?thesis
    unfolding query_def Let_def sub by (simp add: assms(1) starts_with_def hex2str_def)
qed

lemma blanks_no_label: "lit2hash (replicate n (CHR '' '')) \<notin> set monitor_labels"
proof -
  have "(32 * int n) mod 32 = 0" by simp
  then have "32 * int n \<notin> set monitor_labels"
    by (auto simp: monitor_labels_values) presburger+
  then show ?thesis by (simp only: lit2hash_blanks not_False_eq_True)
qed

text \<open>
  Property C38: monitor commands are not told apart.  The text of a command is replaced by blanks before it
  is looked up, so whatever \<open>std::hash\<close> computes, two commands of the same length have the same effect on
  the server and the same answer; and if it computed \<open>lit2hash\<close>, the function that makes the labels
  of the switch, every command would be answered as not recognised and change nothing.
\<close>

theorem monitor_commands_indistinguishable:
  assumes "chars v = ''qRcmd,'' @ x" and "chars w = ''qRcmd,'' @ y" and "length x = length y"
    and "length (chars v) \<le> buffer_size" and "client_ready s"
  shows "parse cfg hash v s = parse cfg hash w s \<and>
    (\<exists>s'. parse cfg (\<lambda>str. nat (lit2hash str)) v s = Some (Val (), s') \<and> replied (str2hex not_recognized) s s')"
proof
  have q: "parse cfg hash u = query hash u" if "chars u = ''qRcmd,'' @ z" for cfg hash u z
    using that by (simp add: parse_def)
  have "length (chars w) \<le> buffer_size"
    using assms(1-4) by simp
  then show "parse cfg hash v s = parse cfg hash w s"
    using query_blanks [OF assms(1,4)] query_blanks [OF assms(2)] assms(3)
    by (simp add: q [OF assms(1)] q [OF assms(2)])
  let ?hash = "\<lambda>str. nat (lit2hash str)"
  have "int (?hash (replicate (length x div 2) (CHR '' ''))) \<notin> set monitor_labels"
    using blanks_no_label [of "length x div 2"] by (simp add: lit2hash_blanks)
  then have "query_monitor ?hash (replicate (length x div 2) (CHR '' '')) = query_monitor_reply not_recognized"
    by (rule query_monitor_default)
  then have "parse cfg ?hash v s = protocol_tx (str2hex not_recognized) s"
    using query_blanks [OF assms(1,4), of ?hash s] by (simp add: q [OF assms(1)] query_monitor_reply_def)
  then show "\<exists>s'. parse cfg ?hash v s = Some (Val (), s') \<and> replied (str2hex not_recognized) s s'"
    using protocol_tx_ready [OF assms(5)] by simp
qed

text \<open>
  The queries with a fixed answer, and some that are not supported.
\<close>

definition fixed_queries :: "(string \<times> string) list" where
  "fixed_queries = [(''qfThreadInfo'', ''m1''), (''qsThreadInfo'', ''l''), (''qC'', ''QC1''),
     (''qAttached'', ''1''), (''qTStatus'', []), (''qOffsets'', []), (''qSupported'', [])]"

lemma fixed_query_apply:
  assumes "(p, reply) \<in> set fixed_queries" and "chars v = p" and "single_process s"
  shows "query hash v s = protocol_tx reply s"
proof -
  have one: "format_x 1 = ''1''" by code_simp
  show ?thesis
    using assms by (auto simp: fixed_queries_def query_def starts_with_def one)
qed

text \<open>
  The queries with a fixed answer: the first and the remaining threads, the current thread,
  whether the server is attached, and the empty packet for queries that are not supported.
\<close>

theorem fixed_queries_reply:
  assumes "(p, reply) \<in> set fixed_queries" and "chars v = p" and "single_process s" and "client_ready s"
  shows "\<exists>s'. query hash v s = Some (Val (), s') \<and> replied reply s s'"
  using protocol_tx_ready [OF assms(4)] fixed_query_apply [OF assms(1-3)] by simp

section \<open>Threads\<close>

lemma scan_format_nat_x:
  assumes "n < 2 ^ 31" and "ends_number r"
  shows "scan_hex None (format_nat_x n @ r) = Some (word_of_nat n, r)"
proof -
  have "length (format_nat_x n) \<le> 8"
    using assms(1) by (intro length_format_nat_x) simp_all
  then show ?thesis
    using scan_hex_digits [OF format_nat_x_hex [of n] format_nat_x_nonempty assms(2), of None] by simp
qed

lemma sint_small: "n < 2 ^ 31 \<Longrightarrow> sint (word_of_nat n :: 32 word) = int n"
proof -
  assume n: "n < 2 ^ 31"
  then have "n < 2 ^ LENGTH(32)" by simp
  then have "unat (word_of_nat n :: 32 word) = n"
    by (simp only: unat_of_nat mod_less)
  then have "uint (word_of_nat n :: 32 word) = int n"
    by (simp only: uint_nat)
  with n show ?thesis
    by (simp add: sint_cases)
qed

text \<open>
  Thread numbers survive formatting and scanning: what \<open>thread_format\<close> prints for a thread
  of the single process is scanned back by \<open>thread_scan\<close> as that thread.
\<close>

theorem thread_format_scan:
  assumes "single_process s" and "0 \<le> t" and "t < 2 ^ 31" and "payload str v"
    and "thread_format \<lparr>pid = Some 1, tid = Some t\<rparr> s = Some (Val str, s)"
  shows "thread_scan v s = Some (Val \<lparr>pid = Some 1, tid = Some t\<rparr>, s)"
proof -
  have str: "str = format_nat_x (nat t)"
    using assms(1,2,5) by (simp add: format_x_def)
  obtain r where r: "c_str v = format_nat_x (nat t) @ CHR ''#'' # r"
    using assms(4) by (rule payload_c_str) (simp add: str)
  have n: "nat t < 2 ^ 31"
    using assms(2,3) by simp
  have "sscanf [Hex None] (c_str v) = [HexV (word_of_nat (nat t))]"
    using scan_format_nat_x [OF n] by (simp add: r)
  then show ?thesis
    using assms(1,2) sint_small [OF n] by (simp add: scan_int_def)
qed

text \<open>
  The packet \<open>H\<close> with an operation and a thread number is answered with \<open>OK\<close> and makes that
  thread the thread of that operation, and of no other; a packet without the operation throws.
\<close>

theorem thread_sets_operation:
  assumes "payload (CHR ''H'' # c # ds) v" and "numeral16 ds" and "single_process s" and "client_ready s"
    and "map_inv (m_operation s)" and "payload ''H'' w"
  shows "\<exists>s'. thread v s = Some (Val (), s') \<and> sent s' = sent s @ format_packet ''OK'' \<and>
    map_find (m_operation s') = (map_find (m_operation s))(c \<mapsto> \<lparr>pid = Some 1, tid = Some (sint (word_of_hex ds))\<rparr>) \<and>
    thread w s = Some (Fail (Thrown OutOfRange), s)"
proof -
  have v: "chars v = CHR ''H'' # c # ds" "chars w = ''H''"
    using assms(1,6) by (simp_all add: payload_def)
  have sub: "substr v 2 (size_sub (length (chars v)) 2) = Val \<lparr>chars = ds, beyond = beyond v\<rparr>"
    using payload_size_sub(2) [OF assms(1), of 2] by (simp add: substr_def v)
  have "payload ds \<lparr>chars = ds, beyond = beyond v\<rparr>"
    using assms(1) by (simp add: payload_def)
  then obtain r where r: "c_str \<lparr>chars = ds, beyond = beyond v\<rparr> = ds @ CHR ''#'' # r"
    by (rule payload_c_str)
  let ?t = "\<lparr>pid = Some 1, tid = Some (sint (word_of_hex ds))\<rparr>"
  have scan: "thread_scan \<lparr>chars = ds, beyond = beyond v\<rparr> s = Some (Val ?t, s)"
    using assms(2,3) by (simp add: r scan_numeral16 scan_int_def)
  let ?s = "s\<lparr>m_operation := map_set c ?t (m_operation s)\<rparr>"
  obtain s' where s': "protocol_tx ''OK'' ?s = Some (Val (), s')" "replied ''OK'' ?s s'"
    using protocol_tx_ready [of ?s] assms(4) by auto
  have "thread v s = Some (Val (), s')"
    using s'(1) scan unfolding thread_def sub by (simp add: v)
  moreover have "thread w s = Some (Fail (Thrown OutOfRange), s)"
    by (simp add: thread_def v)
  ultimately show ?thesis
    using replied_members [OF s'(2)] by (auto simp: fun_eq_iff smap.find_put [OF assms(5)])
qed

section \<open>Verbose packets, running and breakpoints\<close>

lemma scan_actions_plain:
  "list_all (\<lambda>v. chars v \<noteq> [] \<and> CHR '':'' \<notin> set (chars v)) items \<Longrightarrow> scan_actions items s = Some (Val (), s)"
  by (induction items) auto

text \<open>
  The verbose packets.  \<open>vCont\<close> with actions without a thread starts nothing and is answered
  at once with the signal of the shadow; \<open>vCont?\<close> is answered with the list of supported actions;
  an unknown verbose packet is answered with the empty packet.
\<close>

theorem verbose_replies:
  assumes "client_ready s" and "items \<noteq> []" and "\<forall>i \<in> set items. i \<noteq> [] \<and> CHR '';'' \<notin> set i \<and> CHR '':'' \<notin> set i"
    and "chars v = ''vCont;'' @ join_with (CHR '';'') items" and "length (chars v) \<le> buffer_size"
    and "chars w = ''vCont?''" and "chars x = ''vMustReplyEmpty''"
  shows "(\<exists>s'. verbose v s = Some (Val (), s') \<and>
      replied (CHR ''T'' # format_int_02x (m_signal (core_point (m_core (m_shadow s))))) s s') \<and>
    (\<exists>s'. verbose w s = Some (Val (), s') \<and> replied ''vCont;c;C;s;S'' s s') \<and>
    (\<exists>s'. verbose x s = Some (Val (), s') \<and> replied [] s s')"
proof (intro conjI)
  let ?j = "CHR '';'' # join_with (CHR '';'') items"
  have j: "join_with (CHR '';'') ([] # items) = ?j"
    using assms(2) by (cases items) auto
  have "length ?j \<le> npos"
    using assms(4,5) by (simp add: npos_def buffer_size_def)
  then have sub: "substr v (length ''vCont'') npos = Val \<lparr>chars = ?j, beyond = beyond v\<rparr>"
    using assms(4) by (intro substr_prefix) simp_all
  have "map chars (views_split (CHR '';'') \<lparr>chars = ?j, beyond = beyond v\<rparr>) = [] # items"
    using assms(3) by (intro views_split_join) (simp_all add: j)
  then have "map chars (drop 1 (views_split (CHR '';'') \<lparr>chars = ?j, beyond = beyond v\<rparr>)) = items"
    by (simp flip: drop_map)
  then have "list_all (\<lambda>t. t \<noteq> [] \<and> CHR '':'' \<notin> set t)
      (map chars (drop 1 (views_split (CHR '';'') \<lparr>chars = ?j, beyond = beyond v\<rparr>)))"
    using assms(3) by (simp only: list_all_iff) blast
  then have scan: "scan_actions (drop 1 (views_split (CHR '';'') \<lparr>chars = ?j, beyond = beyond v\<rparr>)) s = Some (Val (), s)"
    by (intro scan_actions_plain) (simp only: list.pred_map comp_def)
  have "verbose v s = stop_reply s"
    using scan unfolding verbose_def Let_def sub by (simp add: assms(4) starts_with_def)
  then show "\<exists>s'. verbose v s = Some (Val (), s') \<and>
      replied (CHR ''T'' # format_int_02x (m_signal (core_point (m_core (m_shadow s))))) s s'"
    using protocol_tx_ready [OF assms(1)] by (simp add: stop_reply_def)
  show "\<exists>s'. verbose w s = Some (Val (), s') \<and> replied ''vCont;c;C;s;S'' s s'"
    using protocol_tx_ready [OF assms(1)] by (simp add: verbose_def assms(6))
  show "\<exists>s'. verbose x s = Some (Val (), s') \<and> replied [] s s'"
    using protocol_tx_ready [OF assms(1)] by (simp add: verbose_def assms(7) starts_with_def)
qed

text \<open>
  A breakpoint packet with a type, an address and a kind is answered with \<open>OK\<close> and inserts
  or removes nothing: the shadow with its points stays as it was, for \<open>Z\<close> and for \<open>z\<close>.
\<close>

theorem point_packets_change_nothing:
  assumes "payload (c # dt @ CHR '','' # da @ CHR '','' # dk) v" and "c = CHR ''z'' \<or> c = CHR ''Z''"
    and "numeral16 dt" and "numeral16 da" and "numeral16 dk" and "client_ready s"
  shows "\<exists>s'. point_packet v s = Some (Val (), s') \<and> sent s' = sent s @ format_packet ''OK'' \<and>
    m_shadow s' = m_shadow s \<and> heap s' = heap s"
proof -
  obtain r where r: "c_str v = c # dt @ CHR '','' # da @ CHR '','' # dk @ CHR ''#'' # r"
    using assms(1) by (rule payload_c_str) simp
  have scan: "sscanf (point_format 16) (c_str v) =
      [ChrV c, HexV (word_of_hex dt), HexV (word_of_hex da), HexV (word_of_hex dk)]"
    using assms(3-5) by (simp add: r point_format_def scan_numeral16)
  have vars: "scan_var [ChrV c, HexV a, HexV b, HexV d] 1 x = Some a"
    "scan_var [ChrV c, HexV a, HexV b, HexV d] 2 x = Some b"
    "scan_var [ChrV c, HexV a, HexV b, HexV d] 3 x = Some d" for a b d x
    by (simp_all add: scan_var_def)
  have "\<exists>t. point_remove_insert c ty (Some a) (Some k) s = Some (Val (), t) \<and> client_ready t \<and>
      m_shadow t = m_shadow s \<and> heap t = heap s \<and> sent t = sent s" for ty a k
    using assms(2,6) by (auto simp: point_remove_insert_def Let_def pointRemove_def pointInsert_def)
  then obtain t where t: "point_remove_insert c (PointType_of (sint (word_of_hex dt)))
      (Some (word_of_hex da)) (Some (word_of_hex dk)) s = Some (Val (), t)" "client_ready t"
      "m_shadow t = m_shadow s" "heap t = heap s" "sent t = sent s"
    by metis
  obtain s' where s': "protocol_tx ''OK'' t = Some (Val (), s')" "replied ''OK'' t s'"
    using protocol_tx_ready [OF t(2)] by blast
  have "point_packet v s = Some (Val (), s')"
    using t(1) s'(1) unfolding point_packet_def Let_def scan vars by simp
  with replied_members [OF s'(2)] t show ?thesis by simp
qed

section \<open>Instances\<close>

definition demo_hash :: "string \<Rightarrow> nat" where
  "demo_hash str = nat (lit2hash str)"

lemma demo_query_payloads:
  "payload (CHR ''H'' # CHR ''g'' # ''2'') (demo_view ''Hg2'')" "payload ''H'' (demo_view ''H'')"
  "payload ''1'' (demo_view ''1'')"
  "payload (CHR ''z'' # ''1'' @ CHR '','' # ''80000010'' @ CHR '','' # ''4'') (demo_view ''z1,80000010,4'')"
  by (simp_all add: payload_def demo_view_def nul_def buffer_size_def)

lemma demo_query_numerals: "numeral16 ''2''" "numeral16 ''1''" "numeral16 ''80000010''" "numeral16 ''4''"
  by code_simp+

theorem query_supported_replies_features_witness:
  "\<exists>s'. query demo_hash (demo_view ''qSupported:swbreak+;xmlRegisters=i386'') (demo_server [Chunk ''+'']) = Some (Val (), s') \<and>
    m_features_client s' = [(''swbreak'', ''+''), (''xmlRegisters'', ''=i386'')]"
proof -
  have "map client_feature [''swbreak+'', ''xmlRegisters=i386''] =
      map Val [(''swbreak'', ''+''), (''xmlRegisters'', ''=i386'')]"
    by code_simp
  from query_supported_replies_features [OF _ _ _ this, of "demo_view ''qSupported:swbreak+;xmlRegisters=i386''"
      "demo_server [Chunk ''+'']" demo_hash]
  show ?thesis
    by (auto simp: demo_view_def buffer_size_def)
qed

theorem client_feature_cases_witness:
  "client_feature (''swbreak'' @ ''+'') = Val (''swbreak'', ''+'') \<and>
   client_feature ''vContSupported'' = Fail (Thrown OutOfRange)"
  using client_feature_cases [of "CHR ''+''" "''swbreak''" "''x''"]
    client_feature_cases [of "CHR ''+''" "''vContSupported''" "''x''"]
  by (simp add: is_flag_def)

theorem no_ack_mode_starts_after_reply_witness:
  "\<exists>s'. query demo_hash (demo_view ''QStartNoAckMode'') (demo_server [Chunk ''+'']) = Some (Val (), s') \<and>
    sent s' = sent (demo_server [Chunk ''+'']) @ format_packet ''OK'' \<and> startNoAckMode (m_state s')"
  using no_ack_mode_starts_after_reply [of "demo_view ''QStartNoAckMode''" "demo_server [Chunk ''+'']" demo_hash "[]"]
  by (auto simp: demo_view_def)

text \<open>Switching the log on and reading the memory from the shadow are one command to the server.\<close>

theorem monitor_commands_indistinguishable_witness:
  "parse demo_config demo_hash (demo_view (''qRcmd,'' @ str2hex ''set remote log on'')) (demo_server [Chunk ''+'']) =
    parse demo_config demo_hash (demo_view (''qRcmd,'' @ str2hex ''set memory=shadow'')) (demo_server [Chunk ''+''])"
proof -
  have "length (str2hex ''set remote log on'') = length (str2hex ''set memory=shadow'')"
      "length (str2hex ''set remote log on'') = 34"
    by code_simp+
  with monitor_commands_indistinguishable [of "demo_view (''qRcmd,'' @ str2hex ''set remote log on'')"
      "str2hex ''set remote log on''" "demo_view (''qRcmd,'' @ str2hex ''set memory=shadow'')"
      "str2hex ''set memory=shadow''" "demo_server [Chunk ''+'']" demo_config demo_hash]
  show ?thesis
    by (simp add: demo_view_def buffer_size_def)
qed

theorem fixed_queries_reply_witness:
  "\<exists>s'. query demo_hash (demo_view ''qC'') (demo_server [Chunk ''+'']) = Some (Val (), s') \<and>
    replied ''QC1'' (demo_server [Chunk ''+'']) s'"
  by (rule fixed_queries_reply [OF _ _ demo_single_process demo_ready, of "''qC''"])
    (simp_all add: fixed_queries_def demo_view_def)

theorem thread_format_scan_witness:
  "thread_scan (demo_view ''1'') (demo_server []) = Some (Val \<lparr>pid = Some 1, tid = Some 1\<rparr>, demo_server [])"
proof (rule thread_format_scan [OF demo_single_process _ _ demo_query_payloads(3)])
  have "format_x 1 = ''1''" by code_simp
  then show "thread_format \<lparr>pid = Some 1, tid = Some 1\<rparr> (demo_server []) = Some (Val ''1'', demo_server [])"
    by simp
qed simp_all

theorem thread_sets_operation_witness:
  "\<exists>s'. thread (demo_view ''Hg2'') (demo_server [Chunk ''+'']) = Some (Val (), s') \<and>
    sent s' = sent (demo_server [Chunk ''+'']) @ format_packet ''OK''"
  using thread_sets_operation [OF demo_query_payloads(1) demo_query_numerals(1) demo_single_process demo_ready _
      demo_query_payloads(2), of "[]"]
  by auto

theorem verbose_replies_witness:
  "\<exists>s'. verbose (demo_view ''vCont;c'') (demo_server [Chunk ''+'']) = Some (Val (), s') \<and>
    replied (CHR ''T'' # format_int_02x (m_signal (core_point (m_core (fst demo_shadow))))) (demo_server [Chunk ''+'']) s'"
  using verbose_replies [OF demo_ready, of "[''c'']" "demo_view ''vCont;c''" "demo_view ''vCont?''"
      "demo_view ''vMustReplyEmpty''" "[]"]
  by (simp add: demo_view_def buffer_size_def)

theorem point_packets_change_nothing_witness:
  "\<exists>s'. point_packet (demo_view ''z1,80000010,4'') (demo_server [Chunk ''+'']) = Some (Val (), s') \<and>
    sent s' = sent (demo_server [Chunk ''+'']) @ format_packet ''OK'' \<and> m_shadow s' = fst demo_shadow"
  using point_packets_change_nothing [OF demo_query_payloads(4) _ demo_query_numerals(2,3,4) demo_ready, of "[]"]
  by auto

end
