(* ===== verification/Session.thy ===== *)
theory Session
  imports Memory_Packets Register_Packets Query_Packets
begin

text \<open>
  The dispatcher and the main loop (\<open>parse\<close> and \<open>loop\<close> in \<open>src/rsp/Protocol.hpp\<close>): what every packet
  keeps, that the handling of a packet always comes to an end, and what the loop does with
  packets, acknowledgements, corrupted packets and the end of a connection.
\<close>

named_theorems ends_intros \<open>rules that show that a program comes to an end\<close>

section \<open>The invariant of the server\<close>

text \<open>
  The dictionaries are dictionaries, the features of the server are those it was constructed with, the
  spans of the shadow lie in their arrays, and no array changes its length.
\<close>

definition members_ok :: "nat list \<Rightarrow> protocol \<Rightarrow> bool" where
  "members_ok ls s \<longleftrightarrow> m_features_server s = features_server \<and> map_inv (m_features_client s) \<and>
     map_inv (m_operation s) \<and> system_inv (m_shadow s) (heap s) \<and> map length (heap s) = ls"

definition server_inv :: "nat list \<Rightarrow> protocol \<Rightarrow> bool" where
  "server_inv ls = pk_inv (\<lambda>m. \<exists>t. packet.more t = m \<and> members_ok ls t)"

lemma server_inv_iff: "server_inv ls s \<longleftrightarrow> length (m_buffer s) = buffer_size \<and> members_ok ls s"
proof -
  have "(\<exists>t. packet.more t = packet.more s \<and> members_ok ls t) \<longleftrightarrow> members_ok ls s"
  proof
    assume "\<exists>t. packet.more t = packet.more s \<and> members_ok ls t"
    then obtain t where t: "packet.more t = packet.more s" "members_ok ls t" by blast
    then show "members_ok ls s"
      by (simp only: members_ok_def more_members [OF t(1)])
  qed blast
  then show ?thesis
    by (simp add: server_inv_def pk_inv_def)
qed

lemmas keeps_packet_layer [keeps_intros] =
  keeps_send [where J = "\<lambda>m. \<exists>t. packet.more t = m \<and> members_ok ls t", folded server_inv_def]
  keeps_recv [where J = "\<lambda>m. \<exists>t. packet.more t = m \<and> members_ok ls t", folded server_inv_def]
  keeps_print [where J = "\<lambda>m. \<exists>t. packet.more t = m \<and> members_ok ls t", folded server_inv_def]
  keeps_accept [where J = "\<lambda>m. \<exists>t. packet.more t = m \<and> members_ok ls t", folded server_inv_def]
  keeps_rx [where J = "\<lambda>m. \<exists>t. packet.more t = m \<and> members_ok ls t", folded server_inv_def]
  keeps_tx [where J = "\<lambda>m. \<exists>t. packet.more t = m \<and> members_ok ls t", folded server_inv_def]
  for ls

lemma keeps_protocol_rx [keeps_intros]: "keeps (server_inv ls) protocol_rx"
  unfolding protocol_rx_def by (intro keeps_intros)

lemma keeps_protocol_tx [keeps_intros]: "keeps (server_inv ls) (protocol_tx p)"
  unfolding protocol_tx_def by (intro keeps_intros)

lemma keeps_use_value [keeps_intros]: "keeps I (use_value x)"
  by (cases x) (simp_all add: keeps_intros)

lemma keeps_operation_at [keeps_intros]: "keeps (server_inv ls) (operation_at c)"
  by (rule keepsI) (auto simp: server_inv_iff members_ok_def touched_def)

lemma single_process_inv: "server_inv ls s \<Longrightarrow> single_process s"
  by (simp add: server_inv_iff members_ok_def single_process_def features_server_multiprocess)

lemma keeps_feature_char [keeps_intros]: "keeps (server_inv ls) (feature_char ''multiprocess'')"
proof (rule keepsI)
  fix s r s'
  assume "server_inv ls s" "feature_char ''multiprocess'' s = Some (r, s')"
  then show "server_inv ls s'"
    using feature_char_apply [OF single_process_inv] by (metis option.inject prod.inject)
qed

lemma keeps_thread_scan [keeps_intros]: "keeps (server_inv ls) (thread_scan v)"
  unfolding thread_scan_def by (intro keeps_intros)

lemma keeps_thread_format [keeps_intros]: "keeps (server_inv ls) (thread_format t)"
  unfolding thread_format_def by (intro keeps_intros)

lemma map_length_update:
  "i < length h \<Longrightarrow> length x = length (h ! i) \<Longrightarrow> map length (h[i := x]) = map length h"
  by (simp add: map_update list_update_same_conv)

lemma lengths_eq: "length h' = length h \<Longrightarrow> (\<And>a. length (h' ! a) = length (h ! a)) \<Longrightarrow> map length h' = map length h"
  by (rule nth_equalityI) simp_all

lemma keeps_write_store:
  assumes "\<And>s h. server_inv ls s \<Longrightarrow> f s = Val h \<Longrightarrow> system_inv (m_shadow s) h \<and> map length h = map length (heap s)"
  shows "keeps (server_inv ls) (write_store f)"
proof (rule keepsI)
  fix s r s'
  assume s: "server_inv ls s" and w: "write_store f s = Some (r, s')"
  show "server_inv ls s'"
  proof (cases "f s")
    case (Val h)
    with w have "s' = s\<lparr>heap := h\<rparr>"
      by (simp add: write_store_apply)
    with s assms [OF s Val] show ?thesis
      by (simp add: server_inv_iff members_ok_def)
  next
    case (Fail e)
    with w s show ?thesis
      by (simp add: write_store_apply)
  qed
qed

lemma keeps_mem_write_store [keeps_intros]:
  "keeps (server_inv ls) (write_store (\<lambda>s. system_mem_write cfg (m_shadow s) t a bs (heap s)))"
proof (rule keeps_write_store, intro conjI)
  fix s h
  assume s: "server_inv ls s" and h: "system_mem_write cfg (m_shadow s) t a bs (heap s) = Val h"
  have inv: "system_inv (m_shadow s) (heap s)"
    using s by (simp add: server_inv_iff members_ok_def)
  then show "system_inv (m_shadow s) h"
    using h by (rule system_mem_write_inv)
  have "wf_span (heap s) (m_mem (core_memory s))"
    using inv by (simp add: system_inv_def)
  then show "map length h = map length (heap s)"
    using h span_copy_lengths by (intro lengths_eq) (auto simp: system_mem_write_def mm_write_def)
qed

lemma keeps_writeAll_store [keeps_intros]:
  "keeps (server_inv ls) (write_store (\<lambda>s. reg_writeAll (m_shadow s) t bs (heap s)))"
proof (rule keeps_write_store, intro conjI)
  fix s h
  assume s: "server_inv ls s" and h: "reg_writeAll (m_shadow s) t bs (heap s) = Val h"
  have inv: "system_inv (m_shadow s) (heap s)"
    using s by (simp add: server_inv_iff members_ok_def)
  then show "system_inv (m_shadow s) h"
    using h by (rule reg_writeAll_inv)
  have "wf_span (heap s) \<lparr>sp_arr = m_all (core_registers s), sp_off = 0, sp_len = length (heap s ! m_all (core_registers s))\<rparr>"
    using inv by (simp add: system_inv_def wf_span_def)
  then show "map length h = map length (heap s)"
    using h span_copy_lengths by (intro lengths_eq) (auto simp: reg_writeAll_def writeAll_def)
qed

lemma keeps_writeOne_store [keeps_intros]:
  "keeps (server_inv ls) (write_store (\<lambda>s. reg_writeOne (m_shadow s) t i bs (heap s)))"
  by (rule keeps_write_store) (auto simp: reg_writeOne_def writeOne_def server_inv_iff members_ok_def)

lemma keeps_set_state [keeps_intros]: "keeps (server_inv ls) (modifies (\<lambda>s. s\<lparr>m_state := f (m_state s)\<rparr>))"
  by (rule keeps_modifies) (simp add: server_inv_iff members_ok_def)

lemma keeps_set_operation [keeps_intros]:
  "keeps (server_inv ls) (modifies (\<lambda>s. s\<lparr>m_operation := map_set c t (m_operation s)\<rparr>))"
  by (rule keeps_modifies) (simp add: server_inv_iff members_ok_def map_inv_set)

lemma keeps_set_feature [keeps_intros]:
  "keeps (server_inv ls) (modifies (\<lambda>s. s\<lparr>m_features_client := map_set k x (m_features_client s)\<rparr>))"
  by (rule keeps_modifies) (simp add: server_inv_iff members_ok_def map_inv_set)

lemma keeps_point_call [keeps_intros]:
  "keeps (server_inv ls) (modifies (\<lambda>s. s\<lparr>m_shadow := snd (pointInsert t ty a k (m_shadow s))\<rparr>))"
  "keeps (server_inv ls) (modifies (\<lambda>s. s\<lparr>m_shadow := snd (pointRemove t ty a k (m_shadow s))\<rparr>))"
  by (rule keeps_modifies, simp add: pointInsert_def pointRemove_def)+

lemma keeps_scan_features [keeps_intros]: "keeps (server_inv ls) (scan_features items)"
proof (induction items)
  case Nil
  show ?case unfolding scan_features.simps by (rule keeps_returns)
next
  case (Cons v items)
  then show ?case unfolding scan_features.simps by (intro keeps_intros)
qed

lemma keeps_scan_actions [keeps_intros]: "keeps (server_inv ls) (scan_actions items)"
proof (induction items)
  case Nil
  show ?case unfolding scan_actions.simps by (rule keeps_returns)
next
  case (Cons v items)
  then show ?case unfolding scan_actions.simps by (intro keeps_intros)
qed

lemma keeps_stop_reply [keeps_intros]: "keeps (server_inv ls) stop_reply"
  unfolding stop_reply_def by (intro keeps_intros)

lemma keeps_query_monitor [keeps_intros]: "keeps (server_inv ls) (query_monitor hash str)"
  unfolding query_monitor_def query_monitor_reply_def by (auto intro!: keeps_intros split: option.split)

lemma keeps_query [keeps_intros]: "keeps (server_inv ls) (query hash v)"
  unfolding query_def query_supported_def Let_def
  by (intro keeps_intros keeps_set_state [where f = "startNoAckMode_update (\<lambda>_. True)"]
      keeps_set_state [where f = "enableErrorStrings_update (\<lambda>_. True)"])

lemma keeps_verbose [keeps_intros]: "keeps (server_inv ls) (verbose v)"
  unfolding verbose_def Let_def by (intro keeps_intros)

lemma keeps_mem_read [keeps_intros]: "keeps (server_inv ls) (mem_read cfg v)"
  unfolding mem_read_def shadow_read_def Let_def by (intro keeps_intros)

lemma keeps_mem_write [keeps_intros]: "keeps (server_inv ls) (mem_write cfg v)"
  unfolding mem_write_def Let_def by (intro keeps_intros)

lemma keeps_read_span [keeps_intros]: "keeps (server_inv ls) (read_span sp)"
  unfolding read_span_def by (cases sp) (auto intro!: keeps_intros)

lemma keeps_registers [keeps_intros]:
  "keeps (server_inv ls) (reg_readall v)" "keeps (server_inv ls) (reg_writeall v)"
  "keeps (server_inv ls) (reg_readone cfg v)" "keeps (server_inv ls) (reg_writeone v)"
  unfolding reg_readall_def reg_writeall_def reg_readone_def reg_writeone_def Let_def
  by (intro keeps_intros)+

lemma keeps_point_packet [keeps_intros]: "keeps (server_inv ls) (point_packet v)"
  unfolding point_packet_def point_remove_insert_def Let_def by (intro keeps_intros)

lemma keeps_thread [keeps_intros]: "keeps (server_inv ls) (thread v)"
  unfolding thread_def by (intro keeps_intros)

lemma keeps_session [keeps_intros]:
  "keeps (server_inv ls) extended" "keeps (server_inv ls) detach" "keeps (server_inv ls) kill"
  "keeps (server_inv ls) reset" "keeps (server_inv ls) (signal v)" "keeps (server_inv ls) (run_step v)"
  "keeps (server_inv ls) (run_continue v)" "keeps (server_inv ls) (run_backward v)"
  unfolding extended_def detach_def kill_def reset_def signal_def run_step_def run_continue_def run_backward_def
  by (intro keeps_intros keeps_set_state [where f = "extendedMode_update (\<lambda>_. True)"])+

lemma keeps_parse [keeps_intros]: "keeps (server_inv ls) (parse cfg hash v)"
  unfolding parse_def by (cases "chars v") (auto intro!: keeps_intros)

lemma keeps_loop_body: "keeps (server_inv ls) (loop_body cfg hash c)"
  unfolding loop_body_def Let_def by (intro keeps_intros)

section \<open>Handling a packet comes to an end\<close>

text \<open>
  A program that returns, with or without failure, from every state in which the socket takes data,
  and leaves the socket able to take data; it waits for ever only for a client that sends nothing more, or
  for a connection when no client connects any more.
\<close>

definition unfed :: "protocol \<Rightarrow> bool" where
  "unfed s \<longleftrightarrow> rxq s = [] \<or> clients s = []"

definition ends :: "(protocol, 'a) prog \<Rightarrow> bool" where
  "ends m \<longleftrightarrow> (\<forall>s. tx_ready s \<longrightarrow>
     (\<exists>r s'. m s = Some (r, s') \<and> tx_ready s' \<and> (r = Fail Blocked \<longrightarrow> unfed s')))"

lemma endsI:
  "(\<And>s. tx_ready s \<Longrightarrow> \<exists>r s'. m s = Some (r, s') \<and> tx_ready s' \<and> (r = Fail Blocked \<longrightarrow> unfed s')) \<Longrightarrow> ends m"
  by (simp add: ends_def)

lemma endsE:
  assumes "ends m" and "tx_ready s"
  obtains r s' where "m s = Some (r, s')" "tx_ready s'" "r = Fail Blocked \<longrightarrow> unfed s'"
  using assms by (auto simp: ends_def)

lemma ends_basic [ends_intros]:
  "ends (returns a)" "e \<noteq> Blocked \<Longrightarrow> ends (fails e)" "ends (gets f)" "r \<noteq> Fail Blocked \<Longrightarrow> ends (lifts r)"
  "e \<noteq> Blocked \<Longrightarrow> ends (check b e)" "ends (use_value x)"
  by (auto simp: ends_def use_value_def split: option.split)

text \<open>No access to a view or to an array waits.\<close>

lemma no_wait [simp]:
  "substr v a n \<noteq> Fail Blocked" "client_feature str \<noteq> Fail Blocked"
  "system_mem_read cfg sys t addr n \<noteq> Fail Blocked" "system_mem_write cfg sys t addr data h \<noteq> Fail Blocked"
  "reg_writeAll sys t data h \<noteq> Fail Blocked" "reg_writeOne sys t i data h \<noteq> Fail Blocked"
  by (simp_all add: substr_def client_feature_def system_mem_read_def system_mem_write_def mm_read_def
      mm_write_def subspan_def span_copy_def reg_writeAll_def writeAll_def reg_writeOne_def writeOne_def)

lemma wild_no_wait [simp]: "v \<noteq> Fail Blocked \<Longrightarrow> wild v \<noteq> Fail Blocked"
  by (cases v) (simp_all add: wild_def)

lemma span_get_no_wait [simp]: "span_get h sp i \<noteq> Fail Blocked"
  by (simp add: span_get_def Let_def)

lemma readOne_no_wait [simp]: "reg_readOne cfg sys t i h \<noteq> Fail Blocked"
  by (simp add: reg_readOne_def readOne_def Let_def)

lemma ends_bnd [ends_intros]: "ends m \<Longrightarrow> (\<And>a. ends (f a)) \<Longrightarrow> ends (bnd m f)"
proof (rule endsI)
  fix s :: protocol
  assume m: "ends m" and f: "\<And>a. ends (f a)" and s: "tx_ready s"
  from m s obtain r s1 where r: "m s = Some (r, s1)" "tx_ready s1" "r = Fail Blocked \<longrightarrow> unfed s1"
    by (rule endsE)
  show "\<exists>r s'. bnd m f s = Some (r, s') \<and> tx_ready s' \<and> (r = Fail Blocked \<longrightarrow> unfed s')"
  proof (cases r)
    case (Val a)
    obtain r' s' where "f a s1 = Some (r', s')" "tx_ready s'" "r' = Fail Blocked \<longrightarrow> unfed s'"
      using f r(2) by (rule endsE)
    with r(1) Val show ?thesis by auto
  next
    case (Fail e)
    with r show ?thesis by auto
  qed
qed

lemma ends_seq [ends_intros]: "ends m \<Longrightarrow> ends n \<Longrightarrow> ends (seq m n)"
  unfolding seq_def by (rule ends_bnd)

lemma ends_if [ends_intros]: "(b \<Longrightarrow> ends m) \<Longrightarrow> (\<not> b \<Longrightarrow> ends n) \<Longrightarrow> ends (if b then m else n)"
  by simp

lemma ends_modifies: "(\<And>s. txq (f s) = txq s) \<Longrightarrow> ends (modifies f)"
  by (simp add: ends_def tx_ready_def)

lemma ends_members [ends_intros]:
  "ends (modifies (\<lambda>s. s\<lparr>m_state := f s\<rparr>))" "ends (modifies (\<lambda>s. s\<lparr>m_operation := g s\<rparr>))"
  "ends (modifies (\<lambda>s. s\<lparr>m_features_client := h s\<rparr>))" "ends (modifies (\<lambda>s. s\<lparr>m_shadow := i s\<rparr>))"
  "ends (modifies (\<lambda>s. s\<lparr>heap := j s\<rparr>))" "ends (print str)"
  unfolding print_def by (rule ends_modifies, simp)+

lemma ends_operation_at [ends_intros]: "ends (operation_at c)"
  by (simp add: ends_def)

lemma ends_feature_char [ends_intros]: "ends (feature_char key)"
  by (auto simp: ends_def feature_char_def split_beta Let_def)

lemma ends_recv [ends_intros]: "ends (recv n peek)"
  by (rule endsI) (auto simp: recv_def tx_ready_def unfed_def split: list.split rx_event.split)

lemma ends_os_accept [ends_intros]: "ends os_accept"
  by (rule endsI) (auto simp: os_accept_def tx_ready_def unfed_def split: list.split client.split)

lemma ends_accept [ends_intros]: "ends accept"
  unfolding accept_def acceptTcp_def acceptUnix_def
  by (intro ends_intros; auto intro!: ends_intros split: client.split bool.split)

lemma ends_tx [ends_intros]: "ends (Packet.tx p ack)"
proof (rule endsI)
  fix s :: protocol
  assume s: "tx_ready s"
  let ?k = "if ack then
      bnd (recv 1 False) (\<lambda>a.
         if a = [] then fails (Undefined Uninitialized)
         else if a = NACK then fails (Thrown (RuntimeError ''Received NACK.''))
         else returns ()) else returns ()"
  obtain q where q: "Packet.tx p ack s =
      ?k (s\<lparr>cout := cout s @ ''REMOTE: -> '' @ p @ newline, sent := sent s @ format_packet p, txq := q\<rparr>)"
      "tx_ready (s\<lparr>txq := q\<rparr>)"
    using tx_packet [OF s] by blast
  have "ends ?k"
    by (intro ends_intros; simp)
  moreover have "tx_ready (s\<lparr>cout := cout s @ ''REMOTE: -> '' @ p @ newline, sent := sent s @ format_packet p, txq := q\<rparr>)"
    using q(2) by (simp add: tx_ready_def)
  ultimately show "\<exists>r s'. Packet.tx p ack s = Some (r, s') \<and> tx_ready s' \<and> (r = Fail Blocked \<longrightarrow> unfed s')"
    unfolding q(1) ends_def by blast
qed

lemma ends_protocol_tx [ends_intros]: "ends (protocol_tx p)"
  unfolding protocol_tx_def by (intro ends_intros; simp)

text \<open>A read of the state whose result may be a failure.\<close>

lemma ends_lifted:
  assumes "\<And>s. f s \<noteq> Fail Blocked" and "\<And>x. ends (k x)"
  shows "ends (bnd (gets f) (\<lambda>r. bnd (lifts r) k))"
proof (rule endsI)
  fix s :: protocol
  assume s: "tx_ready s"
  have "ends (bnd (lifts (f s)) k)"
    using assms by (intro ends_intros) simp_all
  with s show "\<exists>r s'. bnd (gets f) (\<lambda>r. bnd (lifts r) k) s = Some (r, s') \<and> tx_ready s' \<and> (r = Fail Blocked \<longrightarrow> unfed s')"
    by (simp add: ends_def)
qed

lemma ends_write_store [ends_intros]: "(\<And>s. f s \<noteq> Fail Blocked) \<Longrightarrow> ends (write_store f)"
  unfolding write_store_def by (rule ends_lifted) (simp_all add: ends_intros)

lemma ends_shadow_read [ends_intros]: "ends (shadow_read cfg addr n)"
  unfolding shadow_read_def by (rule ends_bnd, rule ends_intros, rule ends_lifted) (simp_all add: ends_intros)

lemma ends_threads [ends_intros]: "ends (thread_scan v)" "ends (thread_format t)"
  unfolding thread_scan_def thread_format_def by (intro ends_intros; simp)+

lemma ends_scan_features [ends_intros]: "ends (scan_features items)"
proof (induction items)
  case Nil
  show ?case unfolding scan_features.simps by (intro ends_intros; simp)
next
  case (Cons v items)
  then show ?case unfolding scan_features.simps by (intro ends_intros; simp)
qed

lemma ends_scan_actions [ends_intros]: "ends (scan_actions items)"
proof (induction items)
  case Nil
  show ?case unfolding scan_actions.simps by (intro ends_intros; simp)
next
  case (Cons v items)
  then show ?case unfolding scan_actions.simps by (intro ends_intros; simp)
qed

lemma ends_handlers [ends_intros]:
  "ends (mem_read cfg v)" "ends (mem_write cfg v)" "ends (reg_readall v)" "ends (reg_writeall v)"
  "ends (reg_writeone v)" "ends (thread v)" "ends (signal v)" "ends (run_step v)" "ends (run_continue v)"
  "ends (run_backward v)" "ends (verbose v)" "ends (point_packet v)" "ends extended" "ends reset" "ends detach" "ends kill"
  unfolding mem_read_def mem_write_def reg_readall_def reg_writeall_def reg_writeone_def thread_def signal_def
    run_step_def run_continue_def run_backward_def verbose_def point_packet_def extended_def reset_def detach_def
    kill_def stop_reply_def point_remove_insert_def Let_def
  by (intro ends_intros; simp)+

lemma ends_reg_readone [ends_intros]: "ends (reg_readone cfg v)"
proof -
  have read: "ends (read_span sp)" for sp
    unfolding read_span_def by (cases sp) (simp_all add: ends_intros)
  show ?thesis
    unfolding reg_readone_def Let_def
    by (rule ends_bnd, rule ends_intros, rule ends_bnd, rule ends_intros, rule ends_lifted)
      (simp_all add: ends_intros read)
qed

lemma ends_query [ends_intros]: "ends (query hash v)"
proof -
  have "ends (query_monitor hash str)" for str
    unfolding query_monitor_def query_monitor_reply_def by (auto intro!: ends_intros split: option.split)
  then show ?thesis
    unfolding query_def query_supported_def Let_def by (intro ends_intros; simp)
qed

lemma ends_parse: "ends (parse cfg hash v)"
  unfolding parse_def by (cases "chars v") (simp_all add: ends_intros)

section \<open>Rounds of the loop\<close>

text \<open>
  One round of the main loop as a step from the last character seen and the state of the server.
\<close>

inductive serves :: "32 word config \<Rightarrow> (string \<Rightarrow> nat) \<Rightarrow> char \<times> protocol \<Rightarrow> char \<times> protocol \<Rightarrow> bool"
  for cfg hash where
  round: "loop_body cfg hash c s = Some (Val c', s') \<Longrightarrow> serves cfg hash (c, s) (c', s')"

inductive_cases servesE: "serves cfg hash (c, s) (c', s')"
inductive_simps serves_iff: "serves cfg hash (c, s) (c', s')"

lemma run_loop_serves: "serves cfg hash (c, s) (c', s') \<Longrightarrow> run_loop cfg hash c s = run_loop cfg hash c' s'"
  by (erule servesE) (subst run_loop.simps, simp)

lemma run_loop_star:
  "(serves cfg hash)\<^sup>*\<^sup>* x y \<Longrightarrow> run_loop cfg hash (fst x) (snd x) = run_loop cfg hash (fst y) (snd y)"
proof (induction rule: rtranclp_induct)
  case base
  then show ?case by simp
next
  case (step y z)
  then show ?case
    using run_loop_serves [of cfg hash "fst y" "snd y" "fst z" "snd z"] by simp
qed

lemma serves_keeps: "serves cfg hash x y \<Longrightarrow> server_inv ls (snd x) \<Longrightarrow> server_inv ls (snd y)"
  by (cases x; cases y) (auto simp: serves_iff dest: keepsD [OF keeps_loop_body])

lemma loop_body_packet:
  assumes "rxq s = Chunk (CHR ''$'' # x) # q"
  shows "loop_body cfg hash c s = bnd protocol_rx (\<lambda>packet. seq (parse cfg hash packet) (returns (CHR ''$''))) s"
proof -
  have "recv 1 True s = Some (Val ''$'', s)"
    using assms by (simp add: recv_def)
  then show ?thesis
    by (simp add: loop_body_def)
qed

lemma delivers_first:
  assumes "delivers s (CHR ''$'' # w) ds"
  shows "\<exists>x q. rxq s = Chunk (CHR ''$'' # x) # q"
proof -
  obtain cs where cs: "rx_pending s = cs @ ds" "concat cs = CHR ''$'' # w" "cs \<noteq> []" "[] \<notin> set cs"
    using assms by (auto simp: delivers_def)
  then obtain c cs' where c: "cs = c # cs'" "c \<noteq> []" by (cases cs) auto
  then obtain x where "c = CHR ''$'' # x"
    using cs(2) by (cases c) auto
  then show ?thesis
    using cs(1) c chunks_ConsD [of "rxq s" c "cs' @ ds"] by (auto simp: rx_pending_def)
qed

lemma rx_keeps_members:
  fixes s :: protocol
  assumes "Packet.rx ack s = Some (r, s')" and "length (m_buffer s) = buffer_size"
  shows "packet.more s' = packet.more s"
proof -
  have "pk_inv (\<lambda>m. m = packet.more s) s"
    using assms(2) by (simp add: pk_inv_def)
  from keepsD [OF keeps_rx assms(1) this] show ?thesis
    by (simp add: pk_inv_def)
qed

lemma loop_body_serves:
  assumes "delivers s (format_packet p) ds" and "CHR ''#'' \<notin> set p" and "nul \<notin> set p"
    and "length p + 4 \<le> buffer_size" and "length (m_buffer s) = buffer_size" and "tx_ready s"
  shows "\<exists>v s1. payload p v \<and> loop_body cfg hash c s = seq (parse cfg hash v) (returns (CHR ''$'')) s1 \<and>
    sent s1 = sent s @ (if startNoAckMode (m_state s) then [] else ACK) \<and> rx_pending s1 = ds \<and>
    tx_ready s1 \<and> packet.more s1 = packet.more s"
proof -
  let ?ack = "\<not> startNoAckMode (m_state s)"
  obtain v r s1 where v: "Packet.rx ?ack s = Some (Val v, s1)" "chars v = p" "beyond v = CHR ''#'' # r"
      "sent s1 = sent s @ (if ?ack then ACK else [])" "rx_pending s1 = ds" "tx_ready s1"
    using rx_accepts [OF assms(1,2,4-6)] by blast
  have "delivers s (CHR ''$'' # p @ CHR ''#'' # format_02x (checksum p)) ds"
    using assms(1) by (simp add: format_packet_def)
  then obtain x q where "rxq s = Chunk (CHR ''$'' # x) # q"
    using delivers_first by blast
  then have "loop_body cfg hash c s = bnd protocol_rx (\<lambda>packet. seq (parse cfg hash packet) (returns (CHR ''$''))) s"
    by (rule loop_body_packet)
  also have "\<dots> = seq (parse cfg hash v) (returns (CHR ''$'')) s1"
    using v(1) by (simp add: protocol_rx_def)
  finally have "loop_body cfg hash c s = seq (parse cfg hash v) (returns (CHR ''$'')) s1" .
  moreover have "payload p v"
    using v(2,3) assms(3,4) by (simp add: payload_def)
  ultimately show ?thesis
    using v(4-6) rx_keeps_members [OF v(1) assms(5)] by (intro exI [of _ v] exI [of _ s1]) simp
qed

lemma client_ready_pending:
  assumes "tx_ready s" and "startNoAckMode (m_state s) \<or> rx_pending s = (a # x) # ds \<and> [a] \<noteq> NACK"
  shows "client_ready s"
  using assms chunks_ConsD [of "rxq s" "a # x" ds] by (auto simp: client_ready_def rx_pending_def)

lemma after_ack_pending:
  "startNoAckMode (m_state s) \<Longrightarrow> chunks (after_ack s) = rx_pending s"
  "rx_pending s = (a # x) # ds \<Longrightarrow> \<not> startNoAckMode (m_state s) \<Longrightarrow>
    chunks (after_ack s) = (if x = [] then ds else x # ds)"
proof -
  assume s: "rx_pending s = (a # x) # ds" "\<not> startNoAckMode (m_state s)"
  define q where "q = after_chunks (rxq s)"
  have "rxq s = Chunk (a # x) # map Chunk ds @ q" "chunks q = []"
    using s(1) chunks_ConsD [of "rxq s" "a # x" ds] by (simp_all add: rx_pending_def q_def chunks_after_chunks)
  with s(2) show "chunks (after_ack s) = (if x = [] then ds else x # ds)"
    by (simp add: after_ack_def chunks_append)
qed (simp add: after_ack_def rx_pending_def)

lemma run_loop_fails:
  "loop_body cfg hash c s = Some (Fail e, s') \<Longrightarrow> run_loop cfg hash c s = Some (Fail e, s')"
  by (subst run_loop.simps) simp

lemma loop_no_value: "loop cfg hash s \<noteq> Some (Val (), s')"
proof -
  have "y \<noteq> (Val (), s')" if "run_loop cfg hash c t = Some y" for c t y
  proof (rule run_loop.raw_induct [where P = "\<lambda>cfg hash c s y. fst y \<noteq> Val ()", OF _ that, THEN contrapos_nn])
    fix f cfg hash c y and t :: protocol
    assume IH: "\<And>cfg hash c s y. f cfg hash c s = Some y \<Longrightarrow> fst y \<noteq> Val ()"
      and eq: "bnd (loop_body cfg hash c) (\<lambda>c s1. f cfg hash c s1) t = Some y"
    obtain r u where y: "y = (r, u)" by fastforce
    from eq [unfolded y] show "fst y \<noteq> Val ()"
    proof (cases rule: bnd_SomeE)
      case (val a s1)
      from IH [OF val(2)] y show ?thesis by simp
    qed (simp add: y)
  qed simp
  then show ?thesis
    by (auto simp: loop_def print_def)
qed

section \<open>Properties\<close>

text \<open>
  Property C3: no packet keeps \<open>parse\<close> busy for ever.  Whatever the packet, as long as the socket takes
  data, \<open>parse\<close> makes finitely many steps and then returns, throws, exits or leaves defined behaviour, or it
  waits for the outside: in \<open>recv\<close> when the client has sent everything it will send and the
  acknowledgement is not among it, or in \<open>accept\<close> when no further client connects.  It waits for
  nothing else.
\<close>

theorem parse_comes_to_an_end:
  assumes "tx_ready s"
  shows "\<exists>r s'. parse cfg hash v s = Some (r, s') \<and> tx_ready s' \<and>
    (r = Fail Blocked \<longrightarrow> rxq s' = [] \<or> clients s' = [])"
  using endsE [OF ends_parse assms, unfolded unfed_def] by blast

text \<open>
  Property C2: the invariant of the server.  From the state that the constructor leaves, however many
  rounds the loop runs and whatever packets arrive, the dictionaries stay dictionaries, the
  features of the server do not change, the spans of the shadow stay inside their arrays and no
  array and not the receive buffer changes its length.
\<close>

theorem reachable_server_inv:
  assumes "system_inv shadow (heap s0)" and "length (m_buffer s0) = buffer_size"
    and "Protocol_members st shadow s0 = Some (Val (), s)" and "(serves cfg hash)\<^sup>*\<^sup>* (c, s) (c', s')"
  shows "server_inv (map length (heap s)) s'"
proof -
  obtain sys h where copy: "system_copy shadow (heap s0) = (sys, h)" by fastforce
  have "server_inv (map length (heap s)) s"
    using assms(2,3) copy system_copy_inv [OF assms(1) copy]
    by (auto simp: Protocol_members_def server_inv_iff members_ok_def)
  moreover have "server_inv (map length (heap s)) (snd y)"
    if "(serves cfg hash)\<^sup>*\<^sup>* x y" "server_inv (map length (heap s)) (snd x)" for x y
    using that by (induction rule: rtranclp_induct) (auto dest: serves_keeps)
  ultimately show ?thesis
    using assms(4) by fastforce
qed

text \<open>
  Property C1: a packet from the wire to the wire.  When a memory read packet is delivered to the waiting
  loop in pieces of which the first has at least three bytes and the last ends where the packet ends,
  and the target memory is read from the shadow, one round of the loop receives it and answers it with the bytes of
  the memory.  In acknowledge mode it sends a plus sign before the answer and consumes one byte, the client's
  plus sign (or anything but a minus sign), after it; in no-acknowledge mode it sends the answer alone and consumes nothing.  The loop then waits for
  the next packet with the memory, the shadow and the state unchanged.
\<close>

theorem session_reads_memory:
  assumes "delivers s (format_packet (CHR ''m'' # da @ CHR '','' # dn)) ds"
    and "numeral16 da" and "numeral16 dn" and "length (m_buffer s) = buffer_size" and "tx_ready s"
    and "startNoAckMode (m_state s) \<or> ds = (a # x) # ds' \<and> [a] \<noteq> NACK" and "\<not> dut_memory (m_state s)"
    and "mm_rd (cfg_core cfg) (core_memory s, heap s) (word_of_hex da) (unat (word_of_hex dn)) = Val bs"
  shows "\<exists>s'. serves cfg hash (c, s) (CHR ''$'', s') \<and>
    sent s' = sent s @ (if startNoAckMode (m_state s) then [] else ACK) @ format_packet (bin2hex bs) \<and>
    rx_pending s' = (if startNoAckMode (m_state s) then ds else if x = [] then ds' else x # ds') \<and>
    heap s' = heap s \<and> m_shadow s' = m_shadow s \<and> m_state s' = m_state s"
proof -
  let ?p = "CHR ''m'' # da @ CHR '','' # dn"
  have hex: "list_all is_hex da" "list_all is_hex dn"
    using assms(2,3) by (simp_all add: numeral16_def)
  then have hash: "CHR ''#'' \<notin> set ?p" and nul: "nul \<notin> set ?p"
    using not_hex_hash(1) hex_not_special(6) by (auto simp: list_all_iff nul_def)
  have len: "length ?p + 4 \<le> buffer_size"
    using assms(2,3) by (simp add: numeral16_def buffer_size_def)
  obtain v s1 where v: "payload ?p v" "loop_body cfg hash c s = seq (parse cfg hash v) (returns (CHR ''$'')) s1"
      "sent s1 = sent s @ (if startNoAckMode (m_state s) then [] else ACK)" "rx_pending s1 = ds"
      "tx_ready s1" "packet.more s1 = packet.more s"
    using loop_body_serves [OF assms(1) hash nul len assms(4,5)] by blast
  note m = more_members [OF v(6)]
  have "client_ready (touched (CHR ''m'') s1)"
    using client_ready_pending [OF v(5)] assms(6) v(4) m(1) by auto
  then obtain s' where s': "protocol_tx (bin2hex bs) (touched (CHR ''m'') s1) = Some (Val (), s')"
      "replied (bin2hex bs) (touched (CHR ''m'') s1) s'"
    using protocol_tx_ready by blast
  have "parse cfg hash v s1 = mem_read cfg v s1"
    using v(1) by (simp add: parse_def payload_def)
  also have "\<dots> = Some (Val (), s')"
    using assms(7,8) s'(1) m by (simp add: mem_read_apply [OF v(1) assms(2,3)])
  finally have "serves cfg hash (c, s) (CHR ''$'', s')"
    using v(2) by (simp add: serves_iff)
  moreover have "rx_pending s' = (if startNoAckMode (m_state s) then ds else if x = [] then ds' else x # ds')"
    using replied_members(9) [OF s'(2)] after_ack_pending [of s1] assms(6) v(4) m(1)
    by (auto simp: rx_pending_def)
  ultimately show ?thesis
    using replied_members [OF s'(2)] v(3) m by auto
qed


text \<open>
  Property C40: the end of the connection.  When the client has closed it, the loop never ends if the last
  character seen was a plus sign, because that character is not refreshed and is taken for an
  acknowledgement again and again; otherwise \<open>rx\<close> reads outside its buffer.
\<close>

theorem hangup_ends_badly:
  assumes "rxq s = Hangup # q"
  shows "run_loop cfg hash (CHR ''+'') s = None \<and>
    (c \<noteq> CHR ''+'' \<longrightarrow> (\<exists>s'. run_loop cfg hash c s = Some (Fail (Undefined OutOfBounds), s')))"
proof
  have spin: "loop_body cfg hash (CHR ''+'') t = Some (Val (CHR ''+''), t)" if "rxq t = Hangup # q" for cfg hash t
    using that by (simp add: loop_body_def recv_def)
  have "\<not> (c = CHR ''+'' \<and> rxq t = Hangup # q)" if "run_loop cfg hash c t = Some y" for c t y
  proof (rule run_loop.raw_induct [where P = "\<lambda>cfg hash c t y. \<not> (c = CHR ''+'' \<and> rxq t = Hangup # q)", OF _ that])
    fix f cfg hash c y and t :: protocol
    assume IH: "\<And>cfg hash c t y. f cfg hash c t = Some y \<Longrightarrow> \<not> (c = CHR ''+'' \<and> rxq t = Hangup # q)"
      and eq: "bnd (loop_body cfg hash c) (\<lambda>c s1. f cfg hash c s1) t = Some y"
    show "\<not> (c = CHR ''+'' \<and> rxq t = Hangup # q)"
    proof
      assume "c = CHR ''+'' \<and> rxq t = Hangup # q"
      with eq spin have "f cfg hash (CHR ''+'') t = Some y" by simp
      with IH \<open>c = CHR ''+'' \<and> rxq t = Hangup # q\<close> show False by blast
    qed
  qed
  then show "run_loop cfg hash (CHR ''+'') s = None"
    using assms by (cases "run_loop cfg hash (CHR ''+'') s") blast+
  show "c \<noteq> CHR ''+'' \<longrightarrow> (\<exists>s'. run_loop cfg hash c s = Some (Fail (Undefined OutOfBounds), s'))"
  proof
    assume c: "c \<noteq> CHR ''+''"
    obtain s' where "Packet.rx (\<not> startNoAckMode (m_state s)) s = Some (Fail (Undefined OutOfBounds), s')"
      using rx_short_read assms by blast
    then have "loop_body cfg hash c s = Some (Fail (Undefined OutOfBounds), s')"
      using c assms by (simp add: loop_body_def recv_def protocol_rx_def)
    from run_loop_fails [OF this] show "\<exists>s'. run_loop cfg hash c s = Some (Fail (Undefined OutOfBounds), s')"
      by blast
  qed
qed

text \<open>
  Packets that ask the target to run, step, go backwards or reset are accepted silently: no
  reply of any kind is sent and nothing changes, so the client waits for an answer that never comes.
\<close>

theorem run_packets_are_not_answered:
  assumes "chars v = k # args" and "k \<in> set ''sScCbR''"
  shows "parse cfg hash v s = Some (Val (), s)"
  using assms by (auto simp: parse_def run_step_def run_continue_def run_backward_def reset_def)

text \<open>
  Every packet whose first character is none of the supported commands is answered with
  the empty packet, as the protocol demands, and changes nothing.
\<close>

theorem unsupported_packets_reply_empty:
  assumes "chars v = k # args" and "k \<notin> set ''mMgGpPH?sScCbQqvzZ!RDk''" and "client_ready s"
  shows "\<exists>s'. parse cfg hash v s = Some (Val (), s') \<and> replied [] s s'"
  using protocol_tx_ready [OF assms(3)] assms(1,2) by (auto simp: parse_def)

text \<open>
  Leaving a session.  \<open>k\<close> ends the program with status 0 without an answer.  \<open>D\<close> is answered
  with \<open>OK\<close> and the server goes on with the next client; the state of the session is not reset, so
  a mode without acknowledgements that the old client has started holds for the new one.
\<close>

theorem kill_and_detach:
  assumes "client_ready s" and "clients s = Client fd True input # cs" and "0 \<le> fd"
    and "chars v = ''k''" and "chars w = ''D''"
  shows "parse cfg hash v s = Some (Fail (Exited 0), s) \<and>
    (\<exists>s'. parse cfg hash w s = Some (Val (), s') \<and> sent s' = sent s @ format_packet ''OK'' \<and>
      rxq s' = input \<and> clients s' = cs \<and> m_clientFd s' = fd \<and> m_state s' = m_state s)"
proof
  show "parse cfg hash v s = Some (Fail (Exited 0), s)"
    using assms(4) by (simp add: parse_def kill_def)
  obtain t where t: "protocol_tx ''OK'' s = Some (Val (), t)" "replied ''OK'' s t"
    using protocol_tx_ready [OF assms(1)] by blast
  have "clients t = Client fd True input # cs"
    using t(2) assms(2) by (simp add: replied_def)
  then have "\<exists>s'. accept (t\<lparr>cout := o'\<rparr>) = Some (Val (), s') \<and> sent s' = sent t \<and> rxq s' = input \<and> clients s' = cs \<and>
      m_clientFd s' = fd \<and> m_state s' = m_state t" for o'
    using assms(3) by (simp add: accept_def acceptTcp_def acceptUnix_def os_accept_def print_def bnd_def seq_def)
  then show "\<exists>s'. parse cfg hash w s = Some (Val (), s') \<and> sent s' = sent s @ format_packet ''OK'' \<and>
      rxq s' = input \<and> clients s' = cs \<and> m_clientFd s' = fd \<and> m_state s' = m_state s"
    using t(1) replied_members(1,8) [OF t(2)] assms(5) by (simp add: parse_def detach_def print_def)
qed

section \<open>Instances\<close>

theorem parse_comes_to_an_end_witness:
  "\<exists>r s'. parse demo_config demo_hash (demo_view ''vCont;c'') (demo_server [Hangup]) = Some (r, s') \<and> tx_ready s' \<and>
    (r = Fail Blocked \<longrightarrow> rxq s' = [] \<or> clients s' = [])"
  by (rule parse_comes_to_an_end) simp

text \<open>
  A round that the loop really runs: the query \<open>qSupported\<close> arrives in two pieces, its features
  are entered into the dictionary and the answer is acknowledged.
\<close>

definition demo_query :: string where
  "demo_query = ''qSupported:swbreak+;xmlRegisters=i386''"

definition demo_wire :: "rx_event list" where
  "demo_wire = [Chunk (take 10 (format_packet demo_query)), Chunk (drop 10 (format_packet demo_query)), Chunk ''+'']"

lemma demo_round:
  assumes "rxq s = demo_wire" and "length (m_buffer s) = buffer_size" and "tx_ready s"
    and "\<not> startNoAckMode (m_state s)" and "m_features_server s = features_server" and "m_features_client s = []"
  shows "\<exists>s'. serves cfg hash (nul, s) (CHR ''$'', s') \<and>
    m_features_client s' = [(''swbreak'', ''+''), (''xmlRegisters'', ''=i386'')]"
proof -
  let ?items = "[''swbreak+'', ''xmlRegisters=i386'']"
  have long: "length (format_packet demo_query) = 41" "length demo_query = 37"
    by (simp_all add: demo_query_def format_packet_def)
  have "drop 10 (format_packet demo_query) \<noteq> []" "take 10 (format_packet demo_query) \<noteq> []"
    using long(1) by (simp_all only: drop_eq_Nil take_eq_Nil flip: length_0_conv) simp_all
  then have delivery: "delivers s (format_packet demo_query) [''+'']"
    using assms(1) long
    by (intro deliversI [where cs = "[take 10 (format_packet demo_query), drop 10 (format_packet demo_query)]"])
      (simp_all add: rx_pending_def demo_wire_def)
  have plain: "CHR ''#'' \<notin> set demo_query" "nul \<notin> set demo_query" "length demo_query + 4 \<le> buffer_size"
    by (simp_all add: demo_query_def nul_def buffer_size_def)
  obtain v s1 where v: "payload demo_query v" "loop_body cfg hash nul s = seq (parse cfg hash v) (returns (CHR ''$'')) s1"
      "rx_pending s1 = [''+'']" "tx_ready s1" "packet.more s1 = packet.more s"
    using loop_body_serves [OF delivery plain(1,2) _ assms(2,3), of cfg hash nul] plain(3) by blast
  note m = more_members [OF v(5)]
  have ready: "client_ready s1"
    using client_ready_pending [OF v(4), of "CHR ''+''" "[]" "[]"] v(3) by (simp add: NACK_def)
  have kvs: "map client_feature ?items = map Val [(''swbreak'', ''+''), (''xmlRegisters'', ''=i386'')]"
    by code_simp
  have qtext: "chars v = ''qSupported:'' @ join_with (CHR '';'') ?items" "length (chars v) \<le> buffer_size"
    using v(1) by (simp_all add: payload_def demo_query_def buffer_size_def)
  obtain s' where s': "query hash v s1 = Some (Val (), s')"
      "m_features_client s' = foldl (\<lambda>m kv. map_set (fst kv) (snd kv) m) (m_features_client s1)
        [(''swbreak'', ''+''), (''xmlRegisters'', ''=i386'')]"
    using query_supported_replies_features [OF qtext(1) _ _ kvs _ ready qtext(2), of hash] m(2) assms(5) by auto
  have "parse cfg hash v s1 = query hash v s1"
    using qtext(1) by (simp add: parse_def)
  with v(2) s' m(3) assms(6) show ?thesis
    by (auto simp: serves_iff)
qed

theorem reachable_server_inv_witness:
  "\<exists>s s'. Protocol_members demo_state (fst demo_shadow) (demo_server demo_wire) = Some (Val (), s) \<and>
    serves demo_config demo_hash (nul, s) (CHR ''$'', s') \<and>
    m_features_client s' = [(''swbreak'', ''+''), (''xmlRegisters'', ''=i386'')] \<and> m_features_client s = [] \<and>
    server_inv (map length (heap s)) s'"
proof -
  obtain sys h where c: "system_copy (fst demo_shadow) (snd demo_shadow) = (sys, h)" by fastforce
  then obtain s where s: "Protocol_members demo_state (fst demo_shadow) (demo_server demo_wire) = Some (Val (), s)"
      "rxq s = demo_wire" "length (m_buffer s) = buffer_size" "tx_ready s" "\<not> startNoAckMode (m_state s)"
      "m_features_server s = features_server" "m_features_client s = []"
    by (simp add: Protocol_members_def)
  obtain s' where s': "serves demo_config demo_hash (nul, s) (CHR ''$'', s')"
      "m_features_client s' = [(''swbreak'', ''+''), (''xmlRegisters'', ''=i386'')]"
    using demo_round [OF s(2-7)] by blast
  have "system_inv (fst demo_shadow) (heap (demo_server demo_wire))"
    unfolding demo_server_simps by (rule demo_system_inv)
  from reachable_server_inv [OF this _ s(1) r_into_rtranclp [where r = "serves demo_config demo_hash", OF s'(1)]]
  show ?thesis
    using s(1,7) s' by auto
qed

theorem session_reads_memory_witness:
  "\<exists>bs s'. serves demo_config demo_hash
      (nul, demo_server [Chunk (format_packet ''m80000004,2''), Chunk ''+'']) (CHR ''$'', s') \<and>
    sent s' = ''+'' @ format_packet (bin2hex bs) \<and> rx_pending s' = [] \<and> length bs = unat (word_of_hex ''2'')"
proof -
  let ?s = "demo_server [Chunk (format_packet ''m80000004,2''), Chunk ''+'']"
  have "delivers ?s (format_packet (CHR ''m'' # ''80000004'' @ CHR '','' # ''2'')) [''+'']"
    by (rule deliversI [where cs = "[format_packet ''m80000004,2'']"])
      (simp_all add: rx_pending_def, simp_all add: format_packet_def)
  moreover obtain bs where bs: "mm_rd (cfg_core demo_config) (core_memory ?s, heap ?s)
      (word_of_hex ''80000004'') (unat (word_of_hex ''2'')) = Val bs" "length bs = unat (word_of_hex ''2'')"
    using mm_rd_covered [OF demo_covers_server demo_in_range] by auto
  ultimately have "\<exists>s'. serves demo_config demo_hash (nul, ?s) (CHR ''$'', s') \<and>
      sent s' = sent ?s @ (if startNoAckMode (m_state ?s) then [] else ACK) @ format_packet (bin2hex bs) \<and>
      rx_pending s' = (if startNoAckMode (m_state ?s) then [''+''] else if [] = ([] :: string) then [] else [] # []) \<and>
      heap s' = heap ?s \<and> m_shadow s' = m_shadow ?s \<and> m_state s' = m_state ?s"
    by (intro session_reads_memory [OF _ demo_numerals(1,2), where a = "CHR ''+''" and x = "[]" and ds' = "[]"])
      (simp_all add: NACK_def)
  then show ?thesis
    using bs(2) by (auto simp: ACK_def)
qed


theorem hangup_ends_badly_witness: "run_loop demo_config demo_hash (CHR ''+'') (demo_server [Hangup]) = None"
  using hangup_ends_badly [of "demo_server [Hangup]" "[]"] by simp

theorem run_packets_are_not_answered_witness:
  "parse demo_config demo_hash (demo_view ''c'') (demo_server []) = Some (Val (), demo_server [])"
  by (rule run_packets_are_not_answered [of _ "CHR ''c''" "[]"]) (simp_all add: demo_view_def)

theorem unsupported_packets_reply_empty_witness:
  "\<exists>s'. parse demo_config demo_hash (demo_view ''X0,0:'') (demo_server [Chunk ''+'']) = Some (Val (), s') \<and>
    replied [] (demo_server [Chunk ''+'']) s'"
  by (rule unsupported_packets_reply_empty [of _ "CHR ''X''" "''0,0:''"]) (simp_all add: demo_view_def)

theorem kill_and_detach_witness:
  "\<exists>s'. parse demo_config demo_hash (demo_view ''D'')
      ((demo_server [Chunk ''+''])\<lparr>clients := [Client 5 True [Chunk ''$g#67'']]\<rparr>) = Some (Val (), s') \<and>
    rxq s' = [Chunk ''$g#67''] \<and> m_state s' = demo_state"
proof -
  have "client_ready ((demo_server [Chunk ''+''])\<lparr>clients := [Client 5 True [Chunk ''$g#67'']]\<rparr>)"
    using demo_ready [of "[]"] by (simp add: client_ready_def tx_ready_def)
  from kill_and_detach [OF this, of 5 "[Chunk ''$g#67'']" "[]" "demo_view ''k''" "demo_view ''D''" demo_config demo_hash]
  show ?thesis by (auto simp: demo_view_def)
qed

end
