(* ===== verification/Hdldb.thy ===== *)
theory Hdldb
  imports Session
begin

text \<open>
  The program (\<open>src/hdldb.cpp\<close>): command line, construction of the shadow and of the server, and the main
  loop.  What the option parser makes of the command line is a parameter, the record \<open>cli\<close>: how
  often an option occurs, and for each conversion either the value or the text of the exception.
\<close>

record cli =
  parse_error :: "string option"
  help_count :: nat
  help_output :: string
  port_count :: nat
  port_value :: "string + 16 word"
  socket_value :: "string + string"

section \<open>Exceptions\<close>

text \<open>A handler for \<open>std::exception\<close>; every exception of the model is one.\<close>

definition try_catch :: "('s, 'a) prog \<Rightarrow> (exn \<Rightarrow> ('s, 'a) prog) \<Rightarrow> ('s, 'a) prog" where
  "try_catch m handler s = (case m s of
      Some (Fail (Thrown e), s') \<Rightarrow> handler e s'
    | r \<Rightarrow> r)"

text \<open>An exception that leaves \<open>main\<close> ends the program through \<open>std::terminate\<close>.\<close>

definition uncaught :: "('s, 'a) prog \<Rightarrow> ('s, 'a) prog" where
  "uncaught m = try_catch m (\<lambda>e. fails Terminated)"

section \<open>The program\<close>

definition new_shadow :: "(protocol, shadow) prog" where
  "new_shadow s = (let (sys, h) = system_new 4 4 4 ConfigHdlDb (heap s) in Some (Val sys, s\<lparr>heap := h\<rparr>))"

text \<open>The shadow is passed to the constructor by value.\<close>

definition copy_shadow :: "shadow \<Rightarrow> (protocol, shadow) prog" where
  "copy_shadow shadow s = (let (sys, h) = system_copy shadow (heap s) in Some (Val sys, s\<lparr>heap := h\<rparr>))"

definition convert :: "string + 'a \<Rightarrow> (protocol, 'a) prog" where
  "convert x = (case x of Inl what \<Rightarrow> fails (Thrown (RuntimeError what)) | Inr v \<Rightarrow> returns v)"

definition format_port :: "16 word \<Rightarrow> string" where
  "format_port port = format_nat_d (unat port)"

text \<open>
  The part of \<open>main\<close> inside \<open>try\<close>: \<open>Some n\<close> when \<open>main\<close> returns \<open>n\<close> there, \<open>None\<close> when the server is set up.
\<close>

definition setup_server :: "cli \<Rightarrow> os_setup \<Rightarrow> state \<Rightarrow> shadow \<Rightarrow> (protocol, int option) prog" where
  "setup_server args os st shadow =
     bnd (case parse_error args of Some what \<Rightarrow> fails (Thrown (RuntimeError what)) | None \<Rightarrow> returns ()) (\<lambda>_.
     if help_count args \<noteq> 0 then seq (print (help_output args)) (returns (Some 0))
     else if port_count args \<noteq> 0 then
       bnd (convert (port_value args)) (\<lambda>port.
       bnd (copy_shadow shadow) (\<lambda>arg.
       seq (Protocol_port os port st arg)
      (seq (print (''Server will listen on TCP port '' @ format_port port @ ''.'' @ newline))
       (returns None))))
     else
       bnd (convert (socket_value args)) (\<lambda>name.
       seq (print (''Server will listen on TCP port '' @ name @ ''.'' @ newline))
      (bnd (copy_shadow shadow) (\<lambda>arg.
       seq (Protocol_name os name st arg) (returns None)))))"

definition hdldb_main :: "cli \<Rightarrow> os_setup \<Rightarrow> state \<Rightarrow> (string \<Rightarrow> nat) \<Rightarrow> (protocol, int) prog" where
  "hdldb_main args os st hash =
     bnd new_shadow (\<lambda>shadow.
     bnd (try_catch (setup_server args os st shadow) (\<lambda>e. returns (Some 1))) (\<lambda>status.
     case status of
       Some n \<Rightarrow> returns n
     | None \<Rightarrow> uncaught (seq (loop ConfigHdlDb hash) (returns 0))))"

section \<open>Setting up the server\<close>

lemma new_shadow_apply:
  obtains sys h where "new_shadow s = Some (Val sys, s\<lparr>heap := h\<rparr>)" "system_inv sys h"
proof -
  obtain sys h where n: "system_new 4 4 4 ConfigHdlDb (heap s) = (sys :: shadow, h)" by fastforce
  then have "new_shadow s = Some (Val sys, s\<lparr>heap := h\<rparr>)"
    by (simp add: new_shadow_def)
  then show ?thesis
    using that system_new_inv [OF n] by blast
qed

lemma copy_shadow_apply:
  assumes "system_inv sys (heap s)"
  obtains sys' h where "copy_shadow sys s = Some (Val sys', s\<lparr>heap := h\<rparr>)" "system_inv sys' h"
proof -
  obtain sys' h where c: "system_copy sys (heap s) = (sys', h)" by fastforce
  then have "copy_shadow sys s = Some (Val sys', s\<lparr>heap := h\<rparr>)"
    by (simp add: copy_shadow_def)
  then show ?thesis
    using that system_copy_inv [OF assms c] by blast
qed

text \<open>The operating system lets a local socket be set up, and a client connects.\<close>

definition unix_ready :: "os_setup \<Rightarrow> string \<Rightarrow> bool" where
  "unix_ready os name \<longleftrightarrow> 0 < length name \<and> length name \<le> 107 \<and>
     (remove_ret os \<noteq> - 1 \<or> remove_errno os = ENOENT) \<and> bind_ret os = 0 \<and> listen_ret os \<noteq> - 1"

text \<open>\<open>s'\<close> is \<open>s\<close> connected to the client at the head of the queue; only messages were printed.\<close>

definition connected ::
    "int \<Rightarrow> rx_event list \<Rightarrow> client list \<Rightarrow> 'z packet_scheme \<Rightarrow> 'z packet_scheme \<Rightarrow> bool" where
  "connected fd input cs s s' \<longleftrightarrow> rxq s' = input \<and> clients s' = cs \<and> m_clientFd s' = fd \<and>
     m_buffer s' = m_buffer s \<and> packet.more s' = packet.more s \<and> txq s' = txq s \<and> sent s' = sent s"

lemma listenUnix_ready:
  fixes s :: "'z packet_scheme"
  assumes "unix_ready os name"
  shows "\<exists>t. listenUnix os name s = Some (Val (), s\<lparr>m_socketFd := socket_ret os, cout := t\<rparr>)"
  using assms
  by (auto simp: listenUnix_def unix_ready_def sun_path_size_def print_apply)

lemma acceptUnix_connects:
  fixes s :: "'z packet_scheme"
  assumes "clients s = Client fd opt input # cs" and "0 \<le> fd"
  shows "\<exists>t. acceptUnix s = Some (Val (), s\<lparr>clients := cs, m_clientFd := fd, rxq := input, cout := t\<rparr>)"
  using assms by (auto simp: acceptUnix_def print_apply os_accept_def)

lemma accept_unix: "\<not> m_tcp s \<Longrightarrow> accept s = acceptUnix s"
  by (simp add: accept_def bnd_def)

lemma Socket_name_connects:
  fixes s :: "'z packet_scheme"
  assumes "unix_ready os name" and "clients s = Client fd opt input # cs" and "0 \<le> fd"
  shows "\<exists>s'. Socket_name os name s = Some (Val (), s') \<and> connected fd input cs s s'"
proof -
  obtain t where t: "listenUnix os name s = Some (Val (), s\<lparr>m_socketFd := socket_ret os, cout := t\<rparr>)"
    using listenUnix_ready [OF assms(1)] by blast
  let ?s = "s\<lparr>m_socketFd := socket_ret os, cout := t, m_tcp := False\<rparr>"
  have "clients ?s = Client fd opt input # cs"
    using assms(2) by simp
  then obtain u where u: "acceptUnix ?s = Some (Val (), ?s\<lparr>clients := cs, m_clientFd := fd, rxq := input, cout := u\<rparr>)"
    using acceptUnix_connects [OF _ assms(3)] by blast
  then have "accept ?s = Some (Val (), ?s\<lparr>clients := cs, m_clientFd := fd, rxq := input, cout := u\<rparr>)"
    using accept_unix [of ?s] by simp
  then have "Socket_name os name s = Some (Val (), ?s\<lparr>clients := cs, m_clientFd := fd, rxq := input, cout := u\<rparr>)"
    using t by (simp add: Socket_name_def)
  then show ?thesis
    by (auto simp: connected_def)
qed

lemma Protocol_name_ready:
  assumes "unix_ready os name" and "clients s = Client fd opt input # cs" and "0 \<le> fd"
    and "system_inv shadow (heap s)" and "length (m_buffer s) = buffer_size"
  shows "\<exists>s'. Protocol_name os name st shadow s = Some (Val (), s') \<and> server_inv (map length (heap s')) s' \<and>
    rxq s' = input \<and> clients s' = cs \<and> m_state s' = st \<and> txq s' = txq s \<and> sent s' = sent s"
proof -
  obtain s1 where s1: "Socket_name os name s = Some (Val (), s1)" "connected fd input cs s s1"
    using Socket_name_connects [OF assms(1-3)] by blast
  have "heap s1 = heap s"
    using s1(2) more_members [of s1 s] by (simp add: connected_def)
  with assms(4) have inv: "system_inv shadow (heap s1)" by simp
  obtain sys h where c: "system_copy shadow (heap s1) = (sys, h)" by fastforce
  let ?s = "s1\<lparr>m_state := st, m_features_server := features_server, m_features_client := [],
        m_operation := [], m_shadow := sys, heap := h\<rparr>"
  have "Protocol_name os name st shadow s = Some (Val (), ?s)"
    using s1(1) c by (simp add: Protocol_name_def Protocol_members_def)
  moreover have "server_inv (map length (heap ?s)) ?s"
    using system_copy_inv [OF inv c] s1(2) assms(5) by (simp add: server_inv_iff members_ok_def connected_def)
  ultimately show ?thesis
    using s1(2) by (auto simp: connected_def)
qed

section \<open>Properties\<close>

text \<open>
  Starting the program with a local socket.  When the socket can be set up and a client
  connects, the program enters the main loop with the invariant of the server established, the
  client's input to read, nothing sent yet, and the state that the constructor was given.
\<close>

theorem main_starts_server:
  assumes "parse_error args = None" and "help_count args = 0" and "port_count args = 0" and "socket_value args = Inr name"
    and "unix_ready os name" and "clients s = Client fd opt input # cs" and "0 \<le> fd"
    and "length (m_buffer s) = buffer_size"
  shows "\<exists>s'. hdldb_main args os st hash s = uncaught (seq (loop ConfigHdlDb hash) (returns 0)) s' \<and>
    server_inv (map length (heap s')) s' \<and> rxq s' = input \<and> clients s' = cs \<and> m_state s' = st \<and> sent s' = sent s"
proof -
  obtain sys h where n: "new_shadow s = Some (Val sys, s\<lparr>heap := h\<rparr>)" "system_inv sys h"
    by (rule new_shadow_apply)
  define t where "t = (s\<lparr>heap := h\<rparr>)\<lparr>cout := cout s @ ''Server will listen on TCP port '' @ name @ ''.'' @ newline\<rparr>"
  have "system_inv sys (heap t)"
    using n(2) by (simp add: t_def)
  then obtain sys' h' where c: "copy_shadow sys t = Some (Val sys', t\<lparr>heap := h'\<rparr>)" "system_inv sys' h'"
    by (rule copy_shadow_apply)
  have "clients (t\<lparr>heap := h'\<rparr>) = Client fd opt input # cs" "system_inv sys' (heap (t\<lparr>heap := h'\<rparr>))"
    "length (m_buffer (t\<lparr>heap := h'\<rparr>)) = buffer_size"
    using assms(6,8) c(2) by (simp_all add: t_def)
  from Protocol_name_ready [OF assms(5) this(1) assms(7) this(2,3), of st] obtain s' where
    s': "Protocol_name os name st sys' (t\<lparr>heap := h'\<rparr>) = Some (Val (), s')" "server_inv (map length (heap s')) s'"
      "rxq s' = input" "clients s' = cs" "m_state s' = st" "sent s' = sent (t\<lparr>heap := h'\<rparr>)"
    by blast
  have "setup_server args os st sys (s\<lparr>heap := h\<rparr>) = Some (Val None, s')"
    using assms(1-4) c(1) s'(1) unfolding t_def
    by (simp add: setup_server_def convert_def print_apply)
  then have "hdldb_main args os st hash s = uncaught (seq (loop ConfigHdlDb hash) (returns 0)) s'"
    using n(1) by (simp add: hdldb_main_def try_catch_def)
  with s' show ?thesis
    by (auto simp: t_def)
qed

text \<open>
  Starting the program with a local socket that cannot be bound ends it with status 1,
  while a TCP port that cannot be bound goes unnoticed: \<open>listenTcp\<close> prints a message and returns.
\<close>

theorem main_bind_failure:
  assumes "parse_error args = None" and "help_count args = 0" and "port_count args = 0" and "socket_value args = Inr name"
    and "0 < length name" and "length name \<le> 107" and "remove_ret os \<noteq> - 1" and "bind_ret os \<noteq> 0"
    and "socket_ret os \<noteq> - 1"
  shows "\<exists>s' s''. hdldb_main args os st hash s = Some (Val 1, s') \<and> listenTcp os port s = Some (Val (), s'')"
proof -
  obtain sys h where n: "new_shadow s = Some (Val sys, s\<lparr>heap := h\<rparr>)" "system_inv sys h"
    by (rule new_shadow_apply)
  obtain sys' h' where c: "system_copy sys h = (sys', h')" by fastforce
  have "\<exists>t. listenUnix os name u = Some (Fail (Thrown (SystemError (bind_errno os) (''SOCKET: Bind failed'' @ newline))), t)"
    for u :: protocol
    using assms(5-8) by (auto simp: listenUnix_def sun_path_size_def print_apply)
  then obtain e t where "setup_server args os st sys (s\<lparr>heap := h\<rparr>) = Some (Fail (Thrown e), t)"
    using assms(1-4) c
    by (simp add: setup_server_def convert_def print_apply copy_shadow_def Protocol_name_def Socket_name_def) (meson seq_Fail)
  then have "hdldb_main args os st hash s = Some (Val 1, t)"
    using n(1) by (simp add: hdldb_main_def try_catch_def)
  moreover have "\<exists>s''. listenTcp os port s = Some (Val (), s'')"
    using assms(8,9) by (simp add: listenTcp_def print_apply)
  ultimately show ?thesis by blast
qed

text \<open>
  Once the server is set up the program never returns from \<open>main\<close>: an exception of a
  handler, such as the one for a corrupted or malformed packet, is caught by nobody and ends the
  program through \<open>std::terminate\<close>.
\<close>

theorem main_terminates_on_exception:
  "(\<nexists>n s'. uncaught (seq (loop ConfigHdlDb hash) (returns 0)) s = Some (Val n, s')) \<and>
   (loop ConfigHdlDb hash s = Some (Fail (Thrown e), t) \<longrightarrow>
     uncaught (seq (loop ConfigHdlDb hash) (returns 0)) s = Some (Fail Terminated, t))"
proof
  show "\<nexists>n s'. uncaught (seq (loop ConfigHdlDb hash) (returns 0)) s = Some (Val n, s')"
    using loop_no_value [of ConfigHdlDb hash s]
    by (auto simp: uncaught_def try_catch_def seq_def bnd_def split: option.splits result.splits failure.splits)
  show "loop ConfigHdlDb hash s = Some (Fail (Thrown e), t) \<longrightarrow>
     uncaught (seq (loop ConfigHdlDb hash) (returns 0)) s = Some (Fail Terminated, t)"
    by (simp add: uncaught_def try_catch_def)
qed

section \<open>Instances\<close>

definition demo_cli :: cli where
  "demo_cli = \<lparr>parse_error = None, help_count = 0, help_output = [], port_count = 0,
     port_value = Inl ''std::bad_cast'', socket_value = Inr ''unix-socket''\<rparr>"

definition demo_os :: "int \<Rightarrow> os_setup" where
  "demo_os b = \<lparr>errno_entry = 0, remove_ret = 0, remove_errno = 0, socket_ret = 3, socket_errno = 0,
     bind_ret = b, bind_errno = 98, listen_ret = 0, listen_errno = 0\<rparr>"

theorem main_starts_server_witness:
  "\<exists>s'. hdldb_main demo_cli (demo_os 0) demo_state demo_hash ((demo_server [])\<lparr>clients := [Client 4 True [Chunk ''$g#67'']]\<rparr>) =
      uncaught (seq (loop ConfigHdlDb demo_hash) (returns 0)) s' \<and> rxq s' = [Chunk ''$g#67'']"
  using main_starts_server [of demo_cli "''unix-socket''" "demo_os 0"
      "(demo_server [])\<lparr>clients := [Client 4 True [Chunk ''$g#67'']]\<rparr>" 4 True "[Chunk ''$g#67'']" "[]" demo_state demo_hash]
  by (auto simp: demo_cli_def demo_os_def unix_ready_def)

theorem main_bind_failure_witness:
  "\<exists>s'. hdldb_main demo_cli (demo_os (- 1)) demo_state demo_hash (demo_server []) = Some (Val 1, s')"
  using main_bind_failure [of demo_cli "''unix-socket''" "demo_os (- 1)" demo_state demo_hash "demo_server []" 1234]
  by (auto simp: demo_cli_def demo_os_def)

theorem main_terminates_on_exception_witness:
  "\<exists>s'. uncaught (seq (loop ConfigHdlDb demo_hash) (returns 0)) (demo_server [RecvError 104]) = Some (Fail Terminated, s')"
proof -
  have "\<exists>s'. run_loop ConfigHdlDb demo_hash nul s = Some (Fail (Thrown (SystemError 104 ''RECV failed'')), s')"
    if "rxq s = [RecvError 104]" for s
    using that by (subst run_loop.simps) (simp add: loop_body_def recv_def)
  then obtain t where "loop ConfigHdlDb demo_hash (demo_server [RecvError 104]) =
      Some (Fail (Thrown (SystemError 104 ''RECV failed'')), t)"
    by (fastforce simp: loop_def print_apply)
  then show ?thesis
    using main_terminates_on_exception by blast
qed

end
