(* ===== verification/Language_Tests.thy ===== *)
theory Language_Tests
  imports Hdldb "HOL-Library.Multiset"
begin

text \<open>
  The test programs (\<open>src/tests\<close>): a server that exchanges one packet with a client over the packet
  layer, and two experiments, one with a switch over hashed strings, one with vectors and the sum that
  the checksum is made of.
\<close>

section \<open>test-packet\<close>

text \<open>
  The packet object is destroyed when \<open>main\<close> returns; an exception leaves \<open>main\<close>.  \<open>os\<close> and
  \<open>close_ret\<close> are the answers of the operating system.
\<close>

definition test_packet_main :: "os_setup \<Rightarrow> int \<Rightarrow> (packet, int) prog" where
  "test_packet_main os close_ret = uncaught (
     seq (print (''Started 'test-packet'.'' @ newline))
    (seq (Socket_name os ''unix-socket'')
    (seq (print (''Waiting for message from client.'' @ newline))
    (bnd (rx False) (\<lambda>v. seq (print (chars v))
    (seq (print (''Sending a message to client.'' @ newline))
    (seq (tx ''TX test'' False)
    (seq (print (''Ending 'test-packet'.'' @ newline))
    (seq (Socket_destructor close_ret) (returns 0))))))))))"

lemma uncaught_Val: "m s = Some (Val a, s') \<Longrightarrow> uncaught m s = Some (Val a, s')"
  by (simp add: uncaught_def try_catch_def)

text \<open>
  The exchange of the packet layer, without acknowledgements: a client that connects
  and sends one well-formed packet, the first piece of it at least three bytes, gets the framed text of the test, and the program
  ends with the status 0; the bytes behind the packet are left unread.
\<close>

theorem test_packet_exchanges:
  assumes "unix_ready os ''unix-socket''" and "clients s = Client fd opt input # cs" and "0 \<le> fd"
    and "delivers (s\<lparr>rxq := input\<rparr>) (format_packet p) ds" and "CHR ''#'' \<notin> set p"
    and "length p + 4 \<le> buffer_size" and "length (m_buffer s) = buffer_size" and "tx_ready s"
    and "close_ret \<noteq> - 1"
  shows "\<exists>s'. test_packet_main os close_ret s = Some (Val 0, s') \<and>
    sent s' = sent s @ format_packet ''TX test'' \<and> rx_pending s' = ds"
proof -
  let ?s = "s\<lparr>cout := cout s @ ''Started 'test-packet'.'' @ newline\<rparr>"
  obtain s1 where s1: "Socket_name os ''unix-socket'' ?s = Some (Val (), s1)" "connected fd input cs ?s s1"
    using Socket_name_connects [OF assms(1) _ assms(3), of ?s opt input cs] assms(2) by auto
  let ?s1 = "s1\<lparr>cout := cout s1 @ ''Waiting for message from client.'' @ newline\<rparr>"
  have "delivers ?s1 (format_packet p) ds" "tx_ready ?s1" "length (m_buffer ?s1) = buffer_size"
    using assms(4,7,8) s1(2) by (simp_all add: delivers_def rx_pending_def tx_ready_def connected_def)
  then obtain v s2 where s2: "rx False ?s1 = Some (Val v, s2)" "sent s2 = sent ?s1" "rx_pending s2 = ds" "tx_ready s2"
    using rx_accepts [of ?s1 p ds False] assms(5,6) by auto
  let ?s2 = "s2\<lparr>cout := (cout s2 @ chars v) @ ''Sending a message to client.'' @ newline\<rparr>"
  have "tx_ready ?s2"
    using s2(4) by (simp add: tx_ready_def)
  from tx_packet [OF this, of "''TX test''" False] obtain q where
    "tx ''TX test'' False ?s2 = Some (Val (), ?s2\<lparr>cout := cout ?s2 @ ''REMOTE: -> '' @ ''TX test'' @ newline,
      sent := sent ?s2 @ format_packet ''TX test'', txq := q\<rparr>)" (is "_ = Some (Val (), ?s3)")
    by auto
  moreover have "sent s2 = sent s" "rx_pending ?s3 = ds"
    using s1(2) s2(2,3) by (simp_all add: connected_def rx_pending_def)
  ultimately have sent3: "sent ?s3 = sent s @ format_packet ''TX test''" and pending: "rx_pending ?s3 = ds"
    and tx: "tx ''TX test'' False ?s2 = Some (Val (), ?s3)"
    by simp_all
  let ?s4 = "?s3\<lparr>cout := cout ?s3 @ ''Ending 'test-packet'.'' @ newline\<rparr>"
  have "Socket_destructor close_ret ?s4 =
      Some (Val (), ?s4\<lparr>cout := cout ?s4 @ ''SOCKET: Closed connection from client.''\<rparr>)"
    using assms(9) by (simp add: Socket_destructor_def print_def modifies_def)
  then have "test_packet_main os close_ret s =
      Some (Val 0, ?s4\<lparr>cout := cout ?s4 @ ''SOCKET: Closed connection from client.''\<rparr>)"
    unfolding test_packet_main_def using s1(1) s2(1) tx
    by (intro uncaught_Val) (simp add: seq_print seq_def bnd_def print_apply)
  with sent3 pending show ?thesis
    by (simp add: rx_pending_def)
qed

theorem test_packet_exchanges_witness:
  "\<exists>s'. test_packet_main (demo_os 0) 0 ((demo_packet [])\<lparr>clients := [Client 5 True [Chunk ''$OK'', Chunk ''#9a'', Chunk ''+'']]\<rparr>) =
    Some (Val 0, s') \<and> sent s' = format_packet ''TX test'' \<and> rx_pending s' = [''+'']"
proof -
  let ?q = "[Chunk ''$OK'', Chunk ''#9a'', Chunk ''+'']"
  let ?s = "(demo_packet [])\<lparr>clients := [Client 5 True ?q]\<rparr>"
  have "delivers (?s\<lparr>rxq := ?q\<rparr>) (format_packet ''OK'') [''+'']"
    using demo_delivers by (simp add: delivers_def rx_pending_def)
  moreover have "unix_ready (demo_os 0) ''unix-socket''" "tx_ready ?s" "length (m_buffer ?s) = buffer_size"
    by (simp_all add: unix_ready_def demo_os_def demo_packet_def tx_ready_def buffer_size_def)
  ultimately show ?thesis
    using test_packet_exchanges [of "demo_os 0" ?s 5 True ?q "[]" "''OK''" "[''+'']" 0]
    by (auto simp: buffer_size_def)
qed

section \<open>test-switch\<close>

text \<open>
  \<open>std::accumulate\<close> adds the characters, which are signed, as \<open>int\<close>; fewer than \<open>2 ^ 24\<close> of them
  cannot overflow it.
\<close>

definition switch_hash :: "string \<Rightarrow> int" where
  "switch_hash str = foldl (\<lambda>a c. a + sint (byte_of_char c)) 0 str"

definition processAction :: "string \<Rightarrow> ('z env_scheme, unit) prog" where
  "processAction action =
     (if switch_hash action = switch_hash ''save'' then print (''Saving data...'' @ newline)
      else if switch_hash action = switch_hash ''load'' then print (''Loading data...'' @ newline)
      else if switch_hash action = switch_hash ''delete'' then print (''Deleting data...'' @ newline)
      else print (''Unknown action: '' @ action @ newline))"

definition test_switch_main :: "('z env_scheme, int) prog" where
  "test_switch_main = seq (processAction ''save'') (seq (processAction ''delete'') (returns 0))"

lemma switch_hash_sum: "switch_hash str = (\<Sum>c \<in>#mset str. sint (byte_of_char c))"
proof -
  have "foldl (\<lambda>a c. a + sint (byte_of_char c)) k str = k + (\<Sum>c \<in>#mset str. sint (byte_of_char c))" for k
    by (induction str arbitrary: k) (simp_all add: algebra_simps)
  then show ?thesis
    by (simp add: switch_hash_def)
qed

lemma switch_labels:
  "switch_hash ''save'' = 431" "switch_hash ''load'' = 416" "switch_hash ''delete'' = 627"
  by code_simp+

text \<open>
  The labels differ, so the program compiles and the actions of \<open>main\<close> are recognised; but the hash does
  not see the order of the characters, so any permutation of a name is taken for that name.
\<close>

theorem switch_ignores_order:
  assumes "mset action = mset name"
  shows "name \<in> {''save'', ''load'', ''delete''} \<Longrightarrow> processAction action s = processAction name s"
    and "processAction ''vase'' s = Some (Val (), s\<lparr>cout := cout s @ ''Saving data...'' @ newline\<rparr>)"
proof -
  have "switch_hash action = switch_hash name"
    by (simp add: switch_hash_sum assms)
  then show "name \<in> {''save'', ''load'', ''delete''} \<Longrightarrow> processAction action s = processAction name s"
    by (auto simp: processAction_def switch_labels)
  have "switch_hash ''vase'' = switch_hash ''save''"
    by (simp add: switch_hash_sum)
  then show "processAction ''vase'' s = Some (Val (), s\<lparr>cout := cout s @ ''Saving data...'' @ newline\<rparr>)"
    by (simp add: processAction_def print_apply)
qed

lemma test_switch_output:
  "test_switch_main s = Some (Val 0, s\<lparr>cout := cout s @ ''Saving data...'' @ newline @ ''Deleting data...'' @ newline\<rparr>)"
  by (simp add: test_switch_main_def processAction_def switch_labels seq_def bnd_def print_apply)

section \<open>test-vector\<close>

text \<open>The sum over bytes that the checksum of the packet layer is made of, cut to 8 bits.\<close>

definition byte_sum :: "byte list \<Rightarrow> byte" where
  "byte_sum bs = word_of_int (foldl (\<lambda>a b. a + uint b) 0 bs)"

definition data_string :: string where
  "data_string = ''Hello from client to server!''"

definition test_accumulate :: "('z env_scheme, unit) prog" where
  "test_accumulate =
     (let sum1 = byte_sum [0, 1, 2, 3, 4, 5, 6, 7, 8, 9];
          data_span = map byte_of_char data_string;
          sum2 = byte_sum data_span in
      seq (print (''sum(data_vector) = '' @ format_nat_d (unat sum1) @ newline))
     (seq (print (''sum(data_span) = '' @ format_nat_d (unat sum2) @ '' = '' @ format_02x sum2 @ '' = ''))
     (print (concat (map (\<lambda>b. format_nat_d (unat b) @ ''+'') data_span)))))"

text \<open>The loop over an index, and the two loops over elements.\<close>

definition print_indexed :: "string \<Rightarrow> int list \<Rightarrow> ('z env_scheme, unit) prog" where
  "print_indexed name xs = print (concat (map (\<lambda>i.
     name @ ''['' @ format_nat_d i @ ''] = '' @ format_d (xs ! i) @ ''.'' @ newline) [0 ..< length xs]))"

definition print_elements :: "string \<Rightarrow> int list \<Rightarrow> ('z env_scheme, unit) prog" where
  "print_elements name xs = print (concat (map (\<lambda>x. name @ '' = '' @ format_d x @ ''.'' @ newline) xs))"

definition test_vector_main :: "('z env_scheme, int) prog" where
  "test_vector_main =
     (let assigned = [1, 2, 3, 4];
          data = foldl (\<lambda>d i. d[i := int i]) assigned [0 ..< length assigned] in
      seq (print_indexed ''data'' data)
     (seq (print_elements ''data'' [17, 18, 19, 20, 21])
     (seq (print_indexed ''values'' [11, 22, 33])
     (seq (print_elements ''values'' [13, 14, 15, 16])
     (seq test_accumulate (returns 0))))))"

text \<open>The sum over the bytes of a string is the checksum of the packet layer.\<close>

lemma uint_byte_of_char: "uint (byte_of_char c) = int (of_char c)"
  by (simp only: uint_nat unat_byte_of_char)

lemma byte_sum_checksum: "byte_sum (map byte_of_char str) = checksum str"
  unfolding byte_sum_def checksum_def accumulate_def foldl_map uint_byte_of_char by (rule refl)

end
