(* ===== verification/Socket_Dpi.thy ===== *)
theory Socket_Dpi
  imports Socket
begin

text \<open>
  The socket library of the SystemVerilog stub (\<open>hdl/socket_dpi_pkg.c\<close>), which the simulator calls
  through the direct programming interface.  It is the C ancestor of the class \<open>Socket\<close>: the same
  calls of the operating system, with the two descriptors in global variables, failures reported
  as the value -1 instead of exceptions, and the messages of \<open>printf\<close>.  The theory models every
  function of the file over the operating system of \<open>Socket\<close> and shows where the two libraries
  agree and where they do not.

  \<open>perror\<close> writes to the standard error stream, which is not part of the model.  The \<open>int\<close> in
  which the results of \<open>send\<close> and \<open>recv\<close> are stored is kept at its 32 bits.  Flags matter for \<open>recv\<close>
  only (\<open>MSG_PEEK\<close>, \<open>MSG_DONTWAIT\<close>).
\<close>

section \<open>State\<close>

text \<open>The two global variables.\<close>

record dpi = env +
  sfd :: int
  cfd :: int

definition MSG_PEEK :: int where
  "MSG_PEEK = 2"

definition MSG_DONTWAIT :: int where
  "MSG_DONTWAIT = 64"

definition EAGAIN :: int where
  "EAGAIN = 11"

text \<open>Conversion of a result of type \<open>ssize_t\<close> to \<open>int\<close>.\<close>

definition int_of_ssize :: "int \<Rightarrow> int" where
  "int_of_ssize n = sint (word_of_int n :: 32 word)"

section \<open>The calls of the operating system\<close>

text \<open>
  The answer of \<open>send\<close> with \<open>errno\<close>, and of \<open>recv\<close> with the bytes it stored and \<open>errno\<close>.  A call of
  \<open>recv\<close> with \<open>MSG_DONTWAIT\<close> fails with \<open>EAGAIN\<close> where it would otherwise wait.
\<close>

definition os_send :: "string \<Rightarrow> ('z dpi_scheme, int \<times> int) prog" where
  "os_send data s = (case txq s of
      [] \<Rightarrow> Some (Val (int (length data), 0), s\<lparr>sent := sent s @ data\<rparr>)
    | Accept k # q \<Rightarrow>
        Some (Val (int (min k (length data)), 0), s\<lparr>txq := q, sent := sent s @ take k data\<rparr>)
    | SendError e # q \<Rightarrow> Some (Val (- 1, e), s\<lparr>txq := q\<rparr>))"

definition os_recv :: "nat \<Rightarrow> int \<Rightarrow> ('z dpi_scheme, int \<times> string \<times> int) prog" where
  "os_recv n flags s = (case rxq s of
      [] \<Rightarrow> (if bit flags 6 then Some (Val (- 1, [], EAGAIN), s) else Some (Fail Blocked, s))
    | Chunk c # q \<Rightarrow>
        Some (Val (int (length (take n c)), take n c, 0),
          if bit flags 1 then s
          else if length c \<le> n then s\<lparr>rxq := q\<rparr>
          else s\<lparr>rxq := Chunk (drop n c) # q\<rparr>)
    | Hangup # q \<Rightarrow> Some (Val (0, [], 0), s)
    | RecvError e # q \<Rightarrow> Some (Val (- 1, [], e), s\<lparr>rxq := q\<rparr>))"

definition dpi_os_accept :: "('z dpi_scheme, client) prog" where
  "dpi_os_accept s = (case clients s of
      [] \<Rightarrow> Some (Fail Blocked, s)
    | c # cs \<Rightarrow> Some (Val c, (case c of
          Client fd opt input \<Rightarrow> s\<lparr>clients := cs, cfd := fd, rxq := input\<rparr>
        | AcceptError e \<Rightarrow> s\<lparr>clients := cs, cfd := - 1\<rparr>)))"

text \<open>\<open>errno\<close> after a call of \<open>accept\<close>, and after the call of \<open>setsockopt\<close> that may follow it.\<close>

fun accept_errno :: "client \<Rightarrow> int" where
  "accept_errno (AcceptError e) = e"
| "accept_errno (Client fd opt input) = 0"

section \<open>The functions of the library\<close>

definition socket_unix_listen :: "os_setup \<Rightarrow> string \<Rightarrow> ('z dpi_scheme, int) prog" where
  "socket_unix_listen os name =
     seq (print (''DPI-C: Creating UNIX socket '' @ name @ newline))
    (if length name = 0 \<or> length name > sun_path_size - 1 then
       seq (print (''DPI-C: Server UNIX socket path too long: '' @ name @ newline)) (returns (- 1))
     else
       seq (if remove_ret os = - 1 \<and> remove_errno os \<noteq> ENOENT
            then print (''DPI-C: Failed to remove UNIX socket file '' @ name @ newline)
            else returns ())
      (seq (modifies (\<lambda>s. s\<lparr>sfd := socket_ret os\<rparr>))
      (seq (print (''DPI-C: UNIX socket fd = '' @ format_d (socket_ret os) @ newline))
      (if bind_ret os \<noteq> 0 then
         seq (print (''DPI-C: Bind failed with errno = '' @ format_d (bind_errno os) @ ''.'' @ newline))
           (returns (- 1))
       else
         seq (print (''DPI-C: Socket successfully binded...'' @ newline))
        (if listen_ret os = - 1 then
           seq (print (''DPI-C: Listen failed.'' @ newline)) (returns (- 1))
         else
           seq (print (''DPI-C: Server listening..'' @ newline)) (gets sfd))))))"

definition socket_tcp_listen :: "os_setup \<Rightarrow> 16 word \<Rightarrow> ('z dpi_scheme, int) prog" where
  "socket_tcp_listen os port =
     seq (modifies (\<lambda>s. s\<lparr>sfd := socket_ret os\<rparr>))
    (if socket_ret os = - 1 then
       seq (print (''DPI-C: Server TCP socket creation failed...'' @ newline)) (returns (- 1))
     else
       seq (print (''DPI-C: TCP socket fd = '' @ format_d (socket_ret os) @ newline))
      (if bind_ret os \<noteq> 0 then
         seq (print (''DPI-C: Bind failed with errno = '' @ format_d (bind_errno os) @ ''.'' @ newline))
           (returns (- 1))
       else
         seq (print (''DPI-C: Socket successfully binded...'' @ newline))
        (if listen_ret os \<noteq> 0 then
           seq (print (''DPI-C: Listen failed.'' @ newline)) (returns (- 1))
         else
           seq (print (''DPI-C: Server listening..'' @ newline)) (gets sfd))))"

definition socket_unix_accept :: "('z dpi_scheme, int) prog" where
  "socket_unix_accept =
     seq (print (''DPI-C: Waiting for client to connect...'' @ newline))
    (bnd dpi_os_accept (\<lambda>c.
     bnd (gets cfd) (\<lambda>fd.
       if fd < 0 then
         seq (print (''DPI-C: Server accept failed with errno = '' @ format_d (accept_errno c) @ ''.'' @ newline))
           (fails (Exited 0))
       else
         seq (print (''DPI-C: Accepted client connection fd = '' @ format_d fd @ newline))
           (gets cfd))))"

text \<open>The argument is \<open>errno\<close> after a failed call of \<open>setsockopt\<close>.\<close>

definition socket_tcp_accept :: "int \<Rightarrow> ('z dpi_scheme, int) prog" where
  "socket_tcp_accept setsockopt_errno =
     bnd dpi_os_accept (\<lambda>c.
     bnd (gets cfd) (\<lambda>fd.
       if fd < 0 then
         seq (print (''DPI-C: Server accept failed with errno = '' @ format_d (accept_errno c) @ ''.'' @ newline))
           (fails (Exited 0))
       else
         seq (print (''DPI-C: Accepted client connection fd = '' @ format_d fd @ newline))
         (case c of
            Client _ True _ \<Rightarrow>
              seq (print (''DPI-C: Server socket options set.'' @ newline)) (gets cfd)
          | _ \<Rightarrow>
              seq (print (''DPI-C: Server socket options failed with errno = ''
                     @ format_d setsockopt_errno @ ''.'' @ newline))
                (fails (Exited 0)))))"

text \<open>The message after the \<open>return\<close> of \<open>socket_close\<close> is never printed.\<close>

definition socket_close :: "int \<Rightarrow> ('z dpi_scheme, int) prog" where
  "socket_close close_ret = returns close_ret"

definition socket_send :: "string \<Rightarrow> int \<Rightarrow> ('z dpi_scheme, int) prog" where
  "socket_send data flags =
     bnd (os_send data) (\<lambda>(ret, errno).
       let status = int_of_ssize ret in
       if status = - 1 then
         seq (print (''DPI-C: SEND failed with errno = '' @ format_d errno @ ''.'' @ newline))
           (returns (- 1))
       else returns status)"

text \<open>\<open>recv\<close> stores into the array it is given; the array after the call is part of the result.\<close>

definition socket_recv :: "string \<Rightarrow> int \<Rightarrow> ('z dpi_scheme, int \<times> string) prog" where
  "socket_recv data flags =
     bnd (os_recv (length data) flags) (\<lambda>(ret, bytes, errno).
       let status = int_of_ssize ret; data' = overwrite 0 bytes data in
       if status = - 1 then
         seq (print (''DPI-C: RECV failed with errno = '' @ format_d errno @ ''.'' @ newline))
           (returns (- 1, data'))
       else returns (status, data'))"

section \<open>Agreement with the class Socket\<close>

text \<open>
  The view of a \<open>Socket\<close> object as the state of the library, and the state without its messages.
\<close>

definition dpi_view :: "'z socket_scheme \<Rightarrow> dpi" where
  "dpi_view s = \<lparr>rxq = rxq s, txq = txq s, clients = clients s, sent = sent s, cout = [],
     sfd = m_socketFd s, cfd = m_clientFd s\<rparr>"

definition silent :: "dpi \<Rightarrow> dpi" where
  "silent d = d\<lparr>cout := []\<rparr>"

text \<open>The C++ outcome as the value the C function returns: an exception becomes -1.\<close>

fun status_of :: "('a \<Rightarrow> 'b) \<Rightarrow> 'b \<Rightarrow> 'a result \<Rightarrow> 'b result" where
  "status_of f e (Val a) = Val (f a)"
| "status_of f e (Fail (Thrown x)) = Val e"
| "status_of f e (Fail y) = Fail y"

definition matches :: "('a \<Rightarrow> 'b) \<Rightarrow> 'b \<Rightarrow> ('a result \<times> 'z socket_scheme) option
    \<Rightarrow> ('b result \<times> dpi) option \<Rightarrow> bool" where
  "matches f e cxx c \<longleftrightarrow>
     map_option (map_prod id silent) c = map_option (map_prod (status_of f e) dpi_view) cxx"

lemma int_of_ssize_small: "0 \<le> n \<Longrightarrow> n < 2 ^ 31 \<Longrightarrow> int_of_ssize n = n"
  by (simp add: int_of_ssize_def sint_sbintrunc' signed_take_bit_int_eq_self)

lemma int_of_ssize_error [simp]: "int_of_ssize (- 1) = - 1"
  by (simp add: int_of_ssize_def)

lemma dpi_view_components:
  assumes "silent d = dpi_view s"
  shows "rxq d = rxq s" "txq d = txq s" "clients d = clients s" "sent d = sent s"
    "sfd d = m_socketFd s" "cfd d = m_clientFd s"
  using assms by (cases d; simp add: dpi_view_def silent_def)+

lemma socket_send_matches:
  assumes view: "silent d = dpi_view s" and small: "length data < 2 ^ 31"
  shows "matches int (- 1) (send data s) (socket_send data flags d)"
proof -
  have fits: "int_of_ssize (int k) = int k" if "k \<le> length data" for k
    using that small by (intro int_of_ssize_small) auto
  show ?thesis
    using view fits [of "length data"] fits [of "min _ (length data)"]
    by (cases d)
      (auto simp: matches_def send_def socket_send_def os_send_def bnd_def seq_def print_def
        dpi_view_def silent_def Let_def split: list.splits tx_event.splits)
qed

lemma socket_recv_matches:
  assumes view: "silent d = dpi_view s" and small: "length data < 2 ^ 31"
    and flags: "bit flags 1 = peek" "\<not> bit flags 6"
  shows "matches (\<lambda>got. (int (length got), overwrite 0 got data)) (- 1, data)
    (recv (length data) peek s) (socket_recv data flags d)"
proof -
  have fits: "int_of_ssize (int k) = int k" if "k \<le> length data" for k
    using that small by (intro int_of_ssize_small) auto
  show ?thesis
    using view flags fits [of 0] fits [of "length (take (length data) _)"]
    by (cases d)
      (auto simp: matches_def recv_def socket_recv_def os_recv_def bnd_def seq_def print_def
        dpi_view_def silent_def Let_def split: list.splits rx_event.splits)
qed

lemma socket_unix_accept_matches:
  assumes view: "silent d = dpi_view s"
  shows "matches id (- 1) (seq acceptUnix (gets m_clientFd) s) (socket_unix_accept d)"
  using view
  by (cases d)
    (auto simp: matches_def acceptUnix_def socket_unix_accept_def os_accept_def dpi_os_accept_def
      bnd_def seq_def print_def dpi_view_def silent_def split: list.splits client.splits)

lemma socket_tcp_accept_matches:
  assumes view: "silent d = dpi_view s"
  shows "matches id (- 1) (seq acceptTcp (gets m_clientFd) s) (socket_tcp_accept e d)"
  using view
  by (cases d)
    (auto simp: matches_def acceptTcp_def socket_tcp_accept_def os_accept_def dpi_os_accept_def
      bnd_def seq_def print_def dpi_view_def silent_def split: list.splits client.splits bool.splits)

text \<open>
  Property C27: the DPI library and the class \<open>Socket\<close> are equivalent on accepting and transferring.
  From states that agree up to messages, \<open>socket_send\<close>, \<open>socket_recv\<close> and the two accept functions
  have the same effect on the connection as \<open>Socket::send\<close>, \<open>Socket::recv\<close>, \<open>acceptUnix\<close> and
  \<open>acceptTcp\<close>, stop or wait in the same cases, return the same counts, bytes and descriptors, and
  return -1 exactly where the class throws, for arrays shorter than 2 GiB (the counts pass through
  an \<open>int\<close>).
\<close>

theorem dpi_socket_equivalent:
  assumes "silent d = dpi_view s" and "length data < 2 ^ 31"
    and "flags = (if peek then MSG_PEEK else 0)"
  shows "matches int (- 1) (send data s) (socket_send data flags d) \<and>
    matches (\<lambda>got. (int (length got), overwrite 0 got data)) (- 1, data)
      (recv (length data) peek s) (socket_recv data flags d) \<and>
    matches id (- 1) (seq acceptUnix (gets m_clientFd) s) (socket_unix_accept d) \<and>
    matches id (- 1) (seq acceptTcp (gets m_clientFd) s) (socket_tcp_accept e d)"
proof -
  have "bit flags 1 = peek" "\<not> bit flags 6"
    using assms(3) by (simp_all add: MSG_PEEK_def bit_iff_odd)
  then show ?thesis
    using assms(1,2) by (simp add: socket_send_matches socket_recv_matches
      socket_unix_accept_matches socket_tcp_accept_matches)
qed

definition demo_dpi :: dpi where
  "demo_dpi = \<lparr>rxq = [Chunk ''$?#3f'', Hangup], txq = [Accept 1], clients = [Client 7 True []],
     sent = [], cout = ''DPI-C'', sfd = 3, cfd = 4\<rparr>"

definition demo_socket :: socket where
  "demo_socket = \<lparr>rxq = [Chunk ''$?#3f'', Hangup], txq = [Accept 1], clients = [Client 7 True []],
     sent = [], cout = [], m_tcp = True, m_socketFd = 3, m_clientFd = 4\<rparr>"

lemma demo_dpi_agrees: "silent demo_dpi = dpi_view demo_socket"
  by (simp add: demo_dpi_def demo_socket_def silent_def dpi_view_def)

theorem dpi_socket_equivalent_witness:
  "matches int (- 1) (send ''abc'' demo_socket) (socket_send ''abc'' 0 demo_dpi) \<and>
    matches (\<lambda>got. (int (length got), overwrite 0 got ''abc'')) (- 1, ''abc'')
      (recv (length ''abc'') False demo_socket) (socket_recv ''abc'' 0 demo_dpi) \<and>
    matches id (- 1) (seq acceptUnix (gets m_clientFd) demo_socket) (socket_unix_accept demo_dpi) \<and>
    matches id (- 1) (seq acceptTcp (gets m_clientFd) demo_socket) (socket_tcp_accept 0 demo_dpi)"
  by (rule dpi_socket_equivalent [OF demo_dpi_agrees]) simp_all

section \<open>Listening: where the libraries differ\<close>

definition valid_path :: "string \<Rightarrow> bool" where
  "valid_path name \<longleftrightarrow> 0 < length name \<and> length name < sun_path_size"

definition unix_listen_status :: "os_setup \<Rightarrow> string \<Rightarrow> int" where
  "unix_listen_status os name =
     (if valid_path name \<and> bind_ret os = 0 \<and> listen_ret os \<noteq> - 1 then socket_ret os else - 1)"

definition tcp_listen_status :: "os_setup \<Rightarrow> int" where
  "tcp_listen_status os =
     (if socket_ret os \<noteq> - 1 \<and> bind_ret os = 0 \<and> listen_ret os = 0 then socket_ret os else - 1)"

text \<open>The C++ functions return normally or throw; this is when they return.\<close>

definition returns_normally :: "('a result \<times> 's) option \<Rightarrow> bool" where
  "returns_normally r \<longleftrightarrow> (\<exists>a s. r = Some (Val a, s))"

lemma socket_unix_listen_status:
  "\<exists>d'. socket_unix_listen os name d = Some (Val (unix_listen_status os name), d') \<and>
    silent d' = silent (d\<lparr>sfd := (if valid_path name then socket_ret os else sfd d)\<rparr>)"
proof (cases "valid_path name")
  case True
  then have "\<not> (length name = 0 \<or> length name > sun_path_size - 1)"
    by (auto simp: valid_path_def)
  then show ?thesis
    using True by (simp add: socket_unix_listen_def unix_listen_status_def seq_print silent_def)
next
  case False
  then have "length name = 0 \<or> length name > sun_path_size - 1"
    by (auto simp: valid_path_def sun_path_size_def)
  then show ?thesis
    using False by (simp add: socket_unix_listen_def unix_listen_status_def seq_print silent_def
      del: length_0_conv)
qed

lemma socket_tcp_listen_status:
  "\<exists>d'. socket_tcp_listen os port d = Some (Val (tcp_listen_status os), d') \<and>
    silent d' = silent (d\<lparr>sfd := socket_ret os\<rparr>)"
  by (simp add: socket_tcp_listen_def tcp_listen_status_def seq_print silent_def)

lemma listenUnix_returns:
  "returns_normally (listenUnix os name s) \<longleftrightarrow>
    valid_path name \<and> bind_ret os = 0 \<and> listen_ret os \<noteq> - 1 \<and>
    \<not> (remove_ret os = - 1 \<and> remove_errno os \<noteq> ENOENT)"
proof -
  have path: "length name = 0 \<or> length name > sun_path_size - 1 \<longleftrightarrow> \<not> valid_path name"
    by (auto simp: valid_path_def sun_path_size_def)
  show ?thesis
    unfolding listenUnix_def path
    by (auto simp: returns_normally_def seq_print print_apply)
qed

lemma listenTcp_returns:
  "returns_normally (listenTcp os port s) \<longleftrightarrow> socket_ret os \<noteq> - 1"
  by (simp add: listenTcp_def returns_normally_def seq_print print_apply)

text \<open>
  The listen functions of the DPI library report every failure of \<open>bind\<close> and \<open>listen\<close>
  as -1 and otherwise return the descriptor they stored, without touching the connection.  A UNIX
  socket file that cannot be removed does not stop \<open>socket_unix_listen\<close>, whereas
  \<open>Socket::listenUnix\<close> throws; a failed \<open>bind\<close> or \<open>listen\<close> makes \<open>socket_tcp_listen\<close> return -1,
  whereas \<open>Socket::listenTcp\<close> returns normally whenever the socket could be created.
\<close>

theorem listen_status:
  "(\<exists>d'. socket_unix_listen os name d = Some (Val (unix_listen_status os name), d') \<and>
      silent d' = silent (d\<lparr>sfd := (if valid_path name then socket_ret os else sfd d)\<rparr>)) \<and>
    (\<exists>d'. socket_tcp_listen os port d = Some (Val (tcp_listen_status os), d') \<and>
      silent d' = silent (d\<lparr>sfd := socket_ret os\<rparr>)) \<and>
    (returns_normally (listenUnix os name s) \<longleftrightarrow>
      valid_path name \<and> bind_ret os = 0 \<and> listen_ret os \<noteq> - 1 \<and>
      \<not> (remove_ret os = - 1 \<and> remove_errno os \<noteq> ENOENT)) \<and>
    (returns_normally (listenTcp os port s) \<longleftrightarrow> socket_ret os \<noteq> - 1)"
  by (simp only: socket_unix_listen_status socket_tcp_listen_status listenUnix_returns
      listenTcp_returns simp_thms)

end
