(* ===== verification/Sv_Packet.thy ===== *)
theory Sv_Packet
  imports Socket_Dpi Packet
begin

text \<open>
  The packet layer of the SystemVerilog stub (\<open>hdl/gdb_server_stub_pkg.sv\<close>, functions \<open>rsp_write\<close>,
  \<open>rsp_get_packet\<close>, \<open>rsp_send_packet\<close> and the conversions between text and hexadecimal digits),
  over the DPI socket library.

  Strings of the language contain no character 0: the cast of a byte array to a string leaves such
  bytes out.  An index outside a string reads as the character 0, and \<open>substr\<close> with bounds outside
  the string is empty.  Messages of \<open>$display\<close> and \<open>$error\<close> have no counterpart.
\<close>

section \<open>Strings of the language\<close>

definition sv_string :: "string \<Rightarrow> string" where
  "sv_string bytes = filter (\<lambda>c. c \<noteq> nul) bytes"

definition sv_substr :: "string \<Rightarrow> int \<Rightarrow> int \<Rightarrow> string" where
  "sv_substr str i j =
     (if i < 0 \<or> j < i \<or> int (length str) \<le> j then []
      else take (nat (j - i + 1)) (drop (nat i) str))"

text \<open>\<open>str[len-3]\<close>, where \<open>len-3\<close> wraps around for short strings.\<close>

definition third_last :: "string \<Rightarrow> char" where
  "third_last str = (if length str < 3 then nul else str ! (length str - 3))"

section \<open>Sending\<close>

text \<open>The number of bytes that the socket took is ignored.\<close>

definition rsp_write :: "string \<Rightarrow> ('z dpi_scheme, unit) prog" where
  "rsp_write str = seq (socket_send str 0) (returns ())"

text \<open>The loop over the characters of a packet: its writes and its 8-bit sum.\<close>

fun rsp_write_chars :: "string \<Rightarrow> byte \<Rightarrow> ('z dpi_scheme, byte) prog" where
  "rsp_write_chars [] k = returns k"
| "rsp_write_chars (c # cs) k = seq (rsp_write [c]) (rsp_write_chars cs (k + byte_of_char c))"

definition rsp_send_packet :: "string \<Rightarrow> bool \<Rightarrow> ('z dpi_scheme, int) prog" where
  "rsp_send_packet pkt ack =
     seq (rsp_write ''$'')
    (bnd (rsp_write_chars pkt 0) (\<lambda>checksum.
     seq (rsp_write ''#'')
    (seq (rsp_write (format_02x checksum))
    (if ack then
       bnd (socket_recv [nul] 0) (\<lambda>(status, ch). returns (if ch ! 0 = CHR ''+'' then 0 else - 1))
     else returns 0))))"

section \<open>Receiving\<close>

text \<open>
  The loop appends the whole buffer after every call of \<open>socket_recv\<close>, whatever part of it the call
  has filled.
\<close>

partial_function (option) get_loop ::
  "string \<Rightarrow> string \<Rightarrow> 'z dpi_scheme \<Rightarrow> (string result \<times> 'z dpi_scheme) option"
where
  "get_loop buffer str s =
     bnd (socket_recv buffer 0) (\<lambda>(status, buffer') s1.
     let str' = str @ sv_string buffer' in
       if third_last str' \<noteq> CHR ''#'' then get_loop buffer' str' s1
       else returns str' s1) s"

text \<open>
  The status and the content of the packet.  With fewer than four characters the size of the array
  \<open>cmd\<close> would be negative, which is an error of the simulation.
\<close>

definition rsp_get_packet :: "bool \<Rightarrow> ('z dpi_scheme, int \<times> string) prog" where
  "rsp_get_packet ack =
     bnd (get_loop (replicate buffer_size nul) []) (\<lambda>str.
     let len = int (length str); pkt = sv_substr str 1 (len - 4) in
     seq (check (4 \<le> length str) (Undefined OutOfBounds))
    (let checksum = sum_list (map byte_of_char pkt);
         checksum_ref = sv_substr str (len - 2) (len - 1);
         checksum_str = format_02x checksum in
     if checksum_ref \<noteq> checksum_str then
       seq (if ack then rsp_write ''-'' else returns ()) (returns (- 1, pkt))
     else
       seq (if ack then rsp_write ''+'' else returns ()) (returns (0, pkt))))"

section \<open>Text and hexadecimal digits\<close>

text \<open>
  \<open>rsp_ascii2hex\<close> and \<open>rsp_hex2ascii\<close>.  A pair that \<open>$sscanf\<close> cannot convert leaves the character
  that the string was filled with; storing the character 0 in a string has no effect, so the pair
  00 leaves it as well.
\<close>

definition rsp_ascii2hex :: "string \<Rightarrow> string" where
  "rsp_ascii2hex ascii = concat (map (\<lambda>c. format_02x (byte_of_char c)) ascii)"

text \<open>
  The conversion \<open>%h\<close> of \<open>$sscanf\<close> with an optional width, into a 2-state variable: after white
  space, digits, the 4-state digits \<open>x\<close>, \<open>z\<close> and \<open>?\<close>, which count as 0, and underscores, which are
  skipped.
\<close>

definition is_sv_hex :: "char \<Rightarrow> bool" where
  "is_sv_hex c \<longleftrightarrow> is_hex c \<or> c \<in> set ''xXzZ?_''"

definition sv_hex_number :: "string \<Rightarrow> nat" where
  "sv_hex_number ds = foldl (\<lambda>a c. if c = CHR ''_'' then a
     else 16 * a + (case hex_val c of Some v \<Rightarrow> v | None \<Rightarrow> 0)) 0 ds"

definition sv_scan_h :: "nat option \<Rightarrow> string \<Rightarrow> (nat \<times> string) option" where
  "sv_scan_h w str =
     (let rest = dropWhile is_space str;
          field = (case w of None \<Rightarrow> rest | Some n \<Rightarrow> take n rest);
          ds = takeWhile is_sv_hex field in
      if ds = [] then None else Some (sv_hex_number ds, drop (length ds) rest))"

definition hex2char :: "string \<Rightarrow> char" where
  "hex2char pair = (case sv_scan_h (Some 2) pair of
      None \<Rightarrow> CHR ''-''
    | Some (v, _) \<Rightarrow> let c = char_of v in if c = nul then CHR ''-'' else c)"

fun rsp_hex2ascii :: "string \<Rightarrow> string" where
  "rsp_hex2ascii (a # b # hex) = hex2char [a, b] # rsp_hex2ascii hex"
| "rsp_hex2ascii _ = []"

section \<open>What is sent\<close>

lemma sum_list_checksum: "sum_list (map byte_of_char p) = checksum p"
  by (induction p) (simp_all add: checksum_def accumulate_Cons byte_of_char_def)

text \<open>The socket takes every write of at most two bytes completely.\<close>

definition tx_wide :: "'z env_scheme \<Rightarrow> bool" where
  "tx_wide s \<longleftrightarrow> (\<forall>e \<in> set (txq s). case e of Accept k \<Rightarrow> 2 \<le> k | SendError _ \<Rightarrow> False)"

lemma rsp_write_wide:
  assumes "tx_wide s" and "length str \<le> 2"
  shows "rsp_write str s = Some (Val (), s\<lparr>sent := sent s @ str, txq := tl (txq s)\<rparr>)"
proof -
  have small: "int_of_ssize (int (length str)) = int (length str)"
    using assms(2) by (simp add: int_of_ssize_small)
  have "os_send str s = Some (Val (int (length str), 0), s\<lparr>sent := sent s @ str, txq := tl (txq s)\<rparr>)"
  proof (cases "txq s")
    case Nil
    then show ?thesis by (simp add: os_send_def)
  next
    case (Cons e q)
    with assms obtain k where "e = Accept k" "length str \<le> k"
      by (auto simp: tx_wide_def split: tx_event.splits)
    with Cons show ?thesis by (simp add: os_send_def)
  qed
  with small show ?thesis
    by (simp add: rsp_write_def socket_send_def)
qed

lemma tx_wide_sent: "tx_wide s \<Longrightarrow> tx_wide (s\<lparr>sent := w, txq := drop n (txq s)\<rparr>)"
  by (auto simp: tx_wide_def dest: in_set_dropD)

lemma rsp_write_chars_wide:
  assumes "tx_wide s"
  shows "rsp_write_chars cs k s = Some (Val (k + checksum cs),
    s\<lparr>sent := sent s @ cs, txq := drop (length cs) (txq s)\<rparr>)"
  using assms
proof (induction cs arbitrary: k s)
  case Nil
  then show ?case by (simp add: checksum_def)
next
  case (Cons c cs)
  have "checksum (c # cs) = byte_of_char c + checksum cs"
    using checksum_append [of "[c]" cs] by (simp add: checksum_single)
  with Cons show ?case
    using tx_wide_sent [of s 1 "sent s @ [c]"]
    by (simp add: rsp_write_wide drop_Suc add.assoc)
qed

lemma tx_wide_after:
  "tx_wide s \<Longrightarrow> tx_wide (s\<lparr>sent := w, txq := tl (txq s)\<rparr>)"
  using tx_wide_sent [of s 1 w] by (simp add: drop_Suc)

lemma rsp_send_packet_wide:
  assumes "tx_wide s"
  shows "rsp_send_packet pkt ack s =
    (if ack then bnd (socket_recv [nul] 0) (\<lambda>(status, ch). returns (if ch ! 0 = CHR ''+'' then 0 else - 1))
     else returns 0) (s\<lparr>sent := sent s @ format_packet pkt, txq := drop (length pkt + 3) (txq s)\<rparr>)"
proof -
  let ?at = "\<lambda>w n. s\<lparr>sent := sent s @ w, txq := drop n (txq s)\<rparr>"
  have wide: "tx_wide (?at w n)" for w n
    using assms by (rule tx_wide_sent)
  have next_step: "rsp_write str (?at w n) = Some (Val (), ?at (w @ str) (Suc n))" if "length str \<le> 2" for str w n
    using rsp_write_wide [OF wide that] by (simp add: drop_Suc tl_drop [symmetric])
  have chars: "rsp_write_chars pkt 0 (?at ''$'' 1) = Some (Val (checksum pkt), ?at (''$'' @ pkt) (length pkt + 1))"
    using rsp_write_chars_wide [OF wide, of pkt 0 1 "''$''"] by (simp add: add.commute)
  have "rsp_write ''$'' s = Some (Val (), ?at ''$'' 1)"
    using next_step [of "''$''" 0 "[]"] by simp
  with chars next_step show ?thesis
    by (simp add: rsp_send_packet_def format_packet_def numeral_3_eq_3)
qed

section \<open>What is received\<close>

lemma sv_string_no_nul: "nul \<notin> set str \<Longrightarrow> sv_string (str @ replicate n nul) = str"
  by (auto simp: sv_string_def filter_id_conv)

lemma socket_recv_fits:
  assumes "rxq s = Chunk c # q" and "length c \<le> length buf" and "length buf = buffer_size"
  shows "socket_recv buf 0 s = Some (Val (int (length c), overwrite 0 c buf), s\<lparr>rxq := q\<rparr>)"
proof -
  have "int_of_ssize (int (length c)) = int (length c)"
    using assms by (simp add: int_of_ssize_small buffer_size_def)
  then show ?thesis
    using assms by (simp add: socket_recv_def os_recv_def bnd_def Let_def)
qed

lemma overwrite_0: "overwrite 0 c buf = c @ drop (length c) buf"
  by (simp add: overwrite_def)

lemma get_loop_chunk:
  assumes "rxq s = Chunk c # q" and "length c \<le> length buf" and "length buf = buffer_size"
  shows "get_loop buf str s =
    (let str' = str @ sv_string (overwrite 0 c buf) in
     if third_last str' = CHR ''#'' then Some (Val str', s\<lparr>rxq := q\<rparr>)
     else get_loop (overwrite 0 c buf) str' (s\<lparr>rxq := q\<rparr>))"
  by (subst get_loop.simps) (simp add: socket_recv_fits [OF assms] Let_def)

lemma get_loop_whole:
  assumes "rxq s = Chunk c # q" and "length c \<le> buffer_size" and "nul \<notin> set c"
    and "third_last c = CHR ''#''"
  shows "get_loop (replicate buffer_size nul) [] s = Some (Val c, s\<lparr>rxq := q\<rparr>)"
  using assms by (simp add: get_loop_chunk overwrite_0 sv_string_no_nul)

lemma frame_parts:
  assumes "c = CHR ''$'' # p @ CHR ''#'' # ds" and "length ds = 2"
  shows "third_last c = CHR ''#''" and "sv_substr c 1 (int (length c) - 4) = p"
    and "sv_substr c (int (length c) - 2) (int (length c) - 1) = ds"
proof -
  show "third_last c = CHR ''#''"
    using assms by (simp add: third_last_def nth_append)
  show "sv_substr c 1 (int (length c) - 4) = p"
    using assms by (cases "p = []") (auto simp: sv_substr_def nat_diff_distrib)
  have "drop (Suc (Suc (length p))) c = ds"
    using assms by simp
  moreover have "nat (int (length c) - 2) = Suc (Suc (length p))"
    using assms by simp
  ultimately show "sv_substr c (int (length c) - 2) (int (length c) - 1) = ds"
    using assms by (simp add: sv_substr_def)
qed

lemma rsp_get_packet_frame:
  assumes rx: "rxq s = Chunk c # q" and c: "c = CHR ''$'' # p @ CHR ''#'' # ds" "length ds = 2"
    and fits: "length c \<le> buffer_size" and nul: "nul \<notin> set c" and wide: "tx_wide s"
  shows "rsp_get_packet ack s =
    (let ok = (ds = format_02x (checksum p)) in
     Some (Val (if ok then 0 else - 1, p),
       if ack then s\<lparr>rxq := q, sent := sent s @ (if ok then ''+'' else ''-''), txq := tl (txq s)\<rparr>
       else s\<lparr>rxq := q\<rparr>))"
proof -
  note parts = frame_parts [OF c]
  have "tx_wide (s\<lparr>rxq := q\<rparr>)"
    using wide by (simp add: tx_wide_def)
  then have ack: "rsp_write str (s\<lparr>rxq := q\<rparr>) =
      Some (Val (), s\<lparr>rxq := q, sent := sent s @ str, txq := tl (txq s)\<rparr>)" if "length str \<le> 2" for str
    using that by (simp add: rsp_write_wide)
  have "4 \<le> length c"
    using c by simp
  then show ?thesis
    using get_loop_whole [OF rx fits nul parts(1)]
    by (auto simp: rsp_get_packet_def Let_def parts sum_list_checksum ack)
qed

text \<open>
  Receiving in the SystemVerilog stub.  A frame that arrives in one piece of at most
  512 bytes is answered by its checksum alone: with the two digits that belong to the payload the
  call returns 0 and, in acknowledge mode, sends a plus sign, otherwise it returns -1 and sends a
  minus sign; the payload is delivered in both cases and nothing else changes.
\<close>

theorem sv_get_packet:
  assumes "rxq s = Chunk c # q" and "c = CHR ''$'' # p @ CHR ''#'' # ds" and "length ds = 2"
    and "length c \<le> buffer_size" and "nul \<notin> set c" and "tx_wide s"
  shows "rsp_get_packet ack s =
    (let ok = (ds = format_02x (checksum p)) in
     Some (Val (if ok then 0 else - 1, p),
       if ack then s\<lparr>rxq := q, sent := sent s @ (if ok then ''+'' else ''-''), txq := tl (txq s)\<rparr>
       else s\<lparr>rxq := q\<rparr>))"
  using assms by (rule rsp_get_packet_frame)

definition demo_link :: "string \<Rightarrow> dpi" where
  "demo_link c = \<lparr>rxq = [Chunk c], txq = [], clients = [], sent = [], cout = [], sfd = 3, cfd = 4\<rparr>"

lemma demo_link_simps [simp]:
  "rxq (demo_link c) = [Chunk c]" "txq (demo_link c) = []" "sent (demo_link c) = []"
  by (simp_all add: demo_link_def)

lemma demo_link_wide: "tx_wide (demo_link c)"
  by (simp add: tx_wide_def)

lemma checksum_g: "format_02x (checksum ''g'') = ''67''"
  by (simp add: checksum_def accumulate_def format_02x_def hex_digit_def)

theorem sv_get_packet_witness:
  "rsp_get_packet True (demo_link ''$g#67'') =
     Some (Val (0, ''g''), (demo_link ''$g#67'')\<lparr>rxq := [], sent := ''+'', txq := []\<rparr>) \<and>
   rsp_get_packet True (demo_link ''$g#68'') =
     Some (Val (- 1, ''g''), (demo_link ''$g#68'')\<lparr>rxq := [], sent := ''-'', txq := []\<rparr>)"
  using sv_get_packet [OF demo_link_simps(1), where c = "''$g#67''" and p = "''g''" and ds = "''67''" and ack = True]
    sv_get_packet [OF demo_link_simps(1), where c = "''$g#68''" and p = "''g''" and ds = "''68''" and ack = True]
  by (simp add: checksum_g demo_link_wide buffer_size_def nul_def)

lemma format_02x_not_nul: "nul \<notin> set (format_02x b)"
  using set_format_02x [of nul b] by (auto simp: is_hex_def hex_val_def nul_def)

lemma get_formatted:
  assumes "nul \<notin> set p" and "length p + 4 \<le> buffer_size" and "rxq s = Chunk (format_packet p) # q"
    and "tx_wide s"
  shows "rsp_get_packet ack s = Some (Val (0, p),
    if ack then s\<lparr>rxq := q, sent := sent s @ ''+'', txq := tl (txq s)\<rparr> else s\<lparr>rxq := q\<rparr>)"
proof -
  have "nul \<notin> set (format_packet p)"
    using assms(1) format_02x_not_nul [of "checksum p"] by (auto simp: format_packet_def nul_def)
  then show ?thesis
    using rsp_get_packet_frame [OF assms(3), of p "format_02x (checksum p)" ack] assms
    by (simp add: format_packet_def format_02x_def)
qed

text \<open>
  What the stub sends, a stub receives.  A payload of at most 508 characters sent by
  \<open>rsp_send_packet\<close> and delivered in one piece comes out of \<open>rsp_get_packet\<close> unchanged, with status 0,
  and is acknowledged with a plus sign.
\<close>

theorem sv_packet_roundtrip:
  assumes "nul \<notin> set p" and "length p + 4 \<le> buffer_size" and "tx_wide d" and "tx_wide s"
    and "rsp_send_packet p False d = Some (r, d')"
    and "rxq s = Chunk (drop (length (sent d)) (sent d')) # q"
  shows "r = Val 0 \<and> (\<exists>s'. rsp_get_packet True s = Some (Val (0, p), s') \<and> sent s' = sent s @ ''+'')"
proof -
  have r: "r = Val 0" and "sent d' = sent d @ format_packet p"
    using assms(5) by (auto simp: rsp_send_packet_wide [OF assms(3)])
  then have "rxq s = Chunk (format_packet p) # q"
    using assms(6) by simp
  from get_formatted [OF assms(1,2) this assms(4)] r show ?thesis by simp
qed

theorem sv_packet_roundtrip_witness:
  "\<exists>s'. rsp_get_packet True (demo_link (format_packet ''m100,4'')) = Some (Val (0, ''m100,4''), s') \<and>
    sent s' = ''+''"
  using sv_packet_roundtrip [of "''m100,4''" "demo_link []" "demo_link (format_packet ''m100,4'')" "Val 0"
      "(demo_link [])\<lparr>sent := format_packet ''m100,4'', txq := []\<rparr>" "[]"]
  by (simp add: rsp_send_packet_wide [OF demo_link_wide] demo_link_wide buffer_size_def nul_def)

section \<open>The two packet layers compared\<close>

lemma tx_wide_ready: "tx_wide s \<Longrightarrow> tx_ready s"
  by (fastforce simp: tx_wide_def tx_ready_def split: tx_event.splits)

text \<open>
  Property C26: the two servers put the same bytes on the wire.  From states that agree up to
  messages, on a socket that takes short writes completely, \<open>rsp_send_packet\<close> of the stub and
  \<open>Packet::tx\<close> of the C++ server send the same frame and return normally.  They differ in the
  acknowledgement that follows: the C++ server accepts every byte but a minus sign, the stub reports
  success for a plus sign only, and neither repeats the packet.
\<close>

theorem sv_send_equivalent:
  fixes s :: "'z packet_scheme"
  assumes "silent d = dpi_view s" and "tx_wide d"
  shows "(\<exists>s' d'. tx pkt False s = Some (Val (), s') \<and> rsp_send_packet pkt False d = Some (Val 0, d') \<and>
      sent s' = sent s @ format_packet pkt \<and> sent d' = sent s' \<and> rxq d' = rxq s') \<and>
    (\<forall>c q. rxq s = Chunk [c] # q \<longrightarrow>
      (returns_normally (tx pkt True s) \<longleftrightarrow> c \<noteq> CHR ''-'') \<and>
      (\<exists>d'. rsp_send_packet pkt True d = Some (Val (if c = CHR ''+'' then 0 else - 1), d') \<and>
        sent d' = sent s @ format_packet pkt \<and> rxq d' = q))"
proof -
  note same = dpi_view_components [OF assms(1)]
  have "tx_ready s"
    using tx_wide_ready [OF assms(2)] same by (simp add: tx_ready_def)
  note cxx = tx_packet [OF this, of pkt]
  note sv = rsp_send_packet_wide [OF assms(2), of pkt]
  have "\<exists>s' d'. tx pkt False s = Some (Val (), s') \<and> rsp_send_packet pkt False d = Some (Val 0, d') \<and>
      sent s' = sent s @ format_packet pkt \<and> sent d' = sent s' \<and> rxq d' = rxq s'"
    using cxx [of False] sv [of False] same by auto
  moreover have "returns_normally (tx pkt True s) \<longleftrightarrow> c \<noteq> CHR ''-''" if "rxq s = Chunk [c] # q" for c q
    using cxx [of True] that
    by (auto simp: returns_normally_def recv_def bnd_def NACK_def split: if_splits)
  moreover have "\<exists>d'. rsp_send_packet pkt True d = Some (Val (if c = CHR ''+'' then 0 else - 1), d') \<and>
        sent d' = sent s @ format_packet pkt \<and> rxq d' = q" if "rxq s = Chunk [c] # q" for c q
  proof -
    have one: "int_of_ssize 1 = 1"
      using int_of_ssize_small [of 1] by simp
    show ?thesis
      using that same unfolding sv
      by (simp add: socket_recv_def os_recv_def bnd_def Let_def one overwrite_0)
  qed
  ultimately show ?thesis by blast
qed

definition demo_peer :: packet where
  "demo_peer = \<lparr>rxq = [Chunk ''+''], txq = [], clients = [], sent = [], cout = [], m_tcp = False,
     m_socketFd = 3, m_clientFd = 4, m_buffer = []\<rparr>"

theorem sv_send_equivalent_witness:
  "(\<exists>s' d'. tx ''OK'' False demo_peer = Some (Val (), s') \<and>
      rsp_send_packet ''OK'' False (demo_link ''+'') = Some (Val 0, d') \<and>
      sent s' = format_packet ''OK'' \<and> sent d' = format_packet ''OK'') \<and>
    returns_normally (tx ''OK'' True demo_peer)"
proof -
  have view: "silent (demo_link ''+'') = dpi_view demo_peer"
    by (simp add: demo_link_def demo_peer_def silent_def dpi_view_def)
  have rx: "rxq demo_peer = Chunk [CHR ''+''] # []" and "sent demo_peer = []"
    by (simp_all add: demo_peer_def)
  with sv_send_equivalent [OF view demo_link_wide, of "''OK''"] show ?thesis
    by fastforce
qed

section \<open>A packet in two pieces\<close>

lemma get_loop_empty:
  "rxq s = [] \<Longrightarrow> get_loop buf str s = Some (Fail Blocked, s)"
  by (subst get_loop.simps) (simp add: socket_recv_def os_recv_def bnd_def)

lemma get_loop_two:
  assumes rx: "rxq s = [Chunk c1, Chunk c2]" and fits: "length c1 \<le> buffer_size"
    and shorter: "length c2 < length c1" and nul: "nul \<notin> set c1" "nul \<notin> set c2"
    and more: "third_last c1 \<noteq> CHR ''#''"
    and res: "get_loop (replicate buffer_size nul) [] s = Some (Val str, s')"
  shows "str = c1 @ c2 @ drop (length c2) c1"
proof -
  let ?b = "c1 @ replicate (buffer_size - length c1) nul"
  let ?str = "c1 @ c2 @ drop (length c2) c1"
  have first: "get_loop (replicate buffer_size nul) [] s = get_loop ?b c1 (s\<lparr>rxq := [Chunk c2]\<rparr>)"
    using rx fits nul more by (simp add: get_loop_chunk overwrite_0 sv_string_no_nul)
  have "sv_string (overwrite 0 c2 ?b) = c2 @ drop (length c2) c1"
    using sv_string_no_nul [of "c2 @ drop (length c2) c1"] nul shorter in_set_dropD
    by (fastforce simp: overwrite_0)
  then have "get_loop ?b c1 (s\<lparr>rxq := [Chunk c2]\<rparr>) =
      (if third_last ?str = CHR ''#'' then Some (Val ?str, s\<lparr>rxq := []\<rparr>)
       else get_loop (overwrite 0 c2 ?b) ?str (s\<lparr>rxq := []\<rparr>))"
    using fits shorter by (simp add: get_loop_chunk)
  with first res show ?thesis
    by (simp add: get_loop_empty split: if_splits)
qed

text \<open>
  Property C28: a packet that TCP delivers in two pieces, the second shorter than the first, is never
  received by the stub.  The loop appends the whole buffer after the second call of \<open>socket_recv\<close>,
  with the rest of the first piece still in it, so that the call either waits for more or delivers
  another payload than the one sent.
\<close>

theorem sv_split_packet_lost:
  assumes "rxq s = [Chunk c1, Chunk c2]" and "c1 @ c2 = format_packet p" and "length c2 < length c1"
    and "third_last c1 \<noteq> CHR ''#''" and "nul \<notin> set p" and "length p + 4 \<le> buffer_size"
  shows "rsp_get_packet ack s \<noteq> Some (Val (st, p), s')"
proof
  assume res: "rsp_get_packet ack s = Some (Val (st, p), s')"
  then obtain str s1 where str: "get_loop (replicate buffer_size nul) [] s = Some (Val str, s1)"
      and p: "sv_substr str 1 (int (length str) - 4) = p" and four: "4 \<le> length str"
    by (auto simp: rsp_get_packet_def Let_def seq_def elim!: bnd_ValE split: if_splits)
  have "nul \<notin> set (c1 @ c2)"
    unfolding assms(2) using assms(5) format_02x_not_nul [of "checksum p"]
    by (auto simp: format_packet_def nul_def)
  moreover have len: "length c1 + length c2 = length p + 4"
    using arg_cong [OF assms(2), of length] by simp
  ultimately have "str = c1 @ c2 @ drop (length c2) c1"
    using get_loop_two [OF assms(1) _ assms(3) _ _ assms(4) str] assms(6) by simp
  then have "length p + 4 < length str"
    using len assms(3) by simp
  moreover have "length (sv_substr str 1 (int (length str) - 4)) = length str - 4"
    using four by (auto simp: sv_substr_def)
  ultimately show False
    using p by simp
qed

theorem sv_split_packet_lost_witness:
  "rsp_get_packet True ((demo_link [])\<lparr>rxq := [Chunk ''$m100,4'', Chunk ''#5e'']\<rparr>)
    \<noteq> Some (Val (0, ''m100,4''), (demo_link [])\<lparr>rxq := [], sent := ''+''\<rparr>)"
proof (rule sv_split_packet_lost [where ?c1.0 = "''$m100,4''" and ?c2.0 = "''#5e''"])
  show "''$m100,4'' @ ''#5e'' = format_packet ''m100,4''"
    by (simp add: format_packet_def checksum_def accumulate_def format_02x_def hex_digit_def)
qed (simp_all add: third_last_def nul_def buffer_size_def)

section \<open>Hexadecimal text\<close>

lemma sv_hex_number_eq:
  assumes "\<forall>c \<in> set ds. is_hex c"
  shows "sv_hex_number ds = hex_number ds"
proof -
  have "foldl (\<lambda>a c. if c = CHR ''_'' then a
      else 16 * a + (case hex_val c of Some v \<Rightarrow> v | None \<Rightarrow> 0)) k ds =
    foldl (\<lambda>a c. 16 * a + the (hex_val c)) k ds" for k
    using assms by (induction ds arbitrary: k) (auto simp: is_hex_def hex_val_def split: option.splits)
  then show ?thesis
    by (simp add: sv_hex_number_def hex_number_def)
qed

lemma sv_scan_hex:
  assumes "\<forall>c \<in> set ds. is_hex c" and "ds \<noteq> []" and "n = length ds"
  shows "sv_scan_h (Some n) (ds @ r) = Some (hex_number ds, r)"
proof -
  have "\<not> is_space (hd ds)"
    using assms(1,2) hex_not_special(1) by (cases ds) auto
  then have "dropWhile is_space (ds @ r) = ds @ r"
    using assms(2) by (cases ds) auto
  moreover have all: "takeWhile is_sv_hex ds = ds"
    using assms(1) by (subst takeWhile_eq_all_conv) (simp add: is_sv_hex_def)
  ultimately show ?thesis
    using assms(2,3) by (simp add: sv_scan_h_def Let_def sv_hex_number_eq [OF assms(1)] all
      del: takeWhile_eq_all_conv)
qed

lemma hex2char_format: "c \<noteq> nul \<Longrightarrow> hex2char (format_02x (byte_of_char c)) = c"
proof -
  assume c: "c \<noteq> nul"
  let ?ds = "format_02x (byte_of_char c)"
  have "\<forall>d \<in> set ?ds. is_hex d" "?ds \<noteq> []"
    by (blast intro: set_format_02x) (simp add: format_02x_def)
  then have "sv_scan_h (Some 2) ?ds = Some (of_char c, [])"
    using sv_scan_hex [of ?ds 2 "[]"] by simp
  with c show ?thesis by (simp add: hex2char_def)
qed

lemma hex2ascii_pair: "rsp_hex2ascii (format_02x b @ hex) = hex2char (format_02x b) # rsp_hex2ascii hex"
  by (simp add: format_02x_def)

text \<open>
  Text survives the way through hexadecimal digits and back, for every text the
  language can hold (no character 0).
\<close>

theorem sv_hex_roundtrip:
  assumes "nul \<notin> set p"
  shows "rsp_hex2ascii (rsp_ascii2hex p) = p"
  using assms by (induction p) (auto simp: rsp_ascii2hex_def hex2ascii_pair hex2char_format)

theorem sv_hex_roundtrip_witness: "rsp_hex2ascii (rsp_ascii2hex ''reset assert'') = ''reset assert''"
  by (rule sv_hex_roundtrip) (simp add: nul_def)

end
