(* ===== verification/Sv_Shadow.thy ===== *)
theory Sv_Shadow
  imports Std_Map MemoryMap
begin

text \<open>
  The shadow of the simulated processor in the SystemVerilog stub (\<open>hdl/gdb_shadow_pkg.sv\<close>): the
  class \<open>gdb_shadow\<close> with its registers, memories, I/O dictionary, trace of retired instructions,
  breakpoints and watchpoints.  It is the part of the repository that implements record, replay
  and reverse execution.

  The class is taken at its default widths, \<open>XLEN = 32\<close> and \<open>SIZE_T = int unsigned\<close>; the number of
  registers and the memory map stay parameters (the record \<open>sv_config\<close>).  What the language adds to
  the code is modelled explicitly: 4-state vectors and their conversions, reads and writes outside
  an array (the element's default value, no effect), streaming slices (a read beyond the end is
  filled with the default value, a write beyond the end extends a dynamic array), associative
  arrays, and unsigned counters that wrap around.  Sizes of dynamic arrays are \<open>nat\<close>, since they
  are non-negative \<open>int\<close> values in the language.  A reference to an element of a queue that does
  not exist is the outcome \<^const>\<open>None\<close>.  Calls of \<open>$display\<close> have no counterpart.
\<close>

unbundle bit_operations_syntax

section \<open>Values of the language\<close>

text \<open>
  A 4-state vector as a pair of words: a bit whose \<open>bval\<close> is 0 has the value of \<open>aval\<close>; a bit whose
  \<open>bval\<close> is 1 is unknown (\<open>x\<close>) or, when \<open>aval\<close> is 0, undriven (\<open>z\<close>).
\<close>

datatype logic = Logic (aval: "32 word") (bval: "32 word")

definition all_x :: logic where
  "all_x = Logic (- 1) (- 1)"

definition of_bits :: "32 word \<Rightarrow> logic" where
  "of_bits w = Logic w 0"

definition to_bits :: "logic \<Rightarrow> 32 word" where
  "to_bits v = aval v AND NOT (bval v)"

definition elem :: "logic list \<Rightarrow> nat \<Rightarrow> logic" where
  "elem xs i = (if i < length xs then xs ! i else all_x)"

text \<open>\<open>{>>{xs with [off +: n]}}\<close> as a source and as a target.\<close>

definition stream_read :: "nat \<Rightarrow> nat \<Rightarrow> byte list \<Rightarrow> byte list" where
  "stream_read off n xs = map (\<lambda>i. if i < length xs then xs ! i else 0) [off ..< off + n]"

definition stream_write :: "nat \<Rightarrow> byte list \<Rightarrow> byte list \<Rightarrow> byte list" where
  "stream_write off bs xs = overwrite off bs (xs @ replicate (off + length bs - length xs) 0)"

section \<open>Signals and points\<close>

definition SIGNONE :: byte where "SIGNONE = 0"
definition SIGINT :: byte where "SIGINT = 2"
definition SIGQUIT :: byte where "SIGQUIT = 3"
definition SIGILL :: byte where "SIGILL = 4"
definition SIGTRAP :: byte where "SIGTRAP = 5"

definition swbreak :: "32 word" where "swbreak = 0"
definition hwbreak :: "32 word" where "hwbreak = 1"
definition watch :: "32 word" where "watch = 2"
definition rwatch :: "32 word" where "rwatch = 3"
definition awatch :: "32 word" where "awatch = 4"

lemmas ptype_defs = swbreak_def hwbreak_def watch_def rwatch_def awatch_def

record sv_point =
  sv_ptype :: "32 word"
  sv_pkind :: "32 word"

section \<open>Retired instructions\<close>

record sv_ifu =
  ifu_adr :: "32 word"
  ifu_pcn :: "32 word"
  ifu_rdt :: "byte list"
  ifu_ill :: bool

record sv_gpr =
  gpr_idx :: "5 word"
  gpr_rdt :: logic
  gpr_wdt :: logic

record sv_csr =
  csr_idx :: "12 word"
  csr_rdt :: "32 word"
  csr_wdt :: "32 word"

record sv_lsu =
  lsu_adr :: "32 word"
  lsu_rdt :: "byte list"
  lsu_wdt :: "byte list"

record sv_retired =
  rt_ifu :: sv_ifu
  rt_gpr :: "sv_gpr list"
  rt_csr :: "sv_csr list"
  rt_lsu :: sv_lsu

text \<open>The default value of the structure: 2-state members are 0 and dynamic arrays are empty.\<close>

definition retired_default :: sv_retired where
  "retired_default =
     \<lparr>rt_ifu = \<lparr>ifu_adr = 0, ifu_pcn = 0, ifu_rdt = [], ifu_ill = False\<rparr>, rt_gpr = [], rt_csr = [],
      rt_lsu = \<lparr>lsu_adr = 0, lsu_rdt = [], lsu_wdt = []\<rparr>\<rparr>"

section \<open>The state of the shadow\<close>

text \<open>The parameters of the class: \<open>MMAP\<close> lists the base and the size of every memory region.\<close>

record sv_config =
  GPRN :: nat
  CSRN :: nat
  MMAP :: "(32 word \<times> 32 word) list"

record gdb_shadow =
  s_gpr :: "logic list"
  s_pc :: "32 word"
  s_csr :: "logic list"
  s_mem :: "byte list list"
  s_io :: "(32 word, byte list) smap"
  s_cnt :: "32 word"
  s_trc :: "sv_retired list"
  s_ret :: sv_retired
  s_sig :: byte
  s_rsn :: sv_point
  s_bpt :: "(32 word, sv_point) smap"
  s_wpt :: "(32 word, sv_point) smap"

text \<open>
  The constructor.  The literal \<open>""\<close> that it assigns to \<open>rsn\<close> is the number 0, so the initial reason
  is a software breakpoint of kind 0 and not \<open>none\<close>.
\<close>

definition shd_new :: "sv_config \<Rightarrow> gdb_shadow" where
  "shd_new cfg =
     \<lparr>s_gpr = (replicate (GPRN cfg) all_x)[0 := of_bits 0],
      s_pc = 0,
      s_csr = replicate (CSRN cfg) all_x,
      s_mem = map (\<lambda>(base, size). replicate (unat size) 0) (MMAP cfg),
      s_io = [],
      s_cnt = - 1,
      s_trc = [],
      s_ret = retired_default,
      s_sig = SIGTRAP,
      s_rsn = \<lparr>sv_ptype = 0, sv_pkind = 0\<rparr>,
      s_bpt = [],
      s_wpt = []\<rparr>"

section \<open>Register access\<close>

definition shd_reg_write :: "sv_config \<Rightarrow> 32 word \<Rightarrow> 32 word \<Rightarrow> gdb_shadow \<Rightarrow> gdb_shadow" where
  "shd_reg_write cfg idx val s =
     (if unat idx < GPRN cfg then s\<lparr>s_gpr := (s_gpr s)[unat idx := of_bits val]\<rparr>
      else if unat idx = GPRN cfg then s\<lparr>s_pc := val\<rparr>
      else s\<lparr>s_csr := (s_csr s)[unat idx - 1 - GPRN cfg := of_bits val]\<rparr>)"

definition shd_reg_read :: "sv_config \<Rightarrow> gdb_shadow \<Rightarrow> 32 word \<Rightarrow> logic" where
  "shd_reg_read cfg s idx =
     (if unat idx < GPRN cfg then elem (s_gpr s) (unat idx)
      else if unat idx = GPRN cfg then of_bits (s_pc s)
      else elem (s_csr s) (unat idx - 1 - GPRN cfg))"

section \<open>Memory access\<close>

text \<open>The region an address belongs to: the first match of the loop, in 32-bit arithmetic.\<close>

definition in_region :: "32 word \<times> 32 word \<Rightarrow> 32 word \<Rightarrow> bool" where
  "in_region r adr \<longleftrightarrow> fst r \<le> adr \<and> adr < fst r + snd r"

definition region_of :: "sv_config \<Rightarrow> 32 word \<Rightarrow> nat option" where
  "region_of cfg adr = find (\<lambda>blk. in_region (MMAP cfg ! blk) adr) [0 ..< length (MMAP cfg)]"

definition region_offset :: "sv_config \<Rightarrow> nat \<Rightarrow> 32 word \<Rightarrow> nat" where
  "region_offset cfg blk adr = unat (adr - fst (MMAP cfg ! blk))"

definition io_read :: "(32 word, byte list) smap \<Rightarrow> 32 word \<Rightarrow> byte list" where
  "io_read io adr = (case map_find io adr of Some bs \<Rightarrow> bs | None \<Rightarrow> [])"

definition shd_mem_read :: "sv_config \<Rightarrow> gdb_shadow \<Rightarrow> 32 word \<Rightarrow> nat \<Rightarrow> byte list" where
  "shd_mem_read cfg s adr siz = (case region_of cfg adr of
      Some blk \<Rightarrow> stream_read (region_offset cfg blk adr) siz (s_mem s ! blk)
    | None \<Rightarrow> io_read (s_io s) adr)"

definition shd_mem_write :: "sv_config \<Rightarrow> 32 word \<Rightarrow> byte list \<Rightarrow> gdb_shadow \<Rightarrow> gdb_shadow" where
  "shd_mem_write cfg adr dat s = (case region_of cfg adr of
      Some blk \<Rightarrow>
        s\<lparr>s_mem := (s_mem s)[blk := stream_write (region_offset cfg blk adr) dat (s_mem s ! blk)]\<rparr>
    | None \<Rightarrow> s\<lparr>s_io := map_set adr dat (s_io s)\<rparr>)"

section \<open>Update, record, replay, revert\<close>

fun write_gprs :: "(5 word \<times> logic) list \<Rightarrow> logic list \<Rightarrow> logic list" where
  "write_gprs [] g = g"
| "write_gprs ((idx, v) # ws) g = write_gprs ws (g[unat idx := v])"

fun write_csrs :: "(12 word \<times> 32 word) list \<Rightarrow> logic list \<Rightarrow> logic list" where
  "write_csrs [] c = c"
| "write_csrs ((idx, v) # ws) c = write_csrs ws (c[unat idx := of_bits v])"

definition shd_update :: "sv_config \<Rightarrow> sv_retired \<Rightarrow> gdb_shadow \<Rightarrow> gdb_shadow" where
  "shd_update cfg ret s =
    (let s1 = shd_mem_write cfg (ifu_adr (rt_ifu ret)) (ifu_rdt (rt_ifu ret)) s;
         s2 = s1\<lparr>s_pc := ifu_adr (rt_ifu ret)\<rparr>;
         s3 = s2\<lparr>s_csr := write_csrs (map (\<lambda>c. (csr_idx c, csr_rdt c)) (rt_csr ret)) (s_csr s2)\<rparr>
     in shd_mem_write cfg (lsu_adr (rt_lsu ret)) (lsu_rdt (rt_lsu ret)) s3)"

text \<open>
  \<open>record\<close> reads the instruction bytes at the address of the entry first and then replaces that
  address by the program counter of the shadow.
\<close>

definition shd_record :: "sv_config \<Rightarrow> gdb_shadow \<Rightarrow> sv_retired \<Rightarrow> sv_retired" where
  "shd_record cfg s ret =
     \<lparr>rt_ifu = (rt_ifu ret)
        \<lparr>ifu_rdt := shd_mem_read cfg s (ifu_adr (rt_ifu ret)) (length (ifu_rdt (rt_ifu ret))),
         ifu_adr := s_pc s\<rparr>,
      rt_gpr = map (\<lambda>g. g\<lparr>gpr_rdt := elem (s_gpr s) (unat (gpr_idx g))\<rparr>) (rt_gpr ret),
      rt_csr = map (\<lambda>c. c\<lparr>csr_rdt := to_bits (elem (s_csr s) (unat (csr_idx c)))\<rparr>) (rt_csr ret),
      rt_lsu = (rt_lsu ret)
        \<lparr>lsu_rdt := shd_mem_read cfg s (lsu_adr (rt_lsu ret)) (length (lsu_wdt (rt_lsu ret)))\<rparr>\<rparr>"

definition replay :: "sv_config \<Rightarrow> sv_retired \<Rightarrow> gdb_shadow \<Rightarrow> gdb_shadow" where
  "replay cfg ret s =
     shd_mem_write cfg (lsu_adr (rt_lsu ret)) (lsu_wdt (rt_lsu ret))
       (s\<lparr>s_pc := ifu_pcn (rt_ifu ret),
          s_gpr := write_gprs (map (\<lambda>g. (gpr_idx g, gpr_wdt g)) (rt_gpr ret)) (s_gpr s),
          s_csr := write_csrs (map (\<lambda>c. (csr_idx c, csr_wdt c)) (rt_csr ret)) (s_csr s)\<rparr>)"

definition revert :: "sv_config \<Rightarrow> sv_retired \<Rightarrow> gdb_shadow \<Rightarrow> gdb_shadow" where
  "revert cfg ret s =
     shd_mem_write cfg (lsu_adr (rt_lsu ret)) (lsu_rdt (rt_lsu ret))
       (s\<lparr>s_pc := ifu_adr (rt_ifu ret),
          s_gpr := write_gprs (map (\<lambda>g. (gpr_idx g, gpr_rdt g)) (rt_gpr ret)) (s_gpr s),
          s_csr := write_csrs (map (\<lambda>c. (csr_idx c, csr_rdt c)) (rt_csr ret)) (s_csr s)\<rparr>)"

section \<open>Breakpoints and watchpoints\<close>

definition point_insert :: "32 word \<Rightarrow> 32 word \<Rightarrow> 32 word \<Rightarrow> gdb_shadow \<Rightarrow> int \<times> gdb_shadow" where
  "point_insert ptype addr pkind s =
     (let p = \<lparr>sv_ptype = ptype, sv_pkind = pkind\<rparr> in
      if ptype \<in> {swbreak, hwbreak} then
        let b = map_set addr p (s_bpt s) in (int (map_size b), s\<lparr>s_bpt := b\<rparr>)
      else if ptype \<in> {watch, rwatch, awatch} then
        let w = map_set addr p (s_wpt s) in (int (map_size w), s\<lparr>s_wpt := w\<rparr>)
      else (0, s))"

definition point_remove :: "32 word \<Rightarrow> 32 word \<Rightarrow> 32 word \<Rightarrow> gdb_shadow \<Rightarrow> int \<times> gdb_shadow" where
  "point_remove ptype addr pkind s =
     (if ptype \<in> {swbreak, hwbreak} then
        let b = map_erase addr (s_bpt s) in (int (map_size b), s\<lparr>s_bpt := b\<rparr>)
      else if ptype \<in> {watch, rwatch, awatch} then
        let w = map_erase addr (s_wpt s) in (int (map_size w), s\<lparr>s_wpt := w\<rparr>)
      else (0, s))"

definition breakpoint_match :: "sv_retired \<Rightarrow> gdb_shadow \<Rightarrow> gdb_shadow" where
  "breakpoint_match ret s =
     (let adr = ifu_adr (rt_ifu ret); rdt = ifu_rdt (rt_ifu ret) in
      if ifu_ill (rt_ifu ret) then s\<lparr>s_sig := SIGILL\<rparr>
      else if stream_read 0 4 rdt = [0x73, 0x00, 0x10, 0x00] \<or> stream_read 0 2 rdt = [0x02, 0x90]
      then s\<lparr>s_sig := SIGTRAP\<rparr>
      else (case map_find (s_bpt s) adr of
          Some p \<Rightarrow> if sv_ptype p = hwbreak then s\<lparr>s_sig := SIGTRAP, s_rsn := p\<rparr> else s
        | None \<Rightarrow> s))"

definition watchpoint_match :: "sv_retired \<Rightarrow> gdb_shadow \<Rightarrow> gdb_shadow" where
  "watchpoint_match ret s =
     (let adr = lsu_adr (rt_lsu ret); wen = (length (lsu_wdt (rt_lsu ret)) > 0) in
      case map_find (s_wpt s) adr of
        Some p \<Rightarrow>
          if sv_ptype p = watch \<and> wen \<or> sv_ptype p = rwatch \<and> \<not> wen \<or> sv_ptype p = awatch
          then s\<lparr>s_sig := SIGTRAP, s_rsn := p\<rparr> else s
      | None \<Rightarrow> s)"

section \<open>Steps\<close>

text \<open>\<open>trc[i]\<close> as a value; an element that does not exist has the default value.\<close>

definition trc_at :: "gdb_shadow \<Rightarrow> 32 word \<Rightarrow> sv_retired" where
  "trc_at s i = (if unat i < length (s_trc s) then s_trc s ! unat i else retired_default)"

text \<open>\<open>trc[i]\<close> passed by reference.\<close>

definition trc_ref :: "gdb_shadow \<Rightarrow> 32 word \<Rightarrow> sv_retired option" where
  "trc_ref s i = (if unat i < length (s_trc s) then Some (s_trc s ! unat i) else None)"

definition match_current :: "gdb_shadow \<Rightarrow> gdb_shadow" where
  "match_current s =
     (let s1 = s\<lparr>s_ret := trc_at s (s_cnt s)\<rparr>
      in watchpoint_match (s_ret s1) (breakpoint_match (s_ret s1) s1))"

text \<open>\<open>cnt == trc.size()\<close>: the size is an \<open>int\<close>, compared as an unsigned 32-bit number.\<close>

definition forward :: "sv_config \<Rightarrow> gdb_shadow \<Rightarrow> gdb_shadow option" where
  "forward cfg s =
    Option.bind
      (if s_cnt s \<noteq> - 1 then map_option (\<lambda>r. replay cfg r s) (trc_ref s (s_cnt s)) else Some s)
      (\<lambda>s1.
        let s2 = s1\<lparr>s_cnt := s_cnt s1 + 1\<rparr> in
        Option.bind
          (if s_cnt s2 = word_of_nat (length (s_trc s2)) then
             Option.bind (trc_ref s2 (s_cnt s2)) (\<lambda>r.
               let s3 = shd_update cfg r s2; r' = shd_record cfg s3 r
               in Some (s3\<lparr>s_trc := (s_trc s3)[unat (s_cnt s3) := r']\<rparr>))
           else Some s2)
          (\<lambda>s4. Some (match_current s4)))"

definition backward :: "sv_config \<Rightarrow> gdb_shadow \<Rightarrow> gdb_shadow option" where
  "backward cfg s =
    Option.bind
      (if s_cnt s \<noteq> 0 then map_option (\<lambda>r. revert cfg r s) (trc_ref s (s_cnt s - 1)) else Some s)
      (\<lambda>s1. Some (match_current (s1\<lparr>s_cnt := s_cnt s1 - 1\<rparr>)))"

section \<open>The type invariant\<close>

text \<open>Sizes of the arrays as declared, and the order of the associative arrays.\<close>

definition shd_wf :: "sv_config \<Rightarrow> gdb_shadow \<Rightarrow> bool" where
  "shd_wf cfg s \<longleftrightarrow>
     length (s_gpr s) = GPRN cfg \<and> length (s_csr s) = CSRN cfg \<and>
     length (s_mem s) = length (MMAP cfg) \<and>
     (\<forall>i < length (MMAP cfg). unat (snd (MMAP cfg ! i)) \<le> length (s_mem s ! i)) \<and>
     map_inv (s_io s) \<and> map_inv (s_bpt s) \<and> map_inv (s_wpt s)"

lemma length_write_gprs [simp]: "length (write_gprs ws g) = length g"
  by (induction ws g rule: write_gprs.induct) auto

lemma length_write_csrs [simp]: "length (write_csrs ws c) = length c"
  by (induction ws c rule: write_csrs.induct) auto

lemma length_stream_read [simp]: "length (stream_read off n xs) = n"
  by (simp add: stream_read_def)

lemma length_stream_write:
  "length (stream_write off bs xs) = max (off + length bs) (length xs)"
  by (auto simp: stream_write_def overwrite_def)

lemma region_of_SomeD:
  "region_of cfg adr = Some blk \<Longrightarrow> blk < length (MMAP cfg) \<and> in_region (MMAP cfg ! blk) adr"
  by (auto simp: region_of_def find_Some_iff)

text \<open>The members that the memory operations do not touch.\<close>

lemma shd_mem_write_frame [simp]:
  "s_gpr (shd_mem_write cfg adr dat s) = s_gpr s" "s_pc (shd_mem_write cfg adr dat s) = s_pc s"
  "s_csr (shd_mem_write cfg adr dat s) = s_csr s" "s_cnt (shd_mem_write cfg adr dat s) = s_cnt s"
  "s_trc (shd_mem_write cfg adr dat s) = s_trc s" "s_ret (shd_mem_write cfg adr dat s) = s_ret s"
  "s_sig (shd_mem_write cfg adr dat s) = s_sig s" "s_rsn (shd_mem_write cfg adr dat s) = s_rsn s"
  "s_bpt (shd_mem_write cfg adr dat s) = s_bpt s" "s_wpt (shd_mem_write cfg adr dat s) = s_wpt s"
  by (simp_all add: shd_mem_write_def split: option.split)

lemma shd_wf_new: "shd_wf cfg (shd_new cfg)"
  by (auto simp: shd_wf_def shd_new_def split: prod.split)

lemma shd_wf_mem_write:
  assumes "shd_wf cfg s"
  shows "shd_wf cfg (shd_mem_write cfg adr dat s)"
proof (cases "region_of cfg adr")
  case None
  with assms show ?thesis
    by (simp add: shd_mem_write_def shd_wf_def map_inv_set)
next
  case (Some blk)
  with assms show ?thesis
    by (auto simp: shd_mem_write_def shd_wf_def nth_list_update length_stream_write le_max_iff_disj
        dest: region_of_SomeD)
qed

lemma shd_wf_scalars [simp]:
  "shd_wf cfg (s\<lparr>s_pc := pc\<rparr>) = shd_wf cfg s" "shd_wf cfg (s\<lparr>s_cnt := n\<rparr>) = shd_wf cfg s"
  "shd_wf cfg (s\<lparr>s_trc := tr\<rparr>) = shd_wf cfg s" "shd_wf cfg (s\<lparr>s_ret := r\<rparr>) = shd_wf cfg s"
  "shd_wf cfg (s\<lparr>s_sig := sg\<rparr>) = shd_wf cfg s" "shd_wf cfg (s\<lparr>s_rsn := p\<rparr>) = shd_wf cfg s"
  by (simp_all add: shd_wf_def)

lemma shd_wf_write_regs [simp]:
  "shd_wf cfg (s\<lparr>s_gpr := write_gprs ws (s_gpr s)\<rparr>) = shd_wf cfg s"
  "shd_wf cfg (s\<lparr>s_csr := write_csrs cs (s_csr s)\<rparr>) = shd_wf cfg s"
  "shd_wf cfg (s\<lparr>s_pc := pc, s_gpr := write_gprs ws (s_gpr s), s_csr := write_csrs cs (s_csr s)\<rparr>)
    = shd_wf cfg s"
  by (simp_all add: shd_wf_def)

lemma shd_wf_reg_write: "shd_wf cfg s \<Longrightarrow> shd_wf cfg (shd_reg_write cfg idx val s)"
  by (simp add: shd_reg_write_def shd_wf_def)

lemma shd_wf_update: "shd_wf cfg s \<Longrightarrow> shd_wf cfg (shd_update cfg r s)"
  unfolding shd_update_def Let_def
  by (intro shd_wf_mem_write) (simp add: shd_wf_def shd_wf_mem_write [unfolded shd_wf_def])

lemma shd_wf_replay: "shd_wf cfg s \<Longrightarrow> shd_wf cfg (replay cfg r s)"
  by (simp add: replay_def shd_wf_mem_write)

lemma shd_wf_revert: "shd_wf cfg s \<Longrightarrow> shd_wf cfg (revert cfg r s)"
  by (simp add: revert_def shd_wf_mem_write)

lemma shd_wf_points:
  "shd_wf cfg s \<Longrightarrow> shd_wf cfg (snd (point_insert ptype addr pkind s))"
  "shd_wf cfg s \<Longrightarrow> shd_wf cfg (snd (point_remove ptype addr pkind s))"
  by (simp_all add: point_insert_def point_remove_def shd_wf_def Let_def map_inv_set map_inv_erase)

lemma shd_wf_match_current [simp]: "shd_wf cfg (match_current s) = shd_wf cfg s"
  by (auto simp: match_current_def breakpoint_match_def watchpoint_match_def Let_def split: option.split)

lemma shd_wf_forward: "shd_wf cfg s \<Longrightarrow> forward cfg s = Some s' \<Longrightarrow> shd_wf cfg s'"
  by (auto simp: forward_def Let_def bind_eq_Some_conv shd_wf_replay shd_wf_update split: if_splits)

lemma shd_wf_backward: "shd_wf cfg s \<Longrightarrow> backward cfg s = Some s' \<Longrightarrow> shd_wf cfg s'"
  by (auto simp: backward_def bind_eq_Some_conv shd_wf_revert split: if_splits)

section \<open>The abstract processor state\<close>

text \<open>
  What the debugger can read: registers, program counter, control registers as 2-state values, the
  content of every memory region as a function of the offset, and the I/O registers.
\<close>

record arch =
  a_gpr :: "logic list"
  a_pc :: "32 word"
  a_csr :: "32 word list"
  a_mem :: "nat \<Rightarrow> nat \<Rightarrow> byte"
  a_io :: "32 word \<Rightarrow> byte list"

definition byte_at :: "byte list \<Rightarrow> nat \<Rightarrow> byte" where
  "byte_at xs i = (if i < length xs then xs ! i else 0)"

definition mem_view :: "byte list list \<Rightarrow> nat \<Rightarrow> nat \<Rightarrow> byte" where
  "mem_view ms blk = (if blk < length ms then byte_at (ms ! blk) else (\<lambda>_. 0))"

definition view :: "gdb_shadow \<Rightarrow> arch" where
  "view s = \<lparr>a_gpr = s_gpr s, a_pc = s_pc s, a_csr = map to_bits (s_csr s),
     a_mem = mem_view (s_mem s), a_io = io_read (s_io s)\<rparr>"

definition patch :: "nat \<Rightarrow> byte list \<Rightarrow> (nat \<Rightarrow> byte) \<Rightarrow> nat \<Rightarrow> byte" where
  "patch off bs f i = (if off \<le> i \<and> i < off + length bs then bs ! (i - off) else f i)"

definition a_read :: "sv_config \<Rightarrow> arch \<Rightarrow> 32 word \<Rightarrow> nat \<Rightarrow> byte list" where
  "a_read cfg a adr siz = (case region_of cfg adr of
      Some blk \<Rightarrow> map (a_mem a blk) [region_offset cfg blk adr ..< region_offset cfg blk adr + siz]
    | None \<Rightarrow> a_io a adr)"

definition a_write :: "sv_config \<Rightarrow> 32 word \<Rightarrow> byte list \<Rightarrow> arch \<Rightarrow> arch" where
  "a_write cfg adr dat a = (case region_of cfg adr of
      Some blk \<Rightarrow> a\<lparr>a_mem := (a_mem a)(blk := patch (region_offset cfg blk adr) dat (a_mem a blk))\<rparr>
    | None \<Rightarrow> a\<lparr>a_io := (a_io a)(adr := dat)\<rparr>)"

fun a_write_csrs :: "(12 word \<times> 32 word) list \<Rightarrow> 32 word list \<Rightarrow> 32 word list" where
  "a_write_csrs [] c = c"
| "a_write_csrs ((idx, v) # ws) c = a_write_csrs ws (c[unat idx := v])"

text \<open>One instruction forward and back, on the abstract state.\<close>

definition a_replay :: "sv_config \<Rightarrow> sv_retired \<Rightarrow> arch \<Rightarrow> arch" where
  "a_replay cfg ret a =
     a_write cfg (lsu_adr (rt_lsu ret)) (lsu_wdt (rt_lsu ret))
       (a\<lparr>a_pc := ifu_pcn (rt_ifu ret),
          a_gpr := write_gprs (map (\<lambda>g. (gpr_idx g, gpr_wdt g)) (rt_gpr ret)) (a_gpr a),
          a_csr := a_write_csrs (map (\<lambda>c. (csr_idx c, csr_wdt c)) (rt_csr ret)) (a_csr a)\<rparr>)"

definition a_revert :: "sv_config \<Rightarrow> sv_retired \<Rightarrow> arch \<Rightarrow> arch" where
  "a_revert cfg ret a =
     a_write cfg (lsu_adr (rt_lsu ret)) (lsu_rdt (rt_lsu ret))
       (a\<lparr>a_pc := ifu_adr (rt_ifu ret),
          a_gpr := write_gprs (map (\<lambda>g. (gpr_idx g, gpr_rdt g)) (rt_gpr ret)) (a_gpr a),
          a_csr := a_write_csrs (map (\<lambda>c. (csr_idx c, csr_rdt c)) (rt_csr ret)) (a_csr a)\<rparr>)"

subsection \<open>Each operation refines its abstract counterpart\<close>

lemma to_bits_of_bits [simp]: "to_bits (of_bits w) = w"
  by (simp add: to_bits_def of_bits_def)

lemma byte_at_stream_write: "byte_at (stream_write off bs xs) = patch off bs (byte_at xs)"
  by (rule ext) (auto simp: byte_at_def patch_def length_stream_write stream_write_def nth_overwrite nth_append)

lemma stream_read_byte_at: "stream_read off n xs = map (byte_at xs) [off ..< off + n]"
  by (simp add: stream_read_def byte_at_def)

lemma io_read_set: "map_inv io \<Longrightarrow> io_read (map_set adr dat io) = (io_read io)(adr := dat)"
  by (rule ext) (simp add: io_read_def smap.find_put)

lemma map_write_csrs: "map to_bits (write_csrs ws c) = a_write_csrs ws (map to_bits c)"
  by (induction ws c rule: write_csrs.induct) (simp_all add: map_update)

lemma view_mem_read: "shd_wf cfg s \<Longrightarrow> shd_mem_read cfg s adr siz = a_read cfg (view s) adr siz"
  by (auto simp: shd_mem_read_def a_read_def view_def mem_view_def shd_wf_def stream_read_byte_at
      split: option.split dest: region_of_SomeD)

lemma view_mem_write:
  assumes "shd_wf cfg s"
  shows "view (shd_mem_write cfg adr dat s) = a_write cfg adr dat (view s)"
proof (cases "region_of cfg adr")
  case None
  with assms show ?thesis
    by (simp add: shd_mem_write_def a_write_def view_def io_read_set shd_wf_def)
next
  case (Some blk)
  with assms have "blk < length (s_mem s)"
    by (auto simp: shd_wf_def dest: region_of_SomeD)
  with Some show ?thesis
    by (auto simp: shd_mem_write_def a_write_def view_def mem_view_def byte_at_stream_write fun_eq_iff)
qed

lemma view_replay: "shd_wf cfg s \<Longrightarrow> view (replay cfg r s) = a_replay cfg r (view s)"
  unfolding replay_def a_replay_def
  by (subst view_mem_write) (simp_all add: view_def map_write_csrs)

lemma view_revert: "shd_wf cfg s \<Longrightarrow> view (revert cfg r s) = a_revert cfg r (view s)"
  unfolding revert_def a_revert_def
  by (subst view_mem_write) (simp_all add: view_def map_write_csrs)

section \<open>Reverting undoes replaying\<close>

text \<open>
  An entry of the trace can be undone from a state when its read data are the values that the state
  has in the places the entry writes.  The data read from memory may go beyond the data written, as those of a
  load do, which writes nothing.
\<close>

definition undoable :: "sv_config \<Rightarrow> arch \<Rightarrow> sv_retired \<Rightarrow> bool" where
  "undoable cfg a r \<longleftrightarrow>
     ifu_adr (rt_ifu r) = a_pc a \<and>
     (\<forall>g \<in> set (rt_gpr r). gpr_rdt g = elem (a_gpr a) (unat (gpr_idx g))) \<and>
     (\<forall>c \<in> set (rt_csr r). unat (csr_idx c) < length (a_csr a) \<longrightarrow>
        csr_rdt c = a_csr a ! unat (csr_idx c)) \<and>
     lsu_rdt (rt_lsu r) = a_read cfg a (lsu_adr (rt_lsu r)) (length (lsu_rdt (rt_lsu r))) \<and>
     (region_of cfg (lsu_adr (rt_lsu r)) \<noteq> None \<longrightarrow> length (lsu_wdt (rt_lsu r)) \<le> length (lsu_rdt (rt_lsu r)))"

fun write_all :: "(nat \<times> 'a) list \<Rightarrow> 'a list \<Rightarrow> 'a list" where
  "write_all [] xs = xs"
| "write_all ((i, v) # ws) xs = write_all ws (xs[i := v])"

lemma length_write_all [simp]: "length (write_all ws xs) = length xs"
  by (induction ws xs rule: write_all.induct) auto

lemma write_gprs_all: "write_gprs ws g = write_all (map (\<lambda>(i, v). (unat i, v)) ws) g"
  by (induction ws g rule: write_gprs.induct) auto

lemma a_write_csrs_all: "a_write_csrs ws c = write_all (map (\<lambda>(i, v). (unat i, v)) ws) c"
  by (induction ws c rule: a_write_csrs.induct) auto

lemma nth_write_all_other: "j \<notin> fst ` set ws \<Longrightarrow> write_all ws xs ! j = xs ! j"
  by (induction ws xs rule: write_all.induct) auto

lemma nth_write_all_same:
  assumes "\<And>i v. (i, v) \<in> set ws \<Longrightarrow> i < length xs \<Longrightarrow> v = ys ! i"
    and "j < length xs" and "j \<in> fst ` set ws"
  shows "write_all ws xs ! j = ys ! j"
  using assms
proof (induction ws xs rule: write_all.induct)
  case (2 i v ws xs)
  show ?case
  proof (cases "j \<in> fst ` set ws")
    case True
    with 2 show ?thesis by simp
  next
    case False
    with 2 show ?thesis by (simp add: nth_write_all_other)
  qed
qed simp

lemma write_all_undo:
  assumes "map fst us = map fst ws"
    and "\<And>i v. (i, v) \<in> set us \<Longrightarrow> i < length xs \<Longrightarrow> v = xs ! i"
  shows "write_all us (write_all ws xs) = xs"
proof (rule nth_equalityI)
  fix j assume j: "j < length (write_all us (write_all ws xs))"
  have idx: "fst ` set us = fst ` set ws"
    using assms(1) by (metis list.set_map)
  show "write_all us (write_all ws xs) ! j = xs ! j"
  proof (cases "j \<in> fst ` set us")
    case True
    with assms(2) j show ?thesis
      by (intro nth_write_all_same) auto
  next
    case False
    with idx show ?thesis
      by (simp add: nth_write_all_other)
  qed
qed simp

lemma patch_undo: "length bs \<le> n \<Longrightarrow> patch off (map f [off ..< off + n]) (patch off bs f) = f"
  by (rule ext) (auto simp: patch_def)

lemma a_write_undo:
  "region_of cfg adr \<noteq> None \<longrightarrow> length dat \<le> n \<Longrightarrow>
    a_write cfg adr (a_read cfg a adr n) (a_write cfg adr dat a) = a"
  by (simp add: a_write_def a_read_def patch_undo split: option.split)

lemma a_write_regs:
  "a_write cfg adr dat (a\<lparr>a_pc := pc, a_gpr := g, a_csr := c\<rparr>) =
    (a_write cfg adr dat a)\<lparr>a_pc := pc, a_gpr := g, a_csr := c\<rparr>"
  by (simp add: a_write_def split: option.split)

lemma a_write_frame [simp]:
  "a_pc (a_write cfg adr dat a) = a_pc a" "a_gpr (a_write cfg adr dat a) = a_gpr a"
  "a_csr (a_write cfg adr dat a) = a_csr a"
  by (simp_all add: a_write_def split: option.split)

lemma a_revert_replay:
  assumes "undoable cfg a r"
  shows "a_revert cfg r (a_replay cfg r a) = a"
proof -
  have gprs: "write_gprs (map (\<lambda>g. (gpr_idx g, gpr_rdt g)) (rt_gpr r))
      (write_gprs (map (\<lambda>g. (gpr_idx g, gpr_wdt g)) (rt_gpr r)) (a_gpr a)) = a_gpr a"
    unfolding write_gprs_all using assms
    by (intro write_all_undo) (auto simp: undoable_def elem_def)
  have csrs: "a_write_csrs (map (\<lambda>c. (csr_idx c, csr_rdt c)) (rt_csr r))
      (a_write_csrs (map (\<lambda>c. (csr_idx c, csr_wdt c)) (rt_csr r)) (a_csr a)) = a_csr a"
    unfolding a_write_csrs_all using assms
    by (intro write_all_undo) (auto simp: undoable_def)
  have "a_write cfg (lsu_adr (rt_lsu r)) (lsu_rdt (rt_lsu r)) (a_write cfg (lsu_adr (rt_lsu r)) (lsu_wdt (rt_lsu r)) a) = a"
    and "ifu_adr (rt_ifu r) = a_pc a"
    using assms a_write_undo [of cfg "lsu_adr (rt_lsu r)" "lsu_wdt (rt_lsu r)" "length (lsu_rdt (rt_lsu r))" a]
    by (simp_all add: undoable_def)
  with gprs csrs show ?thesis
    by (simp add: a_revert_def a_replay_def a_write_regs)
qed

lemma a_read_length: "a_read cfg a adr (length (a_read cfg a adr n)) = a_read cfg a adr n"
  by (simp add: a_read_def split: option.split)

lemma undoable_record:
  assumes "shd_wf cfg s"
  shows "undoable cfg (view s) (shd_record cfg s ret)"
proof -
  have "region_of cfg adr \<noteq> None \<longrightarrow> n \<le> length (a_read cfg a adr n)" for adr n a
    by (auto simp: a_read_def)
  then show ?thesis
    using view_mem_read [OF assms]
    by (auto simp: undoable_def shd_record_def view_def elem_def a_read_length)
qed

text \<open>A load that reports the bytes of memory it has read can be undone.\<close>

lemma undoable_load:
  assumes "lsu_wdt (rt_lsu r) = []" and "lsu_rdt (rt_lsu r) = a_read cfg a (lsu_adr (rt_lsu r)) n"
    and "ifu_adr (rt_ifu r) = a_pc a" and "rt_csr r = []"
    and "\<forall>g \<in> set (rt_gpr r). gpr_rdt g = elem (a_gpr a) (unat (gpr_idx g))"
  shows "undoable cfg a r"
  using assms by (simp add: undoable_def a_read_length)

text \<open>
  The control registers one by one: an entry that \<open>record\<close> has completed gives a register it
  writes the 2-state value of what was there before, and leaves the others alone.
\<close>

definition csr_written :: "sv_config \<Rightarrow> sv_retired \<Rightarrow> 32 word \<Rightarrow> bool" where
  "csr_written cfg r i \<longleftrightarrow>
     (\<exists>c \<in> set (rt_csr r). unat (csr_idx c) < CSRN cfg \<and> unat i = GPRN cfg + 1 + unat (csr_idx c))"

lemma write_csrs_all: "write_csrs ws c = write_all (map (\<lambda>(i, v). (unat i, of_bits v)) ws) c"
  by (induction ws c rule: write_csrs.induct) auto

lemma recorded_csr:
  fixes s :: gdb_shadow and ret :: sv_retired
  assumes rs: "rs = rt_csr (shd_record cfg s ret)"
  shows "elem (write_csrs (map (\<lambda>c. (csr_idx c, csr_rdt c)) rs)
      (write_csrs (map (\<lambda>c. (csr_idx c, csr_wdt c)) rs) (s_csr s))) j =
    (if j < length (s_csr s) \<and> j \<in> (unat \<circ> csr_idx) ` set (rt_csr ret)
     then of_bits (to_bits (elem (s_csr s) j)) else elem (s_csr s) j)"
proof -
  let ?bwd = "map (\<lambda>(i, v). (unat i, of_bits v)) (map (\<lambda>c. (csr_idx c, csr_rdt c)) rs)"
  let ?go = "map (\<lambda>(i, v). (unat i, of_bits v)) (map (\<lambda>c. (csr_idx c, csr_wdt c)) rs)"
  let ?ys = "map (\<lambda>v. of_bits (to_bits v)) (s_csr s)"
  have idx: "fst ` set ?bwd = (unat \<circ> csr_idx) ` set (rt_csr ret)" "fst ` set ?go = (unat \<circ> csr_idx) ` set (rt_csr ret)"
    by (auto simp: rs shd_record_def image_image)
  have vals: "\<And>i v. (i, v) \<in> set ?bwd \<Longrightarrow> i < length (write_all ?go (s_csr s)) \<Longrightarrow> v = ?ys ! i"
    by (auto simp: rs shd_record_def elem_def)
  show ?thesis
    unfolding write_csrs_all
    using nth_write_all_same [of ?bwd "write_all ?go (s_csr s)" ?ys j, OF vals]
      nth_write_all_other [of j ?bwd "write_all ?go (s_csr s)"] nth_write_all_other [of j ?go "s_csr s"] idx
    by (auto simp: elem_def)
qed

text \<open>
  Property C10: recording, replaying and reverting an instruction.  Whatever the state and the
  retired instruction are, the entry that \<open>record\<close> completes, replayed and then reverted, restores what
  the debugger reads: the program counter, every general purpose register with its unknown bits, every
  byte of memory and every I/O register, although the memories and the I/O dictionary themselves
  may have grown.  The control registers are the exception: one that the entry writes comes back as the
  2-state value of what it was, since the entry has no place for unknown bits, so a register that was
  unknown reads as 0 where the documentation promises the very same state; the others are untouched.
\<close>

theorem record_replay_revert:
  assumes "shd_wf cfg s" and "s' = revert cfg (shd_record cfg s ret) (replay cfg (shd_record cfg s ret) s)"
  shows "view s' = view s \<and>
    (\<forall>adr n. shd_mem_read cfg s' adr n = shd_mem_read cfg s adr n) \<and>
    (\<forall>i. shd_reg_read cfg s' i =
      (if csr_written cfg ret i then of_bits (to_bits (shd_reg_read cfg s i)) else shd_reg_read cfg s i))"
proof -
  let ?r = "shd_record cfg s ret"
  have view: "view s' = view s"
    using assms by (simp add: view_revert view_replay shd_wf_replay a_revert_replay undoable_record)
  have wf: "shd_wf cfg s'"
    using assms by (simp add: shd_wf_revert shd_wf_replay)
  have "s_csr s' = write_csrs (map (\<lambda>c. (csr_idx c, csr_rdt c)) (rt_csr ?r))
      (write_csrs (map (\<lambda>c. (csr_idx c, csr_wdt c)) (rt_csr ?r)) (s_csr s))"
    by (simp add: assms(2) revert_def replay_def shd_mem_write_frame)
  note csr = recorded_csr [of "rt_csr ?r" cfg s ret, OF refl, folded this]
  have "length (s_csr s) = CSRN cfg"
    using assms(1) by (simp add: shd_wf_def)
  moreover have "s_gpr s' = s_gpr s" "s_pc s' = s_pc s"
    using view by (simp_all add: view_def)
  ultimately have "shd_reg_read cfg s' i =
      (if csr_written cfg ret i then of_bits (to_bits (shd_reg_read cfg s i)) else shd_reg_read cfg s i)" for i
    by (auto simp: shd_reg_read_def csr csr_written_def)
  with view view_mem_read [OF wf] view_mem_read [OF assms(1)] show ?thesis
    by simp
qed

definition demo_sv :: sv_config where
  "demo_sv = \<lparr>GPRN = 32, CSRN = 8, MMAP = [(0x100, 0x10), (0x200, 0x8)]\<rparr>"

text \<open>A store of two bytes at the last byte of the first region, by an instruction that also sets two registers.\<close>

definition demo_store :: sv_retired where
  "demo_store =
     \<lparr>rt_ifu = \<lparr>ifu_adr = 0x100, ifu_pcn = 0x104, ifu_rdt = [0x23, 0, 0, 0], ifu_ill = False\<rparr>,
      rt_gpr = [\<lparr>gpr_idx = 1, gpr_rdt = all_x, gpr_wdt = of_bits 7\<rparr>],
      rt_csr = [\<lparr>csr_idx = 2, csr_rdt = 0, csr_wdt = 9\<rparr>],
      rt_lsu = \<lparr>lsu_adr = 0x10F, lsu_rdt = [], lsu_wdt = [0xAB, 0xCD]\<rparr>\<rparr>"

theorem record_replay_revert_witness:
  "view (revert demo_sv (shd_record demo_sv (shd_new demo_sv) demo_store)
      (replay demo_sv (shd_record demo_sv (shd_new demo_sv) demo_store) (shd_new demo_sv)))
    = view (shd_new demo_sv) \<and>
   view (replay demo_sv (shd_record demo_sv (shd_new demo_sv) demo_store) (shd_new demo_sv))
    \<noteq> view (shd_new demo_sv) \<and>
   shd_reg_read demo_sv (shd_new demo_sv) 35 = all_x \<and>
   shd_reg_read demo_sv (revert demo_sv (shd_record demo_sv (shd_new demo_sv) demo_store)
      (replay demo_sv (shd_record demo_sv (shd_new demo_sv) demo_store) (shd_new demo_sv))) 35 = of_bits 0"
proof -
  have "s_pc (replay demo_sv (shd_record demo_sv (shd_new demo_sv) demo_store) (shd_new demo_sv))
      \<noteq> s_pc (shd_new demo_sv)"
    by (simp add: replay_def shd_record_def shd_new_def demo_store_def)
  then have "view (replay demo_sv (shd_record demo_sv (shd_new demo_sv) demo_store) (shd_new demo_sv))
      \<noteq> view (shd_new demo_sv)"
    by (auto simp: view_def)
  moreover have unknown: "shd_reg_read demo_sv (shd_new demo_sv) 35 = all_x"
    by (simp add: shd_reg_read_def demo_sv_def shd_new_def elem_def)
  moreover have "csr_written demo_sv demo_store 35" "to_bits all_x = 0"
    by (simp_all add: csr_written_def demo_sv_def demo_store_def to_bits_def all_x_def)
  ultimately show ?thesis
    using record_replay_revert [OF shd_wf_new refl, of demo_sv demo_store] by simp
qed

section \<open>The memory contract\<close>

text \<open>
  The shadow memory keeps the same contract towards its clients as the C++ memory map: the locale
  \<open>shadow_memory\<close>, for accesses that start inside a region of the map.
\<close>

definition sv_valid :: "sv_config \<Rightarrow> gdb_shadow \<Rightarrow> 32 word \<Rightarrow> nat \<Rightarrow> bool" where
  "sv_valid cfg s adr n \<longleftrightarrow> shd_wf cfg s \<and> region_of cfg adr \<noteq> None"

definition sv_apart :: "sv_config \<Rightarrow> 32 word \<Rightarrow> nat \<Rightarrow> 32 word \<Rightarrow> nat \<Rightarrow> bool" where
  "sv_apart cfg a n b m \<longleftrightarrow> (case (region_of cfg a, region_of cfg b) of
      (Some i, Some j) \<Rightarrow> i \<noteq> j \<or> region_offset cfg i a + n \<le> region_offset cfg j b \<or>
        region_offset cfg j b + m \<le> region_offset cfg i a
    | _ \<Rightarrow> True)"

interpretation svm: shadow_memory
  "\<lambda>s a n. Val (shd_mem_read cfg s a n)" "\<lambda>s a bs. Val (shd_mem_write cfg a bs s)"
  "sv_valid cfg" "sv_apart cfg"
proof (unfold_locales, goal_cases)
  case (1 s a bs)
  then show ?case by simp
next
  case (2 s a bs s')
  then obtain blk where "region_of cfg a = Some blk" "shd_wf cfg s" "s' = shd_mem_write cfg a bs s"
    by (auto simp: sv_valid_def)
  then show ?case
    by (auto simp: view_mem_read shd_wf_mem_write view_mem_write a_read_def a_write_def patch_def
        intro: nth_equalityI)
next
  case (3 s a bs b n s')
  then obtain i j where "region_of cfg a = Some i" "region_of cfg b = Some j" "shd_wf cfg s"
      "s' = shd_mem_write cfg a bs s"
    by (auto simp: sv_valid_def)
  with 3(3) show ?case
    by (auto simp: view_mem_read shd_wf_mem_write view_mem_write a_read_def a_write_def patch_def
        sv_apart_def)
next
  case (4 s a bs s' b n)
  then show ?case by (auto simp: sv_valid_def shd_wf_mem_write)
qed

section \<open>Properties of the shadow\<close>

text \<open>
  Property C29: the type invariant of the shadow.  The constructor establishes it and every operation
  keeps it: register files and memories have the declared numbers of elements, memories never
  shrink below the sizes of the map (writes past the end of a region extend them), and the
  associative arrays have one entry per key.
\<close>

theorem shadow_type_invariant:
  assumes "shd_wf cfg s"
  shows "shd_wf cfg (shd_new cfg) \<and> shd_wf cfg (shd_reg_write cfg idx val s) \<and>
    shd_wf cfg (shd_mem_write cfg adr dat s) \<and> shd_wf cfg (shd_update cfg r s) \<and>
    shd_wf cfg (replay cfg r s) \<and> shd_wf cfg (revert cfg r s) \<and>
    shd_wf cfg (snd (point_insert p a k s)) \<and> shd_wf cfg (snd (point_remove p a k s)) \<and>
    pred_option (shd_wf cfg) (forward cfg s) \<and> pred_option (shd_wf cfg) (backward cfg s)"
  using assms shd_wf_forward [OF assms] shd_wf_backward [OF assms]
  by (auto simp: shd_wf_new shd_wf_reg_write shd_wf_mem_write shd_wf_update shd_wf_replay
      shd_wf_revert shd_wf_points pred_option_def set_eq_iff)

theorem shadow_type_invariant_witness:
  "shd_wf demo_sv (shd_mem_write demo_sv 0x10E [1, 2, 3, 4] (shd_new demo_sv)) \<and>
    length (s_mem (shd_mem_write demo_sv 0x10E [1, 2, 3, 4] (shd_new demo_sv)) ! 0) = 18"
proof (rule conjI)
  show "shd_wf demo_sv (shd_mem_write demo_sv 0x10E [1, 2, 3, 4] (shd_new demo_sv))"
    using shadow_type_invariant [OF shd_wf_new [of demo_sv], where adr = "0x10E" and dat = "[1, 2, 3, 4]"]
    by blast
  show "length (s_mem (shd_mem_write demo_sv 0x10E [1, 2, 3, 4] (shd_new demo_sv)) ! 0) = 18"
    by (simp add: shd_mem_write_def region_of_def region_offset_def demo_sv_def in_region_def
        shd_new_def upt_rec length_stream_write)
qed

text \<open>The conditions under which the current instruction stops the processor.\<close>

definition is_ebreak :: "byte list \<Rightarrow> bool" where
  "is_ebreak rdt \<longleftrightarrow>
     map (byte_at rdt) [0, 1, 2, 3] = [0x73, 0x00, 0x10, 0x00] \<or>
     map (byte_at rdt) [0, 1] = [0x02, 0x90]"

definition hw_break_at :: "gdb_shadow \<Rightarrow> 32 word \<Rightarrow> sv_point \<Rightarrow> bool" where
  "hw_break_at s adr p \<longleftrightarrow> map_find (s_bpt s) adr = Some p \<and> sv_ptype p = hwbreak"

definition watch_at :: "gdb_shadow \<Rightarrow> 32 word \<Rightarrow> bool \<Rightarrow> sv_point \<Rightarrow> bool" where
  "watch_at s adr wen p \<longleftrightarrow> map_find (s_wpt s) adr = Some p \<and>
     (sv_ptype p = awatch \<or> sv_ptype p = (if wen then watch else rwatch))"

lemma breakpoint_match_cases:
  "breakpoint_match ret s =
    (if ifu_ill (rt_ifu ret) then s\<lparr>s_sig := SIGILL\<rparr>
     else if is_ebreak (ifu_rdt (rt_ifu ret)) then s\<lparr>s_sig := SIGTRAP\<rparr>
     else if \<exists>p. hw_break_at s (ifu_adr (rt_ifu ret)) p
       then s\<lparr>s_sig := SIGTRAP, s_rsn := the (map_find (s_bpt s) (ifu_adr (rt_ifu ret)))\<rparr>
     else s)"
  by (auto simp: breakpoint_match_def is_ebreak_def hw_break_at_def Let_def stream_read_byte_at
      upt_rec eval_nat_numeral split: option.split)

lemma watchpoint_match_cases:
  "watchpoint_match ret s =
    (if \<exists>p. watch_at s (lsu_adr (rt_lsu ret)) (lsu_wdt (rt_lsu ret) \<noteq> []) p
     then s\<lparr>s_sig := SIGTRAP, s_rsn := the (map_find (s_wpt s) (lsu_adr (rt_lsu ret)))\<rparr> else s)"
  by (auto simp: watchpoint_match_def watch_at_def Let_def ptype_defs split: option.split)

definition watch_hit :: "gdb_shadow \<Rightarrow> sv_retired \<Rightarrow> bool" where
  "watch_hit s r \<longleftrightarrow> (\<exists>p. watch_at s (lsu_adr (rt_lsu r)) (lsu_wdt (rt_lsu r) \<noteq> []) p)"

definition hw_hit :: "gdb_shadow \<Rightarrow> sv_retired \<Rightarrow> bool" where
  "hw_hit s r \<longleftrightarrow> (\<exists>p. hw_break_at s (ifu_adr (rt_ifu r)) p)"

lemma match_current_cases:
  assumes "r = trc_at s (s_cnt s)"
  shows "s_sig (match_current s) =
      (if watch_hit s r then SIGTRAP
       else if ifu_ill (rt_ifu r) then SIGILL
       else if is_ebreak (ifu_rdt (rt_ifu r)) \<or> hw_hit s r then SIGTRAP
       else s_sig s)"
    and "s_rsn (match_current s) =
      (if watch_hit s r then the (map_find (s_wpt s) (lsu_adr (rt_lsu r)))
       else if \<not> ifu_ill (rt_ifu r) \<and> \<not> is_ebreak (ifu_rdt (rt_ifu r)) \<and> hw_hit s r
       then the (map_find (s_bpt s) (ifu_adr (rt_ifu r)))
       else s_rsn s)"
proof -
  let ?s1 = "s\<lparr>s_ret := r\<rparr>"
  let ?s2 = "breakpoint_match r ?s1"
  have hits: "hw_hit ?s1 r = hw_hit s r" "watch_hit ?s2 r = watch_hit s r" "s_wpt ?s2 = s_wpt s"
    by (simp_all add: hw_hit_def hw_break_at_def watch_hit_def watch_at_def breakpoint_match_cases)
  have current: "match_current s = watchpoint_match r ?s2"
    using assms by (simp add: match_current_def Let_def)
  show "s_sig (match_current s) =
      (if watch_hit s r then SIGTRAP
       else if ifu_ill (rt_ifu r) then SIGILL
       else if is_ebreak (ifu_rdt (rt_ifu r)) \<or> hw_hit s r then SIGTRAP
       else s_sig s)"
    unfolding current watchpoint_match_cases watch_hit_def [symmetric] hits
    by (simp add: breakpoint_match_cases hw_hit_def [symmetric] hits)
  show "s_rsn (match_current s) =
      (if watch_hit s r then the (map_find (s_wpt s) (lsu_adr (rt_lsu r)))
       else if \<not> ifu_ill (rt_ifu r) \<and> \<not> is_ebreak (ifu_rdt (rt_ifu r)) \<and> hw_hit s r
       then the (map_find (s_bpt s) (ifu_adr (rt_ifu r)))
       else s_rsn s)"
    unfolding current watchpoint_match_cases watch_hit_def [symmetric] hits
    by (simp add: breakpoint_match_cases hw_hit_def [symmetric] hits)
qed

text \<open>
  Property C30: when the current instruction stops the processor.  A hit of a watchpoint (a write
  watchpoint on a store, a read watchpoint on any other access, an access watchpoint on both) gives
  SIGTRAP and the watchpoint as the reason, even when the instruction is illegal; otherwise an
  illegal instruction gives SIGILL, an EBREAK or C.EBREAK instruction SIGTRAP, a hardware breakpoint
  at its address SIGTRAP and the breakpoint as the reason.  Nothing else changes signal or reason; in
  particular a software breakpoint of the table never stops the processor.
\<close>

theorem sv_stop_condition:
  assumes "r = trc_at s (s_cnt s)"
  shows "s_sig (match_current s) =
      (if watch_hit s r then SIGTRAP
       else if ifu_ill (rt_ifu r) then SIGILL
       else if is_ebreak (ifu_rdt (rt_ifu r)) \<or> hw_hit s r then SIGTRAP
       else s_sig s) \<and>
    (watch_hit s r \<longrightarrow> map_find (s_wpt s) (lsu_adr (rt_lsu r)) = Some (s_rsn (match_current s))) \<and>
    (\<not> watch_hit s r \<and> \<not> ifu_ill (rt_ifu r) \<and> \<not> is_ebreak (ifu_rdt (rt_ifu r)) \<and> hw_hit s r \<longrightarrow>
      map_find (s_bpt s) (ifu_adr (rt_ifu r)) = Some (s_rsn (match_current s))) \<and>
    (\<not> watch_hit s r \<and> \<not> hw_hit s r \<longrightarrow> s_rsn (match_current s) = s_rsn s) \<and>
    (map_find (s_bpt s) (ifu_adr (rt_ifu r)) = Some \<lparr>sv_ptype = swbreak, sv_pkind = k\<rparr> \<longrightarrow>
      \<not> hw_hit s r)"
  using match_current_cases [OF assms]
  by (auto simp: watch_hit_def hw_hit_def watch_at_def hw_break_at_def ptype_defs)

text \<open>A hardware breakpoint at the address of the current instruction.\<close>

definition demo_stop :: gdb_shadow where
  "demo_stop = snd (point_insert hwbreak 0x100 4
     ((shd_new demo_sv)\<lparr>s_trc := [demo_store], s_cnt := 0, s_sig := SIGNONE\<rparr>))"

theorem sv_stop_condition_witness:
  "s_sig (match_current demo_stop) = SIGTRAP \<and>
    s_rsn (match_current demo_stop) = \<lparr>sv_ptype = hwbreak, sv_pkind = 4\<rparr>"
proof -
  have r: "demo_store = trc_at demo_stop (s_cnt demo_stop)"
    by (simp add: demo_stop_def trc_at_def point_insert_def ptype_defs Let_def)
  have find: "map_find (s_bpt demo_stop) 0x100 = Some \<lparr>sv_ptype = hwbreak, sv_pkind = 4\<rparr>"
    "map_find (s_wpt demo_stop) 0x10F = None"
    by (simp_all add: demo_stop_def point_insert_def Let_def shd_new_def map_find_def)
  have "\<not> watch_hit demo_stop demo_store" "hw_hit demo_stop demo_store"
    "\<not> ifu_ill (rt_ifu demo_store)" "\<not> is_ebreak (ifu_rdt (rt_ifu demo_store))"
    using find by (simp_all add: watch_hit_def watch_at_def hw_hit_def hw_break_at_def demo_store_def
        is_ebreak_def byte_at_def)
  with sv_stop_condition [OF r] find show ?thesis
    by (simp add: demo_store_def)
qed

text \<open>
  Replaying an access that is not a store to an address outside the memory map removes
  the data that the shadow had for that I/O register, although only stores change the shadow: the
  register reads as empty afterwards.
\<close>

theorem replayed_load_clears_io:
  assumes "shd_wf cfg s" and "region_of cfg (lsu_adr (rt_lsu r)) = None" and "lsu_wdt (rt_lsu r) = []"
  shows "shd_mem_read cfg (replay cfg r s) (lsu_adr (rt_lsu r)) n = []"
  using assms by (simp add: view_mem_read shd_wf_replay view_replay a_replay_def a_read_def a_write_def)

definition demo_load :: sv_retired where
  "demo_load = retired_default\<lparr>rt_lsu := \<lparr>lsu_adr = 0x400, lsu_rdt = [1, 2], lsu_wdt = []\<rparr>\<rparr>"

theorem replayed_load_clears_io_witness:
  "shd_mem_read demo_sv (shd_mem_write demo_sv 0x400 [1, 2] (shd_new demo_sv)) 0x400 2 = [1, 2] \<and>
    shd_mem_read demo_sv (replay demo_sv demo_load (shd_mem_write demo_sv 0x400 [1, 2] (shd_new demo_sv)))
      0x400 2 = []"
proof (rule conjI)
  have io: "region_of demo_sv 0x400 = None"
    by (simp add: region_of_def demo_sv_def in_region_def upt_rec)
  then show "shd_mem_read demo_sv (shd_mem_write demo_sv 0x400 [1, 2] (shd_new demo_sv)) 0x400 2 = [1, 2]"
    by (simp add: shd_mem_read_def shd_mem_write_def io_read_def shd_new_def map_find_def)
  show "shd_mem_read demo_sv (replay demo_sv demo_load (shd_mem_write demo_sv 0x400 [1, 2] (shd_new demo_sv)))
      0x400 2 = []"
    using replayed_load_clears_io [OF shd_wf_mem_write [OF shd_wf_new], of demo_sv demo_load] io
    by (simp add: demo_load_def retired_default_def)
qed

end
