(* ===== verification/Sv_Steps.thy ===== *)
theory Sv_Steps
  imports Sv_Shadow
begin

text \<open>
  Stepping the simulated processor forward and backward (\<open>rsp_forward_step\<close> and
  \<open>rsp_backward_step\<close> of \<open>hdl/gdb_server_stub_pkg.sv\<close>), and the retired instructions that the
  adapter of the example processor delivers (\<open>dut_step\<close> of \<open>hdl/nerv/nerv_gdb.sv\<close>).

  The processor under test is a parameter: \<open>dut_step\<close> is a function from a state of the simulation
  to the next retired instruction and the next state.  A session of the debugger is a sequence of
  steps in either direction; the step relation \<open>walk\<close> collects what such sessions reach.
\<close>

section \<open>The steps of the stub\<close>

definition rsp_forward_step ::
    "sv_config \<Rightarrow> ('d \<Rightarrow> sv_retired \<times> 'd) \<Rightarrow> 'd \<times> gdb_shadow \<Rightarrow> ('d \<times> gdb_shadow) option" where
  "rsp_forward_step cfg dut_step ds =
     (let (d, s) = ds;
          (d1, s1) =
            (if s_cnt s = word_of_nat (length (s_trc s)) - 1 then
               (let (ret, d') = dut_step d in (d', s\<lparr>s_trc := s_trc s @ [ret]\<rparr>))
             else (d, s))
      in map_option (Pair d1) (forward cfg s1))"

definition rsp_backward_step :: "sv_config \<Rightarrow> gdb_shadow \<Rightarrow> gdb_shadow option" where
  "rsp_backward_step cfg s =
     (if s_cnt s = - 1 then Some (s\<lparr>s_sig := SIGTRAP\<rparr>)
      else if s_cnt s = 0 then Some (s\<lparr>s_sig := SIGTRAP\<rparr>)
      else backward cfg s)"

text \<open>
  What a session reaches.  The debugger may also change breakpoints and watchpoints between steps,
  and the stub may overwrite the signal.
\<close>

inductive walk :: "sv_config \<Rightarrow> ('d \<Rightarrow> sv_retired \<times> 'd) \<Rightarrow> 'd \<Rightarrow> 'd \<Rightarrow> gdb_shadow \<Rightarrow> bool"
  for cfg dut_step d0 where
  start: "walk cfg dut_step d0 d0 (shd_new cfg)"
| fwd: "walk cfg dut_step d0 d s \<Longrightarrow> rsp_forward_step cfg dut_step (d, s) = Some (d', s')
    \<Longrightarrow> walk cfg dut_step d0 d' s'"
| rev: "walk cfg dut_step d0 d s \<Longrightarrow> rsp_backward_step cfg s = Some s' \<Longrightarrow> walk cfg dut_step d0 d s'"
| insert: "walk cfg dut_step d0 d s \<Longrightarrow> walk cfg dut_step d0 d (snd (point_insert p a k s))"
| remove: "walk cfg dut_step d0 d s \<Longrightarrow> walk cfg dut_step d0 d (snd (point_remove p a k s))"
| signal: "walk cfg dut_step d0 d s \<Longrightarrow> walk cfg dut_step d0 d (s\<lparr>s_sig := sg\<rparr>)"

text \<open>The instructions that the processor retires, in order.\<close>

primrec dut_run :: "('d \<Rightarrow> sv_retired \<times> 'd) \<Rightarrow> 'd \<Rightarrow> nat \<Rightarrow> sv_retired list \<times> 'd" where
  "dut_run dut_step d 0 = ([], d)"
| "dut_run dut_step d (Suc n) =
     (case dut_run dut_step d n of (rs, d') \<Rightarrow> case dut_step d' of (r, d'') \<Rightarrow> (rs @ [r], d''))"

text \<open>
  The position in the trace: no instruction yet (the counter is -1 and the trace is empty), or an
  index of the trace.
\<close>

definition position_ok :: "gdb_shadow \<Rightarrow> bool" where
  "position_ok s \<longleftrightarrow> (if s_cnt s = - 1 then s_trc s = [] else unat (s_cnt s) < length (s_trc s))"

text \<open>The number of instructions whose effect the shadow shows.\<close>

definition applied :: "gdb_shadow \<Rightarrow> nat" where
  "applied s = (if s_cnt s = - 1 then 0 else unat (s_cnt s))"

section \<open>The steps, one equation per case\<close>

lemma match_current_frame [simp]:
  "s_cnt (match_current s) = s_cnt s" "s_trc (match_current s) = s_trc s"
  "view (match_current s) = view s"
  by (auto simp: match_current_def breakpoint_match_def watchpoint_match_def view_def Let_def
      split: option.split)

lemma replay_frame [simp]:
  "s_cnt (replay cfg r s) = s_cnt s" "s_trc (replay cfg r s) = s_trc s"
  by (simp_all add: replay_def)

lemma shd_mem_write_trc:
  "shd_mem_write cfg adr dat (s\<lparr>s_trc := tr\<rparr>) = (shd_mem_write cfg adr dat s)\<lparr>s_trc := tr\<rparr>"
  by (simp add: shd_mem_write_def split: option.split)

lemma replay_trc: "replay cfg r (s\<lparr>s_trc := tr\<rparr>) = (replay cfg r s)\<lparr>s_trc := tr\<rparr>"
  unfolding replay_def by (subst shd_mem_write_trc [symmetric]) (cases s, simp)

lemma revert_frame [simp]:
  "s_cnt (revert cfg r s) = s_cnt s" "s_trc (revert cfg r s) = s_trc s"
  by (simp_all add: revert_def)

lemma view_scalars [simp]:
  "view (s\<lparr>s_cnt := n\<rparr>) = view s" "view (s\<lparr>s_trc := tr\<rparr>) = view s" "view (s\<lparr>s_sig := sg\<rparr>) = view s"
  by (simp_all add: view_def)

text \<open>The queue of the language holds fewer than \<open>2 ^ 31\<close> elements.\<close>

definition queue_ok :: "gdb_shadow \<Rightarrow> bool" where
  "queue_ok s \<longleftrightarrow> length (s_trc s) < 2 ^ 31"

lemma unat_succ:
  fixes n :: "32 word"
  shows "n \<noteq> - 1 \<Longrightarrow> unat (n + 1) = Suc (unat n)"
  using unatSuc [of n] by (metis add.commute eq_neg_iff_add_eq_0)

lemma word_of_nat_length: "n < 2 ^ 32 \<Longrightarrow> unat (word_of_nat n :: 32 word) = n"
  by (simp add: unat_of_nat)

lemma forward_eq:
  assumes "unat (s_cnt s + 1) < length (s_trc s)" and "queue_ok s"
  shows "forward cfg s = Some (match_current
    ((if s_cnt s = - 1 then s else replay cfg (s_trc s ! unat (s_cnt s)) s)\<lparr>s_cnt := s_cnt s + 1\<rparr>))"
proof -
  have "s_cnt s + 1 \<noteq> word_of_nat (length (s_trc s))"
    using assms word_of_nat_length [of "length (s_trc s)"] by (auto simp: queue_ok_def)
  moreover have "s_cnt s \<noteq> - 1 \<Longrightarrow> unat (s_cnt s) < length (s_trc s)"
    using assms(1) unat_succ [of "s_cnt s"] by simp
  ultimately show ?thesis
    by (auto simp: forward_def trc_ref_def Let_def)
qed

text \<open>The trace that the next step forward works on.\<close>

definition next_trace :: "('d \<Rightarrow> sv_retired \<times> 'd) \<Rightarrow> 'd \<Rightarrow> gdb_shadow \<Rightarrow> sv_retired list" where
  "next_trace dut_step d s =
     (if Suc (applied s) = length (s_trc s) \<or> s_trc s = [] then s_trc s @ [fst (dut_step d)]
      else s_trc s)"

lemma at_end_iff:
  assumes "position_ok s" and "queue_ok s"
  shows "s_cnt s = word_of_nat (length (s_trc s)) - 1 \<longleftrightarrow>
    Suc (applied s) = length (s_trc s) \<or> s_trc s = []"
proof (cases "s_cnt s = - 1")
  case True
  with assms show ?thesis by (simp add: position_ok_def)
next
  case False
  have "s_cnt s = word_of_nat (length (s_trc s)) - 1 \<longleftrightarrow>
      s_cnt s + 1 = word_of_nat (length (s_trc s))"
    by (metis add_diff_cancel_right' diff_add_cancel)
  also have "\<dots> \<longleftrightarrow> unat (s_cnt s + 1) = length (s_trc s)"
    using assms(2) word_of_nat_length [of "length (s_trc s)"]
    by (auto simp: queue_ok_def word_unat_eq_iff)
  finally show ?thesis
    using False assms(1) by (auto simp: unat_succ applied_def position_ok_def)
qed

lemma forward_step_eq:
  assumes "position_ok s" and "length (next_trace dut_step d s) < 2 ^ 31"
  shows "\<exists>d'. rsp_forward_step cfg dut_step (d, s) = Some (d', match_current
    ((if s_cnt s = - 1 then s else replay cfg (s_trc s ! unat (s_cnt s)) s)
      \<lparr>s_trc := next_trace dut_step d s, s_cnt := s_cnt s + 1\<rparr>)) \<and>
    d' = (if next_trace dut_step d s = s_trc s then d else snd (dut_step d))"
proof -
  have queue: "queue_ok s"
    using assms(2) by (auto simp: queue_ok_def next_trace_def split: if_splits)
  have pos: "unat (s_cnt s + 1) < length (next_trace dut_step d s)"
    using assms(1) by (auto simp: position_ok_def next_trace_def applied_def unat_succ split: if_splits)
  have step: "rsp_forward_step cfg dut_step (d, s) = map_option
      (Pair (if next_trace dut_step d s = s_trc s then d else snd (dut_step d)))
      (forward cfg (s\<lparr>s_trc := next_trace dut_step d s\<rparr>))"
    using at_end_iff [OF assms(1) queue]
    by (auto simp: rsp_forward_step_def next_trace_def Let_def split: prod.split)
  have nth: "s_cnt s \<noteq> - 1 \<Longrightarrow> next_trace dut_step d s ! unat (s_cnt s) = s_trc s ! unat (s_cnt s)"
    using assms(1) by (auto simp: position_ok_def next_trace_def nth_append)
  show ?thesis
    unfolding step using pos assms(2) nth
    by (subst forward_eq) (auto simp: queue_ok_def replay_trc)
qed

lemma backward_step_eq:
  assumes "position_ok s"
  shows "rsp_backward_step cfg s = Some
    (if applied s = 0 then s\<lparr>s_sig := SIGTRAP\<rparr>
     else match_current ((revert cfg (s_trc s ! (applied s - 1)) s)\<lparr>s_cnt := s_cnt s - 1\<rparr>))"
proof (cases "s_cnt s = - 1 \<or> s_cnt s = 0")
  case True
  then show ?thesis by (auto simp: rsp_backward_step_def applied_def)
next
  case False
  then have pred: "unat (s_cnt s - 1) = unat (s_cnt s) - 1" "0 < unat (s_cnt s)"
    using unat_minus_one [of "s_cnt s"] by (auto simp: unat_gt_0)
  with False assms have "unat (s_cnt s) - 1 < length (s_trc s)"
    by (auto simp: position_ok_def)
  with False pred show ?thesis
    by (auto simp: rsp_backward_step_def backward_def trc_ref_def applied_def)
qed

section \<open>What a session reaches\<close>

lemma forward_length: "forward cfg s = Some s' \<Longrightarrow> length (s_trc s') = length (s_trc s)"
  by (auto simp: forward_def Let_def bind_eq_Some_conv shd_update_def split: if_splits)

lemma forward_step_extends:
  assumes "position_ok s" and "queue_ok s" and "rsp_forward_step cfg dut_step (d, s) = Some (d', s')"
  shows "length (next_trace dut_step d s) = length (s_trc s')"
  using assms(3) at_end_iff [OF assms(1,2)]
  by (auto simp: rsp_forward_step_def next_trace_def Let_def dest!: forward_length
      split: prod.splits if_splits)

lemma forward_step_mono:
  assumes "rsp_forward_step cfg dut_step (d, s) = Some (d', s')"
  shows "length (s_trc s) \<le> length (s_trc s')"
  using assms
  by (auto simp: rsp_forward_step_def Let_def dest!: forward_length split: prod.splits if_splits)

lemma points_frame [simp]:
  "s_cnt (snd (point_insert p a k s)) = s_cnt s" "s_trc (snd (point_insert p a k s)) = s_trc s"
  "s_cnt (snd (point_remove p a k s)) = s_cnt s" "s_trc (snd (point_remove p a k s)) = s_trc s"
  "view (snd (point_insert p a k s)) = view s" "view (snd (point_remove p a k s)) = view s"
  by (simp_all add: point_insert_def point_remove_def Let_def view_def)

text \<open>The invariant: well-formed, in range, and the trace is what the processor delivered.\<close>

definition session_inv :: "sv_config \<Rightarrow> ('d \<Rightarrow> sv_retired \<times> 'd) \<Rightarrow> 'd \<Rightarrow> 'd \<Rightarrow> gdb_shadow \<Rightarrow> bool" where
  "session_inv cfg dut_step d0 d s \<longleftrightarrow> shd_wf cfg s \<and> position_ok s \<and>
     dut_run dut_step d0 (length (s_trc s)) = (s_trc s, d)"

lemma forward_step_keeps:
  assumes wf: "shd_wf cfg s" and pos: "position_ok s" and queue: "queue_ok s'"
    and step: "rsp_forward_step cfg dut_step (d, s) = Some (d', s')"
  shows "shd_wf cfg s' \<and> position_ok s'"
    and "view s' = (if s_cnt s = - 1 then view s else a_replay cfg (s_trc s ! unat (s_cnt s)) (view s))"
    and "s_cnt s' = s_cnt s + 1" and "s_trc s' = next_trace dut_step d s"
    and "d' = (if next_trace dut_step d s = s_trc s then d else snd (dut_step d))"
proof -
  have "queue_ok s"
    using forward_step_mono [OF step] queue by (simp add: queue_ok_def)
  then have small: "length (next_trace dut_step d s) < 2 ^ 31"
    using forward_step_extends [OF pos _ step] queue by (simp add: queue_ok_def)
  from forward_step_eq [OF pos small, of cfg] step
  show "d' = (if next_trace dut_step d s = s_trc s then d else snd (dut_step d))"
    by auto
  from forward_step_eq [OF pos small, of cfg] step
  have s': "s' = match_current ((if s_cnt s = - 1 then s else replay cfg (s_trc s ! unat (s_cnt s)) s)
      \<lparr>s_trc := next_trace dut_step d s, s_cnt := s_cnt s + 1\<rparr>)"
    by auto
  have range: "unat (s_cnt s + 1) < length (next_trace dut_step d s)"
    using pos by (auto simp: position_ok_def next_trace_def applied_def unat_succ split: if_splits)
  have "s_cnt s + 1 \<noteq> - 1"
  proof
    assume "s_cnt s + 1 = - 1"
    with range have "unat (- 1 :: 32 word) < length (next_trace dut_step d s)" by (simp only:)
    with small show False by (simp add: unsigned_minus_1_eq_mask mask_eq_exp_minus_1)
  qed
  with range have "position_ok s'"
    by (simp add: s' position_ok_def)
  moreover have "shd_wf cfg s'"
    using wf by (simp add: s' shd_wf_replay)
  ultimately show "shd_wf cfg s' \<and> position_ok s'" by simp
  show "view s' = (if s_cnt s = - 1 then view s else a_replay cfg (s_trc s ! unat (s_cnt s)) (view s))"
    using wf by (simp add: s' view_replay)
  show "s_cnt s' = s_cnt s + 1" and "s_trc s' = next_trace dut_step d s"
    by (simp_all add: s')
qed

lemma session_inv_fwd:
  assumes inv: "session_inv cfg dut_step d0 d s" and queue: "queue_ok s'"
    and step: "rsp_forward_step cfg dut_step (d, s) = Some (d', s')"
  shows "session_inv cfg dut_step d0 d' s'"
    and "view s' = (if s_cnt s = - 1 then view s else a_replay cfg (s_trc s ! unat (s_cnt s)) (view s))"
    and "s_cnt s' = s_cnt s + 1" and "s_trc s' = next_trace dut_step d s"
proof -
  from inv have pos: "position_ok s" and wf: "shd_wf cfg s"
    and run: "dut_run dut_step d0 (length (s_trc s)) = (s_trc s, d)"
    by (simp_all add: session_inv_def)
  note keeps = forward_step_keeps [OF wf pos queue step]
  have "dut_run dut_step d0 (length (s_trc s')) = (s_trc s', d')"
    using run by (auto simp: keeps(4,5) next_trace_def split: prod.split)
  with keeps(1) show "session_inv cfg dut_step d0 d' s'"
    by (simp add: session_inv_def)
qed (use inv forward_step_keeps [OF _ _ queue step] in \<open>simp_all add: session_inv_def\<close>)

lemma backward_step_keeps:
  assumes wf: "shd_wf cfg s" and pos: "position_ok s" and step: "rsp_backward_step cfg s = Some s'"
  shows "shd_wf cfg s' \<and> position_ok s'"
    and "view s' = (if applied s = 0 then view s else a_revert cfg (s_trc s ! (applied s - 1)) (view s))"
    and "applied s' = applied s - 1" and "s_trc s' = s_trc s"
proof -
  from backward_step_eq [OF pos] step
  have s': "s' = (if applied s = 0 then s\<lparr>s_sig := SIGTRAP\<rparr>
     else match_current ((revert cfg (s_trc s ! (applied s - 1)) s)\<lparr>s_cnt := s_cnt s - 1\<rparr>))"
    by simp
  show trc: "s_trc s' = s_trc s"
    by (simp add: s')
  have cnt: "if applied s = 0 then s_cnt s' = s_cnt s
      else s_cnt s \<noteq> - 1 \<and> s_cnt s' = s_cnt s - 1 \<and> s_cnt s' \<noteq> - 1 \<and> unat (s_cnt s') = unat (s_cnt s) - 1"
    using unat_minus_one [of "s_cnt s"] unat_gt_0 [of "s_cnt s"] by (auto simp: s' applied_def)
  then show "applied s' = applied s - 1"
    by (auto simp: applied_def split: if_splits)
  have "position_ok s'"
    using pos cnt trc by (auto simp: position_ok_def split: if_splits)
  moreover have "shd_wf cfg s'"
    using wf by (simp add: s' shd_wf_revert)
  ultimately show "shd_wf cfg s' \<and> position_ok s'" by simp
  show "view s' = (if applied s = 0 then view s else a_revert cfg (s_trc s ! (applied s - 1)) (view s))"
    using wf by (simp add: s' view_revert)
qed

lemma session_inv_back:
  assumes inv: "session_inv cfg dut_step d0 d s" and step: "rsp_backward_step cfg s = Some s'"
  shows "session_inv cfg dut_step d0 d s'"
    and "view s' = (if applied s = 0 then view s else a_revert cfg (s_trc s ! (applied s - 1)) (view s))"
    and "applied s' = applied s - 1" and "s_trc s' = s_trc s"
  using inv backward_step_keeps [OF _ _ step] by (simp_all add: session_inv_def)

lemma session_inv_start: "session_inv cfg dut_step d0 d0 (shd_new cfg)"
  by (simp add: session_inv_def shd_wf_new position_ok_def) (simp add: shd_new_def)

lemma session_inv_other:
  assumes "session_inv cfg dut_step d0 d s"
  shows "session_inv cfg dut_step d0 d (snd (point_insert p a k s))"
    "session_inv cfg dut_step d0 d (snd (point_remove p a k s))"
    "session_inv cfg dut_step d0 d (s\<lparr>s_sig := sg\<rparr>)"
  using assms by (simp_all add: session_inv_def shd_wf_points position_ok_def)

lemma walk_inv:
  assumes "walk cfg dut_step d0 d s" and "queue_ok s"
  shows "session_inv cfg dut_step d0 d s"
  using assms
proof (induction rule: walk.induct)
  case start
  then show ?case by (simp add: session_inv_start)
next
  case (fwd d s d' s')
  then have "queue_ok s"
    using forward_step_mono by (fastforce simp: queue_ok_def)
  with fwd.IH have "session_inv cfg dut_step d0 d s" by blast
  from session_inv_fwd(1) [OF this fwd.prems fwd.hyps(2)] show ?case .
next
  case (rev d s s')
  have "queue_ok s"
    using rev.hyps(2) rev.prems
    by (auto simp: rsp_backward_step_def backward_def bind_eq_Some_conv queue_ok_def split: if_splits)
  with rev.IH have "session_inv cfg dut_step d0 d s" by blast
  from session_inv_back(1) [OF this rev.hyps(2)] show ?case .
qed (auto simp: session_inv_other queue_ok_def)

section \<open>Time travel\<close>

lemma length_dut_run: "length (fst (dut_run dut_step d n)) = n"
  by (induction n) (auto split: prod.splits)

lemma dut_run_prefix: "k \<le> n \<Longrightarrow> take k (fst (dut_run dut_step d n)) = fst (dut_run dut_step d k)"
proof (induction n)
  case 0
  then show ?case by simp
next
  case (Suc n)
  show ?case
  proof (cases "k = Suc n")
    case True
    then show ?thesis
      using length_dut_run [of dut_step d "Suc n"] by simp
  next
    case False
    with Suc show ?thesis
      using length_dut_run [of dut_step d n] by (auto split: prod.split)
  qed
qed

text \<open>The state of the processor before its \<open>n\<close>-th instruction, as the trace tells it.\<close>

definition history :: "sv_config \<Rightarrow> sv_retired list \<Rightarrow> arch" where
  "history cfg rs = fold (a_replay cfg) rs (view (shd_new cfg))"

text \<open>
  A trace whose entries hold, as their read data, what the instruction found: the comments of the
  structure and the table of the documentation (README.adoc, naming scheme \<open>cur\<close> and \<open>nxt\<close>) give the
  read data this meaning, and \<open>record\<close> is meant to fill them in.
\<close>

definition recorded :: "sv_config \<Rightarrow> sv_retired list \<Rightarrow> bool" where
  "recorded cfg rs \<longleftrightarrow> (\<forall>k < length rs. undoable cfg (history cfg (take k rs)) (rs ! k))"

lemma recorded_prefix: "recorded cfg rs \<Longrightarrow> recorded cfg (take n rs)"
  by (auto simp: recorded_def min_def)

lemma dut_run_nth:
  assumes "k < n"
  shows "fst (dut_run dut_step d n) ! k = fst (dut_step (snd (dut_run dut_step d k)))"
proof -
  have "fst (dut_run dut_step d n) ! k = take (Suc k) (fst (dut_run dut_step d n)) ! k"
    using assms by simp
  also have "\<dots> = fst (dut_run dut_step d (Suc k)) ! k"
    using assms by (subst dut_run_prefix) simp_all
  also have "\<dots> = fst (dut_step (snd (dut_run dut_step d k)))"
    using length_dut_run [of dut_step d k]
    by (cases "dut_run dut_step d k"; cases "dut_step (snd (dut_run dut_step d k))")
      (simp add: nth_append)
  finally show ?thesis .
qed

lemma session_entry:
  assumes "session_inv cfg dut_step d0 d s" and "k < length (s_trc s)"
  shows "s_trc s ! k = fst (dut_step (snd (dut_run dut_step d0 k)))"
  using assms dut_run_nth [OF assms(2), of dut_step d0] by (simp add: session_inv_def)

lemma history_snoc: "history cfg (rs @ [r]) = a_replay cfg r (history cfg rs)"
  by (simp add: history_def)

lemma history_take_Suc:
  "k < length rs \<Longrightarrow> history cfg (take (Suc k) rs) = a_replay cfg (rs ! k) (history cfg (take k rs))"
  by (simp add: take_Suc_conv_app_nth history_snoc)

lemma history_undo:
  assumes "recorded cfg rs" and "Suc k \<le> length rs"
  shows "a_revert cfg (rs ! k) (history cfg (take (Suc k) rs)) = history cfg (take k rs)"
  using assms by (simp add: history_take_Suc a_revert_replay recorded_def)

lemma history_fwd:
  assumes inv: "session_inv cfg dut_step d0 d s" and queue: "queue_ok s'"
    and step: "rsp_forward_step cfg dut_step (d, s) = Some (d', s')"
    and view: "view s = history cfg (take (applied s) (s_trc s))"
  shows "view s' = history cfg (take (applied s') (s_trc s'))"
proof -
  note fwd = session_inv_fwd [OF inv queue step]
  have pos: "position_ok s" "position_ok s'"
    using inv fwd(1) by (simp_all add: session_inv_def)
  show ?thesis
  proof (cases "s_cnt s = - 1")
    case True
    then show ?thesis
      using fwd view pos by (simp add: applied_def)
  next
    case False
    then have "unat (s_cnt s) < length (s_trc s)"
      using pos(1) by (simp add: position_ok_def)
    then have "take (Suc (unat (s_cnt s))) (next_trace dut_step d s) = take (Suc (unat (s_cnt s))) (s_trc s)"
      and "history cfg (take (Suc (unat (s_cnt s))) (s_trc s))
        = a_replay cfg (s_trc s ! unat (s_cnt s)) (view s)"
      using False view by (simp_all add: next_trace_def history_take_Suc applied_def)
    moreover have "s_cnt s' \<noteq> - 1"
      using pos(2) fwd(4) by (auto simp: position_ok_def next_trace_def split: if_splits)
    ultimately show ?thesis
      using False fwd by (simp add: applied_def unat_succ)
  qed
qed

lemma walk_history:
  assumes "walk cfg dut_step d0 d s" and "queue_ok s" and "recorded cfg (s_trc s)"
  shows "view s = history cfg (take (applied s) (s_trc s))"
  using assms
proof (induction rule: walk.induct)
  case start
  then show ?case by (simp add: history_def applied_def) (simp add: shd_new_def)
next
  case (fwd d s d' s')
  have q: "queue_ok s"
    using forward_step_mono [OF fwd.hyps(2)] fwd.prems(1) by (simp add: queue_ok_def)
  note inv = walk_inv [OF fwd.hyps(1) q]
  have "s_trc s = take (length (s_trc s)) (s_trc s')"
    using session_inv_fwd(4) [OF inv fwd.prems(1) fwd.hyps(2)] by (simp add: next_trace_def)
  then have "recorded cfg (s_trc s)"
    using recorded_prefix [OF fwd.prems(2)] by metis
  from history_fwd [OF inv fwd.prems(1) fwd.hyps(2) fwd.IH [OF q this]] show ?case .
next
  case (rev d s s')
  have q: "queue_ok s"
    using rev.hyps(2) rev.prems
    by (auto simp: rsp_backward_step_def backward_def bind_eq_Some_conv queue_ok_def split: if_splits)
  note inv = walk_inv [OF rev.hyps(1) q]
  note bwd = session_inv_back [OF inv rev.hyps(2)]
  have rec: "recorded cfg (s_trc s)"
    using rev.prems(2) bwd(4) by simp
  note IH = rev.IH [OF q rec]
  show ?case
  proof (cases "applied s")
    case 0
    then show ?thesis using bwd IH by simp
  next
    case (Suc k)
    then have "Suc k \<le> length (s_trc s)"
      using inv by (auto simp: session_inv_def position_ok_def applied_def split: if_splits)
    from history_undo [OF rec this] Suc show ?thesis
      using bwd IH by simp
  qed
qed (simp_all add: applied_def queue_ok_def)


text \<open>
  Property C11: in every session the shadow stays well-formed, the counter is -1 with an empty trace
  or an index of the trace, and the trace is, entry by entry, what the processor delivered.  In
  particular \<open>update\<close> and \<open>record\<close>, which are meant to complete new entries with the state of the
  shadow, never run: \<open>rsp_forward_step\<close> has already extended the trace when \<open>forward\<close> compares the
  counter with its size.
\<close>

theorem session_trace:
  assumes "walk cfg dut_step d0 d s" and "length (s_trc s) < 2 ^ 31"
  shows "shd_wf cfg s \<and>
    (if s_cnt s = - 1 then s_trc s = [] else unat (s_cnt s) < length (s_trc s)) \<and>
    s_trc s = fst (dut_run dut_step d0 (length (s_trc s)))"
  using walk_inv [of cfg dut_step d0 d s] assms
  by (simp add: queue_ok_def session_inv_def position_ok_def)

text \<open>
  No step of a session refers to an entry of the trace that does not exist, in either
  direction, as long as the trace fits a queue; a step back at the beginning of the trace changes
  nothing but the signal.
\<close>

theorem steps_defined:
  assumes "walk cfg dut_step d0 d s" and "Suc (length (s_trc s)) < 2 ^ 31"
  shows "rsp_forward_step cfg dut_step (d, s) \<noteq> None \<and> rsp_backward_step cfg s \<noteq> None \<and>
    (applied s = 0 \<longrightarrow> rsp_backward_step cfg s = Some (s\<lparr>s_sig := SIGTRAP\<rparr>))"
proof -
  have "session_inv cfg dut_step d0 d s"
    using assms by (intro walk_inv) (auto simp: queue_ok_def)
  then have pos: "position_ok s" by (simp add: session_inv_def)
  have "length (next_trace dut_step d s) < 2 ^ 31"
    using assms(2) by (simp add: next_trace_def)
  with forward_step_eq [OF pos, of dut_step d cfg] backward_step_eq [OF pos, of cfg] show ?thesis
    by auto
qed

section \<open>A processor that reports what it finds\<close>

text \<open>
  A processor whose instructions count: each one adds 1 to register 1 and to the byte at 0x100, and
  reports the values before and after.
\<close>

definition demo_entry :: "nat \<Rightarrow> sv_retired" where
  "demo_entry n =
     \<lparr>rt_ifu = \<lparr>ifu_adr = word_of_nat (4 * n), ifu_pcn = word_of_nat (4 * Suc n),
        ifu_rdt = [0x93, 0x80, 0x10, 0], ifu_ill = False\<rparr>,
      rt_gpr = [\<lparr>gpr_idx = 1, gpr_rdt = (if n = 0 then all_x else of_bits (word_of_nat n)),
        gpr_wdt = of_bits (word_of_nat (Suc n))\<rparr>],
      rt_csr = [],
      rt_lsu = \<lparr>lsu_adr = 0x100, lsu_rdt = [word_of_nat n], lsu_wdt = [word_of_nat (Suc n)]\<rparr>\<rparr>"

definition demo_dut :: "nat \<Rightarrow> sv_retired \<times> nat" where
  "demo_dut n = (demo_entry n, Suc n)"

definition demo_arch :: "nat \<Rightarrow> arch" where
  "demo_arch n = (view (shd_new demo_sv))
     \<lparr>a_pc := word_of_nat (4 * n),
      a_gpr := (if n = 0 then a_gpr (view (shd_new demo_sv))
                else (a_gpr (view (shd_new demo_sv)))[1 := of_bits (word_of_nat n)]),
      a_mem := (a_mem (view (shd_new demo_sv)))
        (0 := patch 0 [word_of_nat n] (a_mem (view (shd_new demo_sv)) 0))\<rparr>"

lemma demo_region: "region_of demo_sv 0x100 = Some 0" "region_offset demo_sv 0 0x100 = 0"
  by (simp_all add: region_of_def region_offset_def demo_sv_def in_region_def upt_rec)

lemma patch_patch: "length bs = length cs \<Longrightarrow> patch off bs (patch off cs f) = patch off bs f"
  by (rule ext) (simp add: patch_def)

lemma demo_arch_Suc: "a_replay demo_sv (demo_entry n) (demo_arch n) = demo_arch (Suc n)"
  by (simp add: a_replay_def demo_entry_def demo_arch_def a_write_def demo_region patch_patch)

lemma demo_arch_0: "demo_arch 0 = view (shd_new demo_sv)"
proof -
  have "patch 0 [0] (a_mem (view (shd_new demo_sv)) 0) = a_mem (view (shd_new demo_sv)) 0"
    by (rule ext) (simp add: patch_def view_def mem_view_def shd_new_def demo_sv_def byte_at_def)
  then show ?thesis
    by (simp add: demo_arch_def) (simp add: view_def shd_new_def)
qed

lemma demo_dut_run: "dut_run demo_dut 0 n = (map demo_entry [0 ..< n], n)"
  by (induction n) (simp_all add: demo_dut_def)

lemma demo_history: "history demo_sv (map demo_entry [0 ..< n]) = demo_arch n"
  by (induction n) (simp_all add: history_snoc demo_arch_Suc, simp add: history_def demo_arch_0)

lemma demo_undoable: "undoable demo_sv (demo_arch n) (demo_entry n)"
proof -
  have "length (a_gpr (view (shd_new demo_sv))) = 32"
    by (simp add: view_def shd_new_def demo_sv_def)
  moreover have "a_gpr (view (shd_new demo_sv)) ! 1 = all_x"
    by (simp add: view_def shd_new_def demo_sv_def)
  ultimately show ?thesis
    by (simp add: undoable_def demo_arch_def demo_entry_def elem_def a_read_def demo_region patch_def)
qed

lemma demo_recorded: "recorded demo_sv (map demo_entry [0 ..< n])"
  by (simp add: recorded_def take_map demo_history demo_undoable)

lemma walk_fwd:
  assumes "walk cfg dut_step d0 d s" and "Suc (length (s_trc s)) < 2 ^ 31"
  shows "\<exists>d' s'. walk cfg dut_step d0 d' s' \<and> s_cnt s' = s_cnt s + 1 \<and> s_trc s' = next_trace dut_step d s"
proof -
  have "session_inv cfg dut_step d0 d s"
    using assms by (intro walk_inv) (auto simp: queue_ok_def)
  then have pos: "position_ok s" by (simp add: session_inv_def)
  have "length (next_trace dut_step d s) < 2 ^ 31"
    using assms(2) by (simp add: next_trace_def)
  from forward_step_eq [OF pos this, of cfg] obtain d' s' where
    "rsp_forward_step cfg dut_step (d, s) = Some (d', s')" "s_cnt s' = s_cnt s + 1"
    "s_trc s' = next_trace dut_step d s"
    by auto
  with walk.fwd [OF assms(1)] show ?thesis by blast
qed

lemma walk_back:
  assumes "walk cfg dut_step d0 d s" and "queue_ok s" and "applied s \<noteq> 0"
  shows "\<exists>s'. walk cfg dut_step d0 d s' \<and> s_cnt s' = s_cnt s - 1 \<and> s_trc s' = s_trc s"
proof -
  have "position_ok s"
    using walk_inv [OF assms(1,2)] by (simp add: session_inv_def)
  from backward_step_eq [OF this, of cfg] assms(3) obtain s' where
    "rsp_backward_step cfg s = Some s'" "s_cnt s' = s_cnt s - 1" "s_trc s' = s_trc s"
    by auto
  with walk.rev [OF assms(1)] show ?thesis by blast
qed

text \<open>Three steps forward and one back.\<close>

lemma demo_walk: "\<exists>d s. walk cfg dut_step d0 d s \<and> s_cnt s = 1 \<and> length (s_trc s) = 3"
proof -
  have s0: "s_cnt (shd_new cfg) = - 1" "s_trc (shd_new cfg) = []"
    by (simp_all add: shd_new_def)
  obtain d1 s1 where s1: "walk cfg dut_step d0 d1 s1" "s_cnt s1 = 0" "length (s_trc s1) = 1"
    using walk_fwd [OF walk.start [of cfg dut_step d0]] s0 by (auto simp: next_trace_def)
  obtain d2 s2 where s2: "walk cfg dut_step d0 d2 s2" "s_cnt s2 = 1" "length (s_trc s2) = 2"
    using walk_fwd [OF s1(1)] s1 by (auto simp: next_trace_def applied_def)
  obtain d3 s3 where s3: "walk cfg dut_step d0 d3 s3" "s_cnt s3 = 2" "length (s_trc s3) = 3"
    using walk_fwd [OF s2(1)] s2 by (auto simp: next_trace_def applied_def)
  then show ?thesis
    using walk_back [OF s3(1)] by (fastforce simp: queue_ok_def applied_def)
qed


theorem session_trace_witness:
  "\<exists>d s. walk demo_sv demo_dut 0 d s \<and> s_cnt s = 1 \<and> s_trc s = map demo_entry [0 ..< 3]"
proof -
  obtain d s where s: "walk demo_sv demo_dut 0 d s" "s_cnt s = 1" "length (s_trc s) = 3"
    using demo_walk [of demo_sv demo_dut 0] by blast
  with session_trace [OF s(1)] show ?thesis
    by (auto simp: demo_dut_run)
qed

theorem steps_defined_witness:
  "\<exists>d s. walk demo_sv demo_dut 0 d s \<and> rsp_forward_step demo_sv demo_dut (d, s) \<noteq> None \<and>
    rsp_backward_step demo_sv s \<noteq> None"
proof -
  obtain d s where s: "walk demo_sv demo_dut 0 d s" "s_cnt s = 1" "length (s_trc s) = 3"
    using demo_walk [of demo_sv demo_dut 0] by blast
  with steps_defined [OF s(1)] show ?thesis by auto
qed

section \<open>The adapter of the example processor\<close>

text \<open>
  The signals that \<open>dut_step\<close> samples when an instruction retires.  The signal \<open>lsu_rdt\<close> is declared
  but never driven, so it is unknown.
\<close>

record nerv_sample =
  n_ifu_adr :: logic
  n_ifu_pcn :: logic
  n_ifu_rdt :: logic
  n_gpr_wen :: bool
  n_gpr_idx :: "5 word"
  n_gpr_wdt :: logic
  n_lsu_ena :: bool
  n_lsu_siz :: "2 word"
  n_lsu_adr :: logic
  n_lsu_wdt :: logic

definition n_lsu_rdt :: logic where
  "n_lsu_rdt = all_x"

text \<open>\<open>new[n]({<<8{v}})\<close>: the bytes of a vector, least significant byte first, in an array of size \<open>n\<close>.\<close>

definition stream_bytes :: "nat \<Rightarrow> logic \<Rightarrow> byte list" where
  "stream_bytes n v = stream_read 0 n (map (\<lambda>i. ucast (drop_bit (8 * i) (to_bits v))) [0 ..< 4])"

text \<open>How \<open>dut_step\<close> fills the structure, which is fresh for every step.\<close>

definition nerv_retired :: "nerv_sample \<Rightarrow> sv_retired" where
  "nerv_retired smp =
     \<lparr>rt_ifu = \<lparr>ifu_adr = to_bits (n_ifu_adr smp), ifu_pcn = to_bits (n_ifu_pcn smp),
        ifu_rdt = stream_bytes (2 ^ 2) (n_ifu_rdt smp), ifu_ill = False\<rparr>,
      rt_gpr = (if n_gpr_wen smp
        then [\<lparr>gpr_idx = n_gpr_idx smp, gpr_rdt = all_x, gpr_wdt = n_gpr_wdt smp\<rparr>] else []),
      rt_csr = [],
      rt_lsu = (if n_lsu_ena smp
        then \<lparr>lsu_adr = to_bits (n_lsu_adr smp),
              lsu_rdt = stream_bytes (2 ^ unat (n_lsu_siz smp)) n_lsu_rdt,
              lsu_wdt = stream_bytes (2 ^ unat (n_lsu_siz smp)) (n_lsu_wdt smp)\<rparr>
        else rt_lsu retired_default)\<rparr>"

lemma stream_bytes_unknown: "stream_bytes n n_lsu_rdt = replicate n 0"
proof -
  have "to_bits n_lsu_rdt = 0"
    by (simp add: to_bits_def n_lsu_rdt_def all_x_def)
  then show ?thesis
    by (intro nth_equalityI) (auto simp: stream_bytes_def stream_read_def)
qed

lemma revert_mem:
  assumes "shd_wf cfg s"
  shows "shd_mem_read cfg (revert cfg r s) (lsu_adr (rt_lsu r)) (length (lsu_rdt (rt_lsu r)))
    = lsu_rdt (rt_lsu r)"
proof -
  have "a_read cfg (a_revert cfg r a) (lsu_adr (rt_lsu r)) (length (lsu_rdt (rt_lsu r)))
      = lsu_rdt (rt_lsu r)" for a
    by (auto simp: a_revert_def a_read_def a_write_def patch_def split: option.split
        intro: nth_equalityI)
  then show ?thesis
    using assms by (simp add: view_mem_read shd_wf_revert view_revert)
qed

lemma match_current_regs [simp]:
  "s_gpr (match_current s) = s_gpr s" "s_pc (match_current s) = s_pc s"
  "shd_mem_read cfg (match_current s) adr n = shd_mem_read cfg s adr n"
  by (auto simp: match_current_def breakpoint_match_def watchpoint_match_def Let_def shd_mem_read_def
      split: option.split)

text \<open>
  Property C12: stepping back over an instruction of the example processor loses state.  Since its
  adapter does not report the values that an instruction overwrites and \<open>record\<close> never fills them
  in, a step back over an instruction that wrote a register leaves that register unknown, and a step
  back over a store leaves zeros in the bytes it wrote, whatever was there before.  The program
  counter is restored.
\<close>

theorem nerv_step_back:
  assumes "walk cfg dut_step d0 d s" and "length (s_trc s) < 2 ^ 31"
    and "applied s = Suc k" and "s_trc s ! k = nerv_retired smp"
  shows "\<exists>s'. rsp_backward_step cfg s = Some s' \<and> s_pc s' = to_bits (n_ifu_adr smp) \<and>
    (n_gpr_wen smp \<longrightarrow> elem (s_gpr s') (unat (n_gpr_idx smp)) = all_x) \<and>
    (n_lsu_ena smp \<longrightarrow> shd_mem_read cfg s' (to_bits (n_lsu_adr smp)) (2 ^ unat (n_lsu_siz smp))
      = replicate (2 ^ unat (n_lsu_siz smp)) 0)"
proof -
  have "session_inv cfg dut_step d0 d s"
    using assms by (intro walk_inv) (simp_all add: queue_ok_def)
  then have pos: "position_ok s" and wf: "shd_wf cfg s"
    by (simp_all add: session_inv_def)
  let ?s = "revert cfg (nerv_retired smp) s"
  have "rsp_backward_step cfg s = Some (match_current (?s\<lparr>s_cnt := s_cnt s - 1\<rparr>))"
    using backward_step_eq [OF pos, of cfg] assms(3,4) by simp
  moreover have "s_pc ?s = to_bits (n_ifu_adr smp)"
    by (simp add: revert_def nerv_retired_def)
  moreover have "n_gpr_wen smp \<Longrightarrow> elem (s_gpr ?s) (unat (n_gpr_idx smp)) = all_x"
    by (simp add: revert_def nerv_retired_def elem_def)
  moreover have "shd_mem_read cfg (?s\<lparr>s_cnt := n\<rparr>) a m = shd_mem_read cfg ?s a m" for n a m
    by (simp add: shd_mem_read_def split: option.split)
  moreover have "n_lsu_ena smp \<Longrightarrow> shd_mem_read cfg ?s (to_bits (n_lsu_adr smp))
      (2 ^ unat (n_lsu_siz smp)) = replicate (2 ^ unat (n_lsu_siz smp)) 0"
    using revert_mem [OF wf, of "nerv_retired smp"]
    by (simp add: nerv_retired_def stream_bytes_unknown)
  ultimately show ?thesis by simp
qed

text \<open>A store of a word, of a value that is also loaded into register 5.\<close>

definition demo_sample :: nerv_sample where
  "demo_sample = \<lparr>n_ifu_adr = of_bits 0x100, n_ifu_pcn = of_bits 0x104, n_ifu_rdt = of_bits 0x23,
     n_gpr_wen = True, n_gpr_idx = 5, n_gpr_wdt = of_bits 0xAB, n_lsu_ena = True, n_lsu_siz = 2,
     n_lsu_adr = of_bits 0x204, n_lsu_wdt = of_bits 0x1234\<rparr>"

theorem nerv_step_back_witness:
  "\<exists>d s s'. walk demo_sv (\<lambda>_. (nerv_retired demo_sample, ())) () d s \<and>
    rsp_backward_step demo_sv s = Some s' \<and> elem (s_gpr s') 5 = all_x \<and>
    shd_mem_read demo_sv s' 0x204 4 = [0, 0, 0, 0]"
proof -
  obtain d s where s: "walk demo_sv (\<lambda>_. (nerv_retired demo_sample, ())) () d s"
      "s_cnt s = 1" "length (s_trc s) = 3"
    using demo_walk [of demo_sv "\<lambda>_. (nerv_retired demo_sample, ())" "()"] by blast
  have inv: "session_inv demo_sv (\<lambda>_. (nerv_retired demo_sample, ())) () d s"
    using s by (intro walk_inv) (simp_all add: queue_ok_def)
  have "s_trc s ! 0 = fst (nerv_retired demo_sample, ())"
    using s(3) session_entry [OF inv, of 0] by simp
  then have entry: "s_trc s ! 0 = nerv_retired demo_sample" by simp
  have app: "applied s = Suc 0"
    using s(2) by (simp add: applied_def)
  have small: "length (s_trc s) < 2 ^ 31"
    using s(3) by simp
  have "replicate 4 0 = [0, 0, 0, 0 :: byte]"
    by (simp add: eval_nat_numeral)
  with nerv_step_back [OF s(1) small app entry] s(1) show ?thesis
    by (simp add: demo_sample_def) blast
qed

end
