(* ===== verification/Sv_Stub.thy ===== *)
theory Sv_Stub
  imports Sv_Packet Sv_Steps
begin

text \<open>
  The SystemVerilog server stub (\<open>hdl/gdb_server_stub_pkg.sv\<close>): its state, every packet handler,
  the dispatcher \<open>rsp_packet\<close> and the state machine \<open>gdb_fsm\<close>, in the order of the source.

  The processor under test is a parameter: the record \<open>dut_ops\<close> holds the virtual functions and
  tasks of the class over a state of the simulation.  Variables that a conversion of \<open>$sscanf\<close> does
  not reach keep their values; automatic variables start with the default value of their type.
  Handlers are programs over the state; a handler that the language leaves without a meaning (a
  reference to a missing element of the trace) fails.  \<open>rsp_backward\<close> selects a part of a string
  with \<open>pkt[0:1]\<close>, which is read as its first two characters.
\<close>

section \<open>State\<close>

record stub_state_t =
  socket_port :: "16 word"
  remote_log :: bool
  acknowledge :: bool
  extended_mode :: bool
  register :: bool
  memory :: bool

definition STUB_STATE_INIT :: stub_state_t where
  "STUB_STATE_INIT = \<lparr>socket_port = 0, remote_log = True, acknowledge = True, extended_mode = False,
     register = False, memory = False\<rparr>"

definition features_stub :: "(string, string) smap" where
  "features_stub = foldl (\<lambda>m (k, v). map_set k v m) []
    [(''swbreak'', ''+''), (''hwbreak'', ''+''), (''error-message'', ''+''), (''binary-upload'', ''-''),
     (''multiprocess'', ''-''), (''ReverseStep'', ''+''), (''ReverseContinue'', ''+''),
     (''QStartNoAckMode'', ''+'')]"

record 'd stub = dpi +
  stub_state :: stub_state_t
  features_gdb :: "(string, string) smap"
  shd :: gdb_shadow
  dut :: 'd
  bf :: string   \<comment> \<open>the static array of \<open>rsp_packet\<close>\<close>

text \<open>The virtual functions and tasks.\<close>

record 'd dut_ops =
  dut_reset_assert :: "'d \<Rightarrow> 'd"
  dut_reset_release :: "'d \<Rightarrow> 'd"
  dut_step :: "'d \<Rightarrow> sv_retired \<times> 'd"
  dut_reg_read :: "'d \<Rightarrow> 32 word \<Rightarrow> 32 word"
  dut_reg_write :: "32 word \<Rightarrow> 32 word \<Rightarrow> 'd \<Rightarrow> 'd"
  sv_dut_mem_read :: "'d \<Rightarrow> 32 word \<Rightarrow> byte"
  sv_dut_mem_write :: "32 word \<Rightarrow> byte \<Rightarrow> 'd \<Rightarrow> 'd"

record stub_config =
  SHADOW :: sv_config
  REGN :: nat
  THREADS :: "string list"

type_synonym ('d, 'a) handler = "('d stub, 'a) prog"

definition set_state :: "(stub_state_t \<Rightarrow> stub_state_t) \<Rightarrow> ('d, unit) handler" where
  "set_state f = modifies (\<lambda>s. s\<lparr>stub_state := f (stub_state s)\<rparr>)"

definition on_shd :: "(gdb_shadow \<Rightarrow> gdb_shadow) \<Rightarrow> ('d, unit) handler" where
  "on_shd f = modifies (\<lambda>s. s\<lparr>shd := f (shd s)\<rparr>)"

definition on_dut :: "('d \<Rightarrow> 'd) \<Rightarrow> ('d, unit) handler" where
  "on_dut f = modifies (\<lambda>s. s\<lparr>dut := f (dut s)\<rparr>)"

text \<open>The packet functions with their default argument, the acknowledge mode of the stub.\<close>

definition get_packet :: "('d, string) handler" where
  "get_packet = bnd (gets (\<lambda>s. acknowledge (stub_state s))) (\<lambda>ack.
     bnd (rsp_get_packet ack) (\<lambda>(status, pkt). returns pkt))"

definition send_packet :: "string \<Rightarrow> ('d, int) handler" where
  "send_packet pkt = bnd (gets (\<lambda>s. acknowledge (stub_state s))) (\<lambda>ack. rsp_send_packet pkt ack)"

section \<open>Formats\<close>

text \<open>\<open>%h\<close> of a vector: one digit for four bits; unknown and undriven bits have letters.\<close>

definition nibble :: "nat \<Rightarrow> 32 word \<Rightarrow> nat" where
  "nibble i w = unat w div 16 ^ i mod 16"

definition logic_digit :: "nat \<Rightarrow> nat \<Rightarrow> char" where
  "logic_digit a b =
     (if b = 0 then hex_digit a
      else if b = 15 \<and> a = 15 then CHR ''x''
      else if b = 15 \<and> a = 0 then CHR ''z''
      else if a AND b \<noteq> 0 then CHR ''X'' else CHR ''Z'')"

definition format_08h :: "logic \<Rightarrow> string" where
  "format_08h v = map (\<lambda>i. logic_digit (nibble i (aval v)) (nibble i (bval v))) [7, 6, 5, 4, 3, 2, 1, 0]"

text \<open>\<open>{<<8{v}}\<close>: the bytes in reverse order.\<close>

definition swap_bytes :: "32 word \<Rightarrow> 32 word" where
  "swap_bytes w = le_dec (rev (le_enc w))"

definition swap_logic :: "logic \<Rightarrow> logic" where
  "swap_logic v = Logic (swap_bytes (aval v)) (swap_bytes (bval v))"

text \<open>\<open>$sscanf\<close> with literal characters and the conversions \<open>%h\<close> and \<open>%s\<close>.\<close>

datatype sv_fmt = FLit char | FHex "nat option" | FStr

datatype sv_val = Num nat | Str string

fun sv_scanf :: "sv_fmt list \<Rightarrow> string \<Rightarrow> sv_val list" where
  "sv_scanf [] str = []"
| "sv_scanf (FLit c # fs) (d # str) = (if c = d then sv_scanf fs str else [])"
| "sv_scanf (FLit c # fs) [] = []"
| "sv_scanf (FHex w # fs) str = (case sv_scan_h w str of
      None \<Rightarrow> [] | Some (v, r) \<Rightarrow> Num v # sv_scanf fs r)"
| "sv_scanf (FStr # fs) str =
     (let r = dropWhile is_space str; t = takeWhile (\<lambda>c. \<not> is_space c) r in
      if t = [] then [] else Str t # sv_scanf fs (drop (length t) r))"

definition lit :: "string \<Rightarrow> sv_fmt list" where
  "lit str = map FLit str"

text \<open>The value of a converted field, or the value the variable had before.\<close>

definition num_at :: "sv_val list \<Rightarrow> nat \<Rightarrow> nat \<Rightarrow> nat" where
  "num_at vs i old = (if i < length vs then (case vs ! i of Num n \<Rightarrow> n | Str _ \<Rightarrow> old) else old)"

definition str_at :: "sv_val list \<Rightarrow> nat \<Rightarrow> string \<Rightarrow> string" where
  "str_at vs i old = (if i < length vs then (case vs ! i of Str t \<Rightarrow> t | Num _ \<Rightarrow> old) else old)"

text \<open>A result of 32-bit arithmetic passed as an \<open>int\<close>.\<close>

definition as_int :: "32 word \<Rightarrow> int" where
  "as_int w = sint w"

definition char2space :: "string \<Rightarrow> char \<Rightarrow> string" where
  "char2space str sep = map (\<lambda>c. if c = sep then CHR '' '' else c) str"

text \<open>
  The loop of \<open>split\<close>: at the end of the string \<open>$sscanf\<close> answers \<open>EOF\<close>, which counts as true, and
  leaves the previous token in place.
\<close>

function split_tokens :: "string \<Rightarrow> string \<Rightarrow> string list" where
  "split_tokens tmp str =
     (let r = dropWhile is_space str;
          tmp' = (if r = [] then tmp else takeWhile (\<lambda>c. \<not> is_space c) r) in
      if length tmp' < length str
      then tmp' # split_tokens tmp' (sv_substr str (int (length tmp') + 1) (int (length str) - 1))
      else [tmp'])"
  by pat_completeness auto

lemma length_sv_substr: "length (sv_substr str i j) \<le> nat (j - i + 1)"
  by (simp add: sv_substr_def)

termination split_tokens
  by (relation "measure (\<lambda>(tmp, str). length str)")
    (auto intro: le_less_trans [OF length_sv_substr])

definition split :: "string \<Rightarrow> char \<Rightarrow> string list" where
  "split str sep = split_tokens [] (char2space str sep)"

section \<open>Signals and replies\<close>

definition ptype_name :: "32 word \<Rightarrow> string" where
  "ptype_name p = (if p = swbreak then ''swbreak'' else if p = hwbreak then ''hwbreak''
     else if p = watch then ''watch'' else if p = rwatch then ''rwatch''
     else if p = awatch then ''awatch'' else if p = 5 then ''replaylog'' else [])"

text \<open>The text of a stop reply; the arguments behind the register index have their defaults.\<close>

definition stop_text :: "gdb_shadow \<Rightarrow> 32 word \<Rightarrow> string" where
  "stop_text sh idx =
     (let t = CHR ''T'' # format_02x (s_sig sh) @ '';'';
          r = (if idx \<noteq> - 1 then format_nat_x (unat idx) @ '':'' @ format_08h all_x @ '';'' else []);
          p = sv_ptype (s_rsn sh);
          e = (if p \<in> {watch, rwatch, awatch} then
                 ptype_name p @ '':'' @ format_08h (of_bits (lsu_adr (rt_lsu (s_ret sh)))) @ '';''
               else if p \<in> {swbreak, hwbreak} then ptype_name p @ '':;''
               else if p = 5 then
                 ptype_name p @ '':'' @ (if s_cnt sh = 0 then ''begin'' else ''end'') @ '';''
               else []);
          str = t @ r @ e
      in sv_substr str 0 (int (length str) - 2))"

definition rsp_stop_reply :: "32 word \<Rightarrow> ('d, int) handler" where
  "rsp_stop_reply idx = bnd (gets shd) (\<lambda>sh. send_packet (stop_text sh idx))"

definition rsp_signal :: "('d, int) handler" where
  "rsp_signal = bnd get_packet (\<lambda>pkt. rsp_stop_reply (- 1))"

definition rsp_error_number_reply :: "byte \<Rightarrow> ('d, int) handler" where
  "rsp_error_number_reply val = send_packet (CHR ''E'' # format_02x val)"

definition rsp_error_text_reply :: "string \<Rightarrow> ('d, int) handler" where
  "rsp_error_text_reply str = send_packet (''E.'' @ rsp_ascii2hex str)"

definition rsp_error_lldb_reply :: "byte \<Rightarrow> string \<Rightarrow> ('d, int) handler" where
  "rsp_error_lldb_reply val str = send_packet (CHR ''E'' # format_02x val @ '';'' @ rsp_ascii2hex str)"

definition rsp_console_output :: "string \<Rightarrow> ('d, int) handler" where
  "rsp_console_output str = send_packet (CHR ''O'' # rsp_ascii2hex str)"

section \<open>Queries\<close>

definition rsp_query_monitor_reply :: "string \<Rightarrow> ('d, int) handler" where
  "rsp_query_monitor_reply str = send_packet (rsp_ascii2hex str)"

definition monitor_help :: string where
  "monitor_help = ''HELP: Available monitor commands:'' @ newline
     @ ''* 'set remote log on/off','' @ newline
     @ ''* 'set waveform dump on/off','' @ newline
     @ ''* 'set register=dut/shadow' (reading registers from dut/shadow, default is shadow),'' @ newline
     @ ''* 'set memory=dut/shadow' (reading memories from dut/shadow, default is shadow),'' @ newline
     @ ''* 'reset assert' (assert reset for a few clock periods),'' @ newline
     @ ''* 'reset release' (synchronously release reset).''"

text \<open>Every command is a change of the state and a text; waveform dumping is outside the model.\<close>

definition monitor_action :: "'d dut_ops \<Rightarrow> string \<Rightarrow> ('d, unit) handler \<times> string" where
  "monitor_action ops str =
     (if str = ''help'' then (returns (), monitor_help)
      else if str = ''set remote log on'' then
        (set_state (remote_log_update (\<lambda>_. True)), ''Enabled remote logging to STDOUT.'' @ newline)
      else if str = ''set remote log off'' then
        (set_state (remote_log_update (\<lambda>_. False)), ''Disabled remote logging.'' @ newline)
      else if str = ''set waveform dump on'' then (returns (), ''Enabled waveform dumping.'' @ newline)
      else if str = ''set waveform dump off'' then (returns (), ''Disabled waveform dumping.'' @ newline)
      else if str = ''set register=dut'' then
        (set_state (register_update (\<lambda>_. True)), ''Reading registers directly from DUT.'' @ newline)
      else if str = ''set register=shadow'' then
        (set_state (register_update (\<lambda>_. False)), ''Reading registers from shadow copy.'' @ newline)
      else if str = ''set memory=dut'' then
        (set_state (memory_update (\<lambda>_. True)), ''Reading memory directly from DUT.'' @ newline)
      else if str = ''set memory=shadow'' then
        (set_state (memory_update (\<lambda>_. False)), ''Reading memory from shadow copy.'' @ newline)
      else if str = ''reset assert'' then
        (on_dut (dut_reset_assert ops), ''DUT reset asserted.'' @ newline)
      else if str = ''reset release'' then
        (on_dut (dut_reset_release ops), ''DUT reset released.'' @ newline)
      else (returns (), CHR 0x27 # ''monitor' command was not recognized.'' @ newline))"

definition rsp_query_monitor :: "'d dut_ops \<Rightarrow> string \<Rightarrow> ('d, unit) handler" where
  "rsp_query_monitor ops str =
     (case monitor_action ops str of (act, txt) \<Rightarrow>
        seq act (bnd (rsp_query_monitor_reply txt) (\<lambda>_. returns ())))"

text \<open>
  One feature of the client: a last character plus, minus or question mark is its value, otherwise
  the whole argument is scanned again, in which no blank separates a value.
\<close>

definition gdb_feature :: "string \<Rightarrow> string \<times> string \<Rightarrow> string \<Rightarrow> string \<times> string" where
  "gdb_feature str prev item =
     (let value = (if item = [] then [] else [last item]) in
      if value \<in> {''+'', ''-'', ''?''} then (sv_substr item 0 (int (length item) - 2), value)
      else (let vs = sv_scanf [FStr, FStr] str in (str_at vs 0 (fst prev), str_at vs 1 value)))"

fun gdb_features :: "string \<Rightarrow> string \<times> string \<Rightarrow> string list \<Rightarrow> (string, string) smap \<Rightarrow> (string, string) smap" where
  "gdb_features str prev [] fs = fs"
| "gdb_features str prev (item # items) fs =
     (let kv = gdb_feature str prev item
      in gdb_features str kv items (map_set (fst kv) (snd kv) fs))"

definition stub_features_text :: string where
  "stub_features_text =
     (let str = concat (map (\<lambda>(k, v). if v \<in> {''+'', ''-'', ''?''} then k @ v @ '';''
                                      else k @ ''='' @ v @ '';'') features_stub)
      in sv_substr str 0 (int (length str) - 2))"

definition rsp_query_supported :: "string \<Rightarrow> ('d, unit) handler" where
  "rsp_query_supported str =
     seq (modifies (\<lambda>s. s\<lparr>features_gdb :=
            gdb_features str ([], []) (split str (CHR '';'')) (features_gdb s)\<rparr>))
       (bnd (send_packet stub_features_text) (\<lambda>_. returns ()))"

text \<open>With \<open>multiprocess\<close> off, which the stub never changes, a thread is its number.\<close>

definition sformat_thread :: "int \<Rightarrow> 32 word \<Rightarrow> string" where
  "sformat_thread process thread =
     (if map_find features_stub ''multiprocess'' = Some ''+''
      then CHR ''p'' # format_08h (of_bits (word_of_int process)) @ '','' @ format_08h (of_bits thread)
      else format_nat_x (unat thread))"

definition sscan_thread :: "string \<Rightarrow> 32 word" where
  "sscan_thread str =
     (if map_find features_stub ''multiprocess'' = Some ''+''
      then word_of_nat (num_at (sv_scanf ([FLit (CHR ''p''), FHex None, FLit (CHR '',''), FHex None]) str) 1 0)
      else word_of_nat (num_at (sv_scanf [FHex None] str) 0 0))"

definition thread_list :: "stub_config \<Rightarrow> string" where
  "thread_list cfg =
     (let str = CHR ''m'' # concat (map (\<lambda>i. sformat_thread 1 (word_of_nat (i + 1)) @ '','')
                 [0 ..< length (THREADS cfg)])
      in sv_substr str 0 (int (length str) - 2))"

definition thread_name :: "stub_config \<Rightarrow> 32 word \<Rightarrow> string" where
  "thread_name cfg thr =
     (let i = sint (thr - 1) in
      if 0 \<le> i \<and> nat i < length (THREADS cfg) then THREADS cfg ! nat i else [])"

definition reply :: "string \<Rightarrow> ('d, unit) handler" where
  "reply str = bnd (send_packet str) (\<lambda>_. returns ())"

definition query_cases :: "stub_config \<Rightarrow> 'd dut_ops \<Rightarrow> string \<Rightarrow> ('d, unit) handler" where
  "query_cases cfg ops pkt =
     (let sup = sv_scanf (lit ''qSupported:'' @ [FStr]) pkt;
          mon = sv_scanf (lit ''qRcmd,'' @ [FStr]) pkt;
          inf = sv_scanf (lit ''qThreadExtraInfo,'' @ [FStr]) pkt in
      if sup \<noteq> [] then rsp_query_supported (str_at sup 0 [])
      else if mon \<noteq> [] then rsp_query_monitor ops (rsp_hex2ascii (str_at mon 0 []))
      else if pkt = ''QStartNoAckMode'' \<or> pkt = ''QEnableErrorStrings'' then
        seq (reply ''OK'') (set_state (acknowledge_update (\<lambda>_. False)))
      else if pkt = ''qfThreadInfo'' then reply (thread_list cfg)
      else if pkt = ''qsThreadInfo'' then reply ''l''
      else if inf \<noteq> [] then reply (rsp_ascii2hex (thread_name cfg (sscan_thread (str_at inf 0 []))))
      else if pkt = ''qC'' then reply (''QC'' @ sformat_thread 1 1)
      else if pkt = ''qAttached'' then reply ''1''
      else reply [])"

definition rsp_query_packet :: "stub_config \<Rightarrow> 'd dut_ops \<Rightarrow> ('d, unit) handler" where
  "rsp_query_packet cfg ops = bnd get_packet (query_cases cfg ops)"

text \<open>The actions of \<open>vCont\<close> are scanned and dropped, without a reply.\<close>

definition rsp_verbose_packet :: "('d, unit) handler" where
  "rsp_verbose_packet = bnd get_packet (\<lambda>pkt.
     if pkt = ''vCont?'' then reply ''vCont;c:C;s:S''
     else if sv_scanf (lit ''vCont;'' @ [FStr]) pkt \<noteq> [] then returns ()
     else reply [])"

section \<open>Memory access\<close>

definition range_fmt :: "char \<Rightarrow> sv_fmt list" where
  "range_fmt c = [FLit c, FHex (Some 8), FLit (CHR '',''), FHex (Some 8)]"

definition stub_byte :: "stub_config \<Rightarrow> 'd dut_ops \<Rightarrow> 'd stub \<Rightarrow> 32 word \<Rightarrow> byte" where
  "stub_byte cfg ops s adr =
     (if memory (stub_state s) then sv_dut_mem_read ops (dut s) adr
      else byte_at (shd_mem_read (SHADOW cfg) (shd s) adr 1) 0)"

text \<open>
  The characters of a string are replaced one by one; indices outside the string and characters 0
  have no effect.  The positions are computed with 32 bits and read as an \<open>int\<close>.
\<close>

definition sv_putc :: "string \<Rightarrow> int \<Rightarrow> char \<Rightarrow> string" where
  "sv_putc str i c = (if 0 \<le> i \<and> i < int (length str) \<and> c \<noteq> nul then str[nat i := c] else str)"

fun put_bytes :: "(32 word \<Rightarrow> byte) \<Rightarrow> string \<Rightarrow> nat list \<Rightarrow> string" where
  "put_bytes val pkt [] = pkt"
| "put_bytes val pkt (i # is) =
     (let tmp = format_02x (val (word_of_nat i)) in
      put_bytes val (sv_putc (sv_putc pkt (as_int (word_of_nat (2 * i))) (tmp ! 0))
        (as_int (word_of_nat (2 * i + 1))) (tmp ! 1)) is)"

definition rsp_mem_read :: "stub_config \<Rightarrow> 'd dut_ops \<Rightarrow> ('d, unit) handler" where
  "rsp_mem_read cfg ops = bnd get_packet (\<lambda>pkt.
     let vs = sv_scanf (range_fmt (CHR ''m'')) pkt;
         adr = word_of_nat (num_at vs 0 0); len = word_of_nat (num_at vs 1 0) :: 32 word in
     bnd (gets (\<lambda>s. put_bytes (\<lambda>i. stub_byte cfg ops s (adr + i))
            (replicate (2 * unat len) (CHR ''X'')) [0 ..< unat len])) reply)"

text \<open>
  The loop of a write: \<open>dat\<close> keeps its value where the digits run out.  Both the processor and the
  shadow are written.
\<close>

fun write_bytes :: "stub_config \<Rightarrow> 'd dut_ops \<Rightarrow> string \<Rightarrow> 32 word \<Rightarrow> byte \<Rightarrow> nat list \<Rightarrow> ('d, unit) handler" where
  "write_bytes cfg ops str adr dat [] = returns ()"
| "write_bytes cfg ops str adr dat (i # is) =
     (let vs = sv_scanf [FHex None] (sv_substr str (as_int (word_of_nat (2 * i))) (as_int (word_of_nat (2 * i + 1))));
          dat' = word_of_nat (num_at vs 0 (unat dat)) in
      seq (on_dut (sv_dut_mem_write ops (adr + word_of_nat i) dat'))
     (seq (on_shd (shd_mem_write (SHADOW cfg) (adr + word_of_nat i) [dat']))
     (write_bytes cfg ops str adr dat' is)))"

definition rsp_mem_write :: "stub_config \<Rightarrow> 'd dut_ops \<Rightarrow> ('d, unit) handler" where
  "rsp_mem_write cfg ops = bnd get_packet (\<lambda>pkt.
     let vs = sv_scanf (range_fmt (CHR ''M'') @ [FLit (CHR '':'')]) pkt;
         adr = word_of_nat (num_at vs 0 0); len = word_of_nat (num_at vs 1 0) :: 32 word;
         str = sv_substr pkt (as_int (word_of_nat (length pkt) - 2 * len)) (int (length pkt) - 1) in
     seq (write_bytes cfg ops str adr 0 [0 ..< unat len]) (reply ''OK''))"

text \<open>
  The binary variants, which the dispatcher does not call.  A string of characters 0 is empty, so the
  assignments to its characters have no effect; the data of a write are taken from the position that
  the number of conversions gives.
\<close>

definition rsp_mem_bin_read :: "('d, unit) handler" where
  "rsp_mem_bin_read = bnd get_packet (\<lambda>pkt. reply (sv_string []))"

fun write_bin_bytes :: "stub_config \<Rightarrow> 'd dut_ops \<Rightarrow> string \<Rightarrow> nat \<Rightarrow> 32 word \<Rightarrow> nat list \<Rightarrow> ('d, unit) handler" where
  "write_bin_bytes cfg ops pkt code adr [] = returns ()"
| "write_bin_bytes cfg ops pkt code adr (i # is) =
     (let dat = (if code + i < length pkt then byte_of_char (pkt ! (code + i)) else 0) in
      seq (on_dut (sv_dut_mem_write ops (adr + word_of_nat i) dat))
     (seq (on_shd (shd_mem_write (SHADOW cfg) (adr + word_of_nat i) [dat]))
     (write_bin_bytes cfg ops pkt code adr is)))"

definition rsp_mem_bin_write :: "stub_config \<Rightarrow> 'd dut_ops \<Rightarrow> ('d, unit) handler" where
  "rsp_mem_bin_write cfg ops = bnd get_packet (\<lambda>pkt.
     let vs = sv_scanf (range_fmt (CHR ''X'') @ [FLit (CHR '':'')]) pkt;
         adr = word_of_nat (num_at vs 0 0); len = word_of_nat (num_at vs 1 0) :: 32 word in
     seq (write_bin_bytes cfg ops pkt (length vs) adr [0 ..< unat len]) (reply ''OK''))"

section \<open>Register access\<close>

definition stub_reg :: "stub_config \<Rightarrow> 'd dut_ops \<Rightarrow> 'd stub \<Rightarrow> 32 word \<Rightarrow> logic" where
  "stub_reg cfg ops s idx =
     (if register (stub_state s) then of_bits (dut_reg_read ops (dut s) idx)
      else shd_reg_read (SHADOW cfg) (shd s) idx)"

definition rsp_reg_readall :: "stub_config \<Rightarrow> 'd dut_ops \<Rightarrow> ('d, unit) handler" where
  "rsp_reg_readall cfg ops = bnd get_packet (\<lambda>_.
     bnd (gets (\<lambda>s. concat (map (\<lambda>i. format_08h (swap_logic (stub_reg cfg ops s (word_of_nat i))))
            [0 ..< REGN cfg]))) reply)"

definition write_reg :: "stub_config \<Rightarrow> 'd dut_ops \<Rightarrow> 32 word \<Rightarrow> 32 word \<Rightarrow> ('d, unit) handler" where
  "write_reg cfg ops idx val =
     seq (on_dut (dut_reg_write ops idx (swap_bytes val)))
       (on_shd (shd_reg_write (SHADOW cfg) idx (swap_bytes val)))"

fun write_regs :: "stub_config \<Rightarrow> 'd dut_ops \<Rightarrow> string \<Rightarrow> 32 word \<Rightarrow> nat list \<Rightarrow> ('d, unit) handler" where
  "write_regs cfg ops pkt val [] = returns ()"
| "write_regs cfg ops pkt val (i # is) =
     (let vs = sv_scanf [FHex (Some 8)] (sv_substr pkt (int (8 * i)) (int (8 * i + 7)));
          val' = word_of_nat (num_at vs 0 (unat val)) in
      seq (write_reg cfg ops (word_of_nat i) val') (write_regs cfg ops pkt val' is))"

definition rsp_reg_writeall :: "stub_config \<Rightarrow> 'd dut_ops \<Rightarrow> ('d, unit) handler" where
  "rsp_reg_writeall cfg ops = bnd get_packet (\<lambda>pkt.
     seq (write_regs cfg ops (sv_substr pkt 1 (int (length pkt) - 1)) 0 [0 ..< REGN cfg]) (reply ''OK''))"

text \<open>The reply is appended to the packet that was received.\<close>

definition rsp_reg_readone :: "stub_config \<Rightarrow> 'd dut_ops \<Rightarrow> ('d, unit) handler" where
  "rsp_reg_readone cfg ops = bnd get_packet (\<lambda>pkt.
     let idx = word_of_nat (num_at (sv_scanf [FLit (CHR ''p''), FHex None] pkt) 0 0) in
     bnd (gets (\<lambda>s. pkt @ format_08h (swap_logic (stub_reg cfg ops s idx)))) reply)"

definition rsp_reg_writeone :: "stub_config \<Rightarrow> 'd dut_ops \<Rightarrow> ('d, unit) handler" where
  "rsp_reg_writeone cfg ops = bnd get_packet (\<lambda>pkt.
     let vs = sv_scanf [FLit (CHR ''P''), FHex None, FLit (CHR ''=''), FHex (Some 8)] pkt in
     seq (write_reg cfg ops (word_of_nat (num_at vs 0 0)) (word_of_nat (num_at vs 1 0))) (reply ''OK''))"

section \<open>Breakpoints and watchpoints\<close>

text \<open>The conversion \<open>%c\<close> takes the first character; no reply is sent.\<close>

definition rsp_point :: "('d, unit) handler" where
  "rsp_point = bnd get_packet (\<lambda>pkt.
     let vs = sv_scanf [FHex None, FLit (CHR '',''), FHex (Some 8), FLit (CHR '',''), FHex None] (drop 1 pkt);
         ptype = word_of_nat (num_at vs 0 0); addr = word_of_nat (num_at vs 1 0);
         pkind = word_of_nat (num_at vs 2 0); command = (if pkt = [] then nul else hd pkt) in
     if command = CHR ''z'' then on_shd (\<lambda>sh. snd (point_remove ptype addr pkind sh))
     else if command = CHR ''Z'' then on_shd (\<lambda>sh. snd (point_insert ptype addr pkind sh))
     else returns ())"

section \<open>Steps\<close>

definition step_forward :: "stub_config \<Rightarrow> 'd dut_ops \<Rightarrow> ('d, unit) handler" where
  "step_forward cfg ops s =
     (case rsp_forward_step (SHADOW cfg) (dut_step ops) (dut s, shd s) of
        None \<Rightarrow> Some (Fail (Undefined OutOfBounds), s)
      | Some (d, sh) \<Rightarrow> Some (Val (), s\<lparr>dut := d, shd := sh\<rparr>))"

definition step_backward :: "stub_config \<Rightarrow> ('d, unit) handler" where
  "step_backward cfg s =
     (case rsp_backward_step (SHADOW cfg) (shd s) of
        None \<Rightarrow> Some (Fail (Undefined OutOfBounds), s)
      | Some sh \<Rightarrow> Some (Val (), s\<lparr>shd := sh\<rparr>))"

text \<open>The signal is passed where the reply expects the index of a register.\<close>

definition stop_with_signal :: "('d, unit) handler" where
  "stop_with_signal = bnd (gets (\<lambda>s. s_sig (shd s))) (\<lambda>sig.
     bnd (rsp_stop_reply (scast sig)) (\<lambda>_. returns ()))"

text \<open>The signal that a step or continue packet carries; addresses are scanned and not used.\<close>

definition packet_signal :: "char \<Rightarrow> string \<Rightarrow> ('d, unit) handler" where
  "packet_signal c pkt =
     on_shd (s_sig_update (\<lambda>_. word_of_nat (num_at (sv_scanf [FLit c, FHex None] pkt) 0 0)))"

definition rsp_step :: "stub_config \<Rightarrow> 'd dut_ops \<Rightarrow> ('d, unit) handler" where
  "rsp_step cfg ops = bnd get_packet (\<lambda>pkt.
     seq (if take 1 pkt = ''S'' then packet_signal (CHR ''S'') pkt else returns ())
    (seq (step_forward cfg ops) stop_with_signal))"

section \<open>Session\<close>

definition rsp_extended :: "('d, unit) handler" where
  "rsp_extended = bnd get_packet (\<lambda>_.
     seq (set_state (extended_mode_update (\<lambda>_. True))) (reply ''OK''))"

definition rsp_reset :: "'d dut_ops \<Rightarrow> ('d, unit) handler" where
  "rsp_reset ops = bnd get_packet (\<lambda>_. on_dut (dut_reset_assert ops))"

text \<open>
  The port is cleared with the rest of the state before it is tested, so the branch for TCP is never
  taken (the argument of \<open>socket_tcp_accept\<close> is the number its failure message would print).  The
  simulation stops and is continued by the user in between.
\<close>

definition rsp_detach :: "('d, unit) handler" where
  "rsp_detach = bnd get_packet (\<lambda>_.
     seq (reply ''OK'')
    (seq (set_state (\<lambda>_. STUB_STATE_INIT))
    (bnd (gets (\<lambda>s. socket_port (stub_state s))) (\<lambda>port.
       bnd (if port \<noteq> 0 then socket_tcp_accept 0 else socket_unix_accept) (\<lambda>_. returns ())))))"

definition rsp_kill :: "('d, unit) handler" where
  "rsp_kill = bnd get_packet (\<lambda>_. fails (Exited 0))"

definition rsp_unsupported :: "('d, unit) handler" where
  "rsp_unsupported = bnd get_packet (\<lambda>_. reply [])"

section \<open>The dispatcher and the loops\<close>

text \<open>
  A continue packet runs the processor until a signal; packets that arrive meanwhile are handled by
  the dispatcher, which calls the continue loop again.  The three mutually recursive parts, the
  dispatcher and the two loops, are one partial function over the call that is to be made.
\<close>

datatype stub_call = Packet_call string | Continue_loop | Backward_loop

lemma bnd_mono_both [partial_function_mono]:
  fixes m :: "('x \<Rightarrow> ('b result \<times> 's) option) \<Rightarrow> ('s, 'b) prog"
    and B :: "'b \<Rightarrow> ('x \<Rightarrow> ('b result \<times> 's) option) \<Rightarrow> ('s, 'b) prog"
  assumes m: "\<And>s. option.mono_body (\<lambda>f. m f s)" and B: "\<And>a s. option.mono_body (\<lambda>f. B a f s)"
  shows "option.mono_body (\<lambda>f. bnd (m f) (\<lambda>a. B a f) s)"
proof (rule monotoneI)
  fix f g :: "'x \<Rightarrow> ('b result \<times> 's) option"
  assume fg: "option.le_fun f g"
  have "option_ord (m f s) (m g s)"
    using m fg by (simp add: monotone_def)
  moreover have "option_ord (B a f s) (B a g s)" for a s
    using B fg by (simp add: monotone_def)
  ultimately show "option_ord (bnd (m f) (\<lambda>a. B a f) s) (bnd (m g) (\<lambda>a. B a g) s)"
    unfolding bnd_def flat_ord_def
    by (cases "m f s"; cases "m g s") (force split: result.split)+
qed

lemma if_apply_mono [partial_function_mono]:
  assumes "option.mono_body (\<lambda>f. m f s)" and "option.mono_body (\<lambda>f. n f s)"
  shows "option.mono_body (\<lambda>f. (if b then m f else n f) s)"
  using assms by (cases b) simp_all

lemma case_prod_apply_mono [partial_function_mono]:
  assumes "\<And>a b. option.mono_body (\<lambda>f. m a b f s)"
  shows "option.mono_body (\<lambda>f. (case p of (a, b) \<Rightarrow> m a b f) s)"
  using assms by (cases p) simp

text \<open>The handlers that the dispatcher calls for a command character, but for the loops.\<close>

definition command :: "stub_config \<Rightarrow> 'd dut_ops \<Rightarrow> char \<Rightarrow> ('d, unit) handler" where
  "command cfg ops c =
     (if c = CHR ''m'' then rsp_mem_read cfg ops
      else if c = CHR ''M'' then rsp_mem_write cfg ops
      else if c = CHR ''g'' then rsp_reg_readall cfg ops
      else if c = CHR ''G'' then rsp_reg_writeall cfg ops
      else if c = CHR ''p'' then rsp_reg_readone cfg ops
      else if c = CHR ''P'' then rsp_reg_writeone cfg ops
      else if c = CHR ''s'' \<or> c = CHR ''S'' then rsp_step cfg ops
      else if c = CHR ''?'' then seq rsp_signal (returns ())
      else if c = CHR ''Q'' \<or> c = CHR ''q'' then rsp_query_packet cfg ops
      else if c = CHR ''v'' then rsp_verbose_packet
      else if c = CHR ''z'' \<or> c = CHR ''Z'' then rsp_point
      else if c = CHR ''!'' then rsp_extended
      else if c = CHR ''R'' then rsp_reset ops
      else if c = CHR ''D'' then rsp_detach
      else if c = CHR ''k'' then rsp_kill
      else rsp_unsupported)"

text \<open>
  Between two steps of a loop the stub looks for a character without waiting: Ctrl+C sets a signal,
  other characters go to the dispatcher.
\<close>

definition peek_char :: "('d, string) handler" where
  "peek_char = bnd (socket_recv [nul] (MSG_PEEK + MSG_DONTWAIT)) (\<lambda>(status, ch).
     returns (if status \<noteq> 1 then [] else ch))"

definition peek_command :: "('d, char) handler" where
  "peek_command =
     bnd (gets bf) (\<lambda>b.
     bnd (socket_recv b MSG_PEEK) (\<lambda>(status, b').
     seq (modifies (bf_update (\<lambda>_. b'))) (returns (b' ! 1))))"

definition current_signal :: "('d, byte) handler" where
  "current_signal = gets (\<lambda>s. s_sig (shd s))"

definition continue_signal :: "string \<Rightarrow> ('d, unit) handler" where
  "continue_signal pkt =
     (if take 1 pkt = ''c'' then on_shd (s_sig_update (\<lambda>_. SIGNONE))
      else if take 1 pkt = ''C'' then packet_signal (CHR ''C'') pkt
      else returns ())"

definition stub_body ::
    "stub_config \<Rightarrow> 'd dut_ops \<Rightarrow> (stub_call \<Rightarrow> ('d, unit) handler) \<Rightarrow> stub_call \<Rightarrow> ('d, unit) handler" where
  "stub_body cfg ops exec call = (case call of
     Continue_loop \<Rightarrow>
       bnd (step_forward cfg ops) (\<lambda>_.
       bnd peek_char (\<lambda>ch.
       bnd (if ch = [] then returns ()
            else if ch = [CHR 0x03] then on_shd (s_sig_update (\<lambda>_. SIGINT))
            else exec (Packet_call ch)) (\<lambda>_.
       bnd current_signal (\<lambda>sig. if sig = SIGNONE then exec Continue_loop else returns ()))))
   | Backward_loop \<Rightarrow>
       bnd (seq (on_shd (s_sig_update (\<lambda>_. SIGNONE))) (step_backward cfg)) (\<lambda>_.
       bnd peek_char (\<lambda>ch.
       bnd (if ch = [] then returns ()
            else if ch = [CHR 0x03] then on_shd (s_sig_update (\<lambda>_. SIGINT))
            else exec (Packet_call ch)) (\<lambda>_.
       bnd current_signal (\<lambda>sig. if sig = SIGNONE then exec Backward_loop else returns ()))))
   | Packet_call ch \<Rightarrow>
       (if ch = ''+'' then bnd (socket_recv ch 0) (\<lambda>_. returns ())
        else if ch = ''$'' then
          bnd peek_command (\<lambda>c.
            if c = CHR ''c'' \<or> c = CHR ''C'' then
              bnd get_packet (\<lambda>pkt.
              bnd (continue_signal pkt) (\<lambda>_.
              bnd (exec Continue_loop) (\<lambda>_. stop_with_signal)))
            else if c = CHR ''b'' then
              bnd get_packet (\<lambda>pkt.
              bnd (if take 2 pkt = ''bs'' then step_backward cfg
                   else if take 2 pkt = ''bc'' then exec Backward_loop
                   else returns ()) (\<lambda>_. stop_with_signal))
            else command cfg ops c)
        else returns ()))"

lemma stub_body_mono [partial_function_mono]:
  assumes "\<And>c s. option.mono_body (\<lambda>f. exec f c s)"
  shows "option.mono_body (\<lambda>f. stub_body cfg ops (exec f) call s)"
  using assms
  by (cases call) (auto simp: stub_body_def intro!: partial_function_mono bnd_mono bnd_mono_both if_apply_mono)

partial_function (option) stub_exec ::
  "stub_config \<Rightarrow> 'd dut_ops \<Rightarrow> stub_call \<Rightarrow> 'd stub \<Rightarrow> (unit result \<times> 'd stub) option"
where
  "stub_exec cfg ops call s = stub_body cfg ops (stub_exec cfg ops) call s"

definition rsp_packet :: "stub_config \<Rightarrow> 'd dut_ops \<Rightarrow> string \<Rightarrow> ('d, unit) handler" where
  "rsp_packet cfg ops ch = stub_exec cfg ops (Packet_call ch)"

text \<open>The state machine; the character of the last successful call stays in its static array.\<close>

partial_function (option) gdb_fsm ::
  "stub_config \<Rightarrow> 'd dut_ops \<Rightarrow> string \<Rightarrow> 'd stub \<Rightarrow> (unit result \<times> 'd stub) option"
where
  "gdb_fsm cfg ops ch s =
     bnd (socket_recv ch MSG_PEEK) (\<lambda>(status, ch').
     bnd (rsp_packet cfg ops ch') (\<lambda>_. gdb_fsm cfg ops ch')) s"

section \<open>Construction\<close>

text \<open>
  \<open>$sscanf(socket, ":%d", port)\<close>: the number of conversions, or -1 (\<open>EOF\<close>) when the input ends before
  the conversion, and the number.  The signs and underscores that \<open>%d\<close> allows are part of the model;
  a 4-state digit stands for an unknown number, which a 2-state variable holds as 0.
\<close>

definition decimal :: "string \<Rightarrow> nat" where
  "decimal ds = foldl (\<lambda>a c. if c = CHR ''_'' then a else 10 * a + (of_char c - 48)) 0 ds"

definition is_decimal :: "char \<Rightarrow> bool" where
  "is_decimal c \<longleftrightarrow> c = CHR ''_'' \<or> (48 \<le> (of_char c :: nat) \<and> (of_char c :: nat) \<le> 57)"

definition scan_port :: "string \<Rightarrow> int \<times> int" where
  "scan_port str = (case str of
      [] \<Rightarrow> (- 1, 0)
    | c # rest \<Rightarrow>
        if c \<noteq> CHR '':'' then (0, 0)
        else let num = dropWhile is_space rest in
          if num = [] then (- 1, 0)
          else if hd num \<in> set ''xXzZ?'' then (1, 0)
          else let neg = (hd num = CHR ''-'');
                   ds = takeWhile is_decimal (if hd num \<in> set ''+-'' then tl num else num) in
            if ds = [] then (0, 0)
            else (1, if neg then - int (decimal ds) else int (decimal ds)))"

text \<open>
  The constructor.  The descriptors that the library functions return are not looked at; any result of
  \<open>$sscanf\<close> but 0 selects TCP.
\<close>

definition stub_new :: "os_setup \<Rightarrow> int \<Rightarrow> stub_config \<Rightarrow> string \<Rightarrow> ('d, unit) handler" where
  "stub_new os e cfg socket =
     (let (code, port) = scan_port socket in
      seq (set_state (\<lambda>_. if code = 1 then STUB_STATE_INIT\<lparr>socket_port := word_of_int port\<rparr> else STUB_STATE_INIT))
     (seq (if code \<noteq> 0
           then bnd (gets (\<lambda>s. socket_port (stub_state s))) (\<lambda>p. seq (socket_tcp_listen os p) (socket_tcp_accept e))
           else seq (socket_unix_listen os socket) socket_unix_accept)
     (on_shd (\<lambda>_. shd_new (SHADOW cfg)))))"

end
