(* ===== verification/Sv_Handlers.thy ===== *)
theory Sv_Handlers
  imports Sv_Stub
begin

text \<open>
  What the SystemVerilog stub answers: one packet from the wire to the wire, memory and registers
  written and read back, the reply of \<open>p\<close>, breakpoints; and a small stub on which the properties are
  evaluated.
\<close>

section \<open>One packet from the wire to the wire\<close>

text \<open>
  A packet is waiting in one piece, and behind it, in acknowledge mode, the acknowledgement of the
  reply; the socket takes short writes.
\<close>

definition waiting :: "string \<Rightarrow> rx_event list \<Rightarrow> 'd stub \<Rightarrow> bool" where
  "waiting pkt q s \<longleftrightarrow>
     rxq s = Chunk (format_packet pkt) # q \<and> nul \<notin> set pkt \<and> length pkt + 4 \<le> buffer_size \<and> tx_wide s"

definition acks :: "'d stub \<Rightarrow> bool" where
  "acks s = acknowledge (stub_state s)"

definition with_ack :: "'d stub \<Rightarrow> rx_event list \<Rightarrow> rx_event list" where
  "with_ack s q = (if acks s then Chunk ''+'' # q else q)"

text \<open>The state after a packet was taken and after a reply was sent.\<close>

definition taken :: "rx_event list \<Rightarrow> 'd stub \<Rightarrow> 'd stub" where
  "taken q s = s\<lparr>rxq := q, sent := sent s @ (if acks s then ''+'' else []),
     txq := drop (if acks s then 1 else 0) (txq s)\<rparr>"

definition replied_with :: "string \<Rightarrow> rx_event list \<Rightarrow> 'd stub \<Rightarrow> 'd stub" where
  "replied_with str q s = s\<lparr>rxq := q, sent := sent s @ format_packet str,
     txq := drop (length str + 3) (txq s)\<rparr>"

lemma taken_simps [simp]:
  "stub_state (taken q s) = stub_state s" "shd (taken q s) = shd s" "dut (taken q s) = dut s"
  "features_gdb (taken q s) = features_gdb s" "bf (taken q s) = bf s" "rxq (taken q s) = q"
  "sent (taken q s) = sent s @ (if acks s then ''+'' else [])" "acks (taken q s) = acks s"
  by (simp_all add: taken_def acks_def)

lemma replied_with_simps [simp]:
  "stub_state (replied_with str q s) = stub_state s" "shd (replied_with str q s) = shd s"
  "dut (replied_with str q s) = dut s" "features_gdb (replied_with str q s) = features_gdb s"
  "bf (replied_with str q s) = bf s" "rxq (replied_with str q s) = q"
  "sent (replied_with str q s) = sent s @ format_packet str" "acks (replied_with str q s) = acks s"
  by (simp_all add: replied_with_def acks_def)

lemma tx_wide_drop: "tx_wide s \<Longrightarrow> txq t = drop n (txq s) \<Longrightarrow> tx_wide t"
  by (auto simp: tx_wide_def dest: in_set_dropD)

lemma tx_wide_taken: "tx_wide s \<Longrightarrow> tx_wide (taken q s)"
  by (rule tx_wide_drop [of s]) (simp_all add: taken_def)

lemma get_packet_waiting:
  assumes "waiting pkt q s"
  shows "get_packet s = Some (Val pkt, taken q s)"
  using get_formatted [of pkt s q "acks s"] assms
  by (simp add: get_packet_def waiting_def acks_def taken_def drop_Suc)

lemma get_packet_bnd: "waiting pkt q s \<Longrightarrow> bnd get_packet f s = f pkt (taken q s)"
  by (simp add: bnd_def get_packet_waiting)

lemma reply_ready:
  assumes "tx_wide s" and "rxq s = with_ack s q"
  shows "reply str s = Some (Val (), replied_with str q s)"
proof -
  have one: "int_of_ssize 1 = 1"
    using int_of_ssize_small [of 1] by simp
  have "acks s \<Longrightarrow> socket_recv [nul] 0 (s\<lparr>sent := w, txq := x\<rparr>) =
      Some (Val (1, ''+''), s\<lparr>rxq := q, sent := w, txq := x\<rparr>)" for w x
    using assms(2) by (simp add: socket_recv_def os_recv_def bnd_def Let_def one overwrite_0 with_ack_def)
  moreover have "send_packet str s = rsp_send_packet str (acks s) s"
    by (simp add: send_packet_def acks_def bnd_def)
  ultimately show ?thesis
    using assms(2) rsp_send_packet_wide [OF assms(1), of str "acks s"]
    by (cases "acks s") (simp_all add: reply_def bnd_def replied_with_def with_ack_def)
qed

lemma taken_then_reply:
  assumes "waiting pkt (with_ack s q) s" and "stub_state t = stub_state s" and "rxq t = with_ack s q"
    and "txq t = txq (taken q s)"
  shows "reply str t = Some (Val (), replied_with str q t)"
proof (rule reply_ready)
  show "tx_wide t"
    using assms(1,4) tx_wide_taken [of s q] by (simp add: waiting_def tx_wide_def)
  show "rxq t = with_ack t q"
    using assms(2,3) by (simp add: with_ack_def acks_def)
qed

lemma taken_reply:
  assumes "waiting pkt (with_ack s q) s"
  shows "reply str (taken (with_ack s q) s) = Some (Val (), replied_with str q (taken (with_ack s q) s))"
  using assms by (rule taken_then_reply) (simp_all add: taken_def)

text \<open>What a client gets for a packet: the acknowledgement and one reply.\<close>

definition answered :: "'d stub \<Rightarrow> string \<Rightarrow> rx_event list \<Rightarrow> 'd stub \<Rightarrow> bool" where
  "answered s str q s' \<longleftrightarrow> rxq s' = q \<and>
     sent s' = sent s @ (if acks s then ''+'' else []) @ format_packet str"

section \<open>The dispatcher\<close>

lemma socket_recv_piece:
  assumes "rxq s = Chunk x # q" and "length b \<le> length x" and "length b < 2 ^ 31"
  shows "socket_recv b MSG_PEEK s = Some (Val (int (length b), take (length b) x), s)"
proof -
  have "int_of_ssize (int (length b)) = int (length b)"
    using assms(3) int_of_ssize_small [of "int (length b)"] by simp
  moreover have "overwrite 0 (take (length b) x) b = take (length b) x"
    using assms(2) by (simp add: overwrite_0)
  ultimately show ?thesis
    using assms by (simp add: socket_recv_def os_recv_def bnd_def Let_def MSG_PEEK_def bit_iff_odd min_absorb1)
qed

lemma peek_command_waiting:
  assumes "waiting (c # pkt) q s" and "length (bf s) = 2"
  shows "peek_command s = Some (Val c, s\<lparr>bf := [CHR ''$'', c]\<rparr>)"
proof -
  have "rxq s = Chunk (CHR ''$'' # c # tl (tl (format_packet (c # pkt)))) # q"
    using assms(1) by (simp add: waiting_def format_packet_def)
  from socket_recv_piece [OF this, of "bf s"] assms(2)
  have "socket_recv (bf s) MSG_PEEK s = Some (Val (2, [CHR ''$'', c]), s)"
    by simp
  then show ?thesis
    by (simp add: peek_command_def bnd_def)
qed

text \<open>The character that the state machine has seen is the start of a packet.\<close>

lemma rsp_packet_dispatch:
  assumes "waiting (c # pkt) q s" and "length (bf s) = 2"
  shows "rsp_packet cfg ops ''$'' s =
    (if c = CHR ''c'' \<or> c = CHR ''C'' then
       bnd get_packet (\<lambda>pkt. bnd (continue_signal pkt) (\<lambda>_.
         bnd (stub_exec cfg ops Continue_loop) (\<lambda>_. stop_with_signal))) (s\<lparr>bf := [CHR ''$'', c]\<rparr>)
     else if c = CHR ''b'' then
       bnd get_packet (\<lambda>pkt. bnd (if take 2 pkt = ''bs'' then step_backward cfg
           else if take 2 pkt = ''bc'' then stub_exec cfg ops Backward_loop
           else returns ()) (\<lambda>_. stop_with_signal)) (s\<lparr>bf := [CHR ''$'', c]\<rparr>)
     else command cfg ops c (s\<lparr>bf := [CHR ''$'', c]\<rparr>))"
  unfolding rsp_packet_def
  by (subst stub_exec.simps) (simp add: stub_body_def bnd_def [of peek_command] peek_command_waiting [OF assms])

lemma waiting_bf: "waiting pkt q s \<Longrightarrow> waiting pkt q (s\<lparr>bf := b\<rparr>)"
  by (simp add: waiting_def tx_wide_def)

lemma stop_with_signal_ready:
  assumes "tx_wide s" and "rxq s = with_ack s q"
  shows "stop_with_signal s =
    Some (Val (), replied_with (stop_text (shd s) (scast (s_sig (shd s)))) q s)"
  using reply_ready [OF assms, of "stop_text (shd s) (scast (s_sig (shd s)))"]
  by (simp add: stop_with_signal_def rsp_stop_reply_def reply_def bnd_def)

section \<open>Memory\<close>

lemma sv_scan_digits:
  assumes "\<forall>c \<in> set ds. is_hex c" and "ds \<noteq> []" and "length ds \<le> n"
    and "r = [] \<or> \<not> is_sv_hex (hd r)"
  shows "sv_scan_h (Some n) (ds @ r) = Some (hex_number ds, r)"
proof -
  have "\<not> is_space (hd ds)"
    using assms(1,2) hex_not_special(1) by (cases ds) auto
  then have space: "dropWhile is_space (ds @ r) = ds @ r"
    using assms(2) by (cases ds) auto
  have "takeWhile is_sv_hex (take n (ds @ r)) = ds"
    using assms by (cases r) (auto simp: takeWhile_append is_sv_hex_def take_Cons' )
  then show ?thesis
    using assms(2) space by (simp add: sv_scan_h_def Let_def sv_hex_number_eq [OF assms(1)])
qed

definition digits8 :: "string \<Rightarrow> bool" where
  "digits8 ds \<longleftrightarrow> (\<forall>c \<in> set ds. is_hex c) \<and> ds \<noteq> [] \<and> length ds \<le> 8"

definition hex_text :: "byte list \<Rightarrow> string" where
  "hex_text bs = concat (map format_02x bs)"

lemma not_sv_hex [simp]: "\<not> is_sv_hex (CHR '','')" "\<not> is_sv_hex (CHR '':'')" "\<not> is_sv_hex (CHR ''='')"
  by (simp_all add: is_sv_hex_def)

lemma sv_scan_range:
  assumes "digits8 da" and "digits8 dl" and "r = [] \<or> \<not> is_sv_hex (hd r)"
  shows "sv_scanf (range_fmt c @ fs) (c # da @ CHR '','' # dl @ r) =
    Num (hex_number da) # Num (hex_number dl) # sv_scanf fs r"
  using assms sv_scan_digits [of da 8 "CHR '','' # dl @ r"] sv_scan_digits [of dl 8 r]
  by (simp add: range_fmt_def digits8_def)

lemma length_hex_text [simp]: "length (hex_text bs) = 2 * length bs"
  by (induction bs) (simp_all add: hex_text_def)

lemma hex_text_nth:
  "i < length bs \<Longrightarrow> take 2 (drop (2 * i) (hex_text bs)) = format_02x (bs ! i)"
proof (induction bs arbitrary: i)
  case (Cons b bs)
  then show ?case
    by (cases i) (simp_all add: hex_text_def)
qed simp

lemma scan_byte: "sv_scanf [FHex None] (format_02x b) = [Num (unat b)]"
proof -
  have hex: "\<forall>c \<in> set (format_02x b). is_hex c" and "format_02x b \<noteq> []"
    by (blast intro: set_format_02x) (simp add: format_02x_def)
  then have "\<not> is_space (hd (format_02x b))"
    using hex_not_special(1) by (simp add: format_02x_def)
  then have "dropWhile is_space (format_02x b) = format_02x b"
    by (simp add: format_02x_def)
  moreover have "takeWhile is_sv_hex (format_02x b) = format_02x b"
    using hex by (subst takeWhile_eq_all_conv) (simp add: is_sv_hex_def)
  ultimately have "sv_scan_h None (format_02x b) = Some (unat b, [])"
    using \<open>format_02x b \<noteq> []\<close>
    by (simp add: sv_scan_h_def Let_def sv_hex_number_eq [OF hex] del: takeWhile_eq_all_conv)
  then show ?thesis by simp
qed

text \<open>The effect of the loop of a write on the shadow and on the processor.\<close>

definition shd_writes :: "sv_config \<Rightarrow> 32 word \<Rightarrow> byte list \<Rightarrow> nat list \<Rightarrow> gdb_shadow \<Rightarrow> gdb_shadow" where
  "shd_writes cfg adr bs is = fold (\<lambda>i. shd_mem_write cfg (adr + word_of_nat i) [bs ! i]) is"

definition dut_writes :: "'d dut_ops \<Rightarrow> 32 word \<Rightarrow> byte list \<Rightarrow> nat list \<Rightarrow> 'd \<Rightarrow> 'd" where
  "dut_writes ops adr bs is = fold (\<lambda>i. sv_dut_mem_write ops (adr + word_of_nat i) (bs ! i)) is"

lemma as_int_small: "n < 2 ^ 31 \<Longrightarrow> as_int (word_of_nat n) = int n"
  using int_of_ssize_small [of "int n"] by (simp add: as_int_def int_of_ssize_def)

lemma write_bytes_text:
  assumes "\<forall>i \<in> set is. i < length bs" and "length bs < 2 ^ 30"
  shows "write_bytes cfg ops (hex_text bs) adr dat is s = Some (Val (),
    s\<lparr>dut := dut_writes ops adr bs is (dut s), shd := shd_writes (SHADOW cfg) adr bs is (shd s)\<rparr>)"
  using assms
proof (induction "is" arbitrary: dat s)
  case Nil
  then show ?case by (simp add: dut_writes_def shd_writes_def)
next
  case (Cons i "is")
  then have i: "i < length bs" by simp
  then have small: "as_int (word_of_nat (2 * i)) = int (2 * i)" "as_int (word_of_nat (2 * i + 1)) = int (2 * i + 1)"
    using Cons.prems(2) by (intro as_int_small; simp)+
  have "sv_substr (hex_text bs) (int (2 * i)) (int (2 * i + 1)) = format_02x (bs ! i)"
    using i hex_text_nth [OF i] by (simp add: sv_substr_def nat_mult_distrib)
  then have dat: "sv_scanf [FHex None] (sv_substr (hex_text bs) (as_int (word_of_nat (2 * i)))
      (as_int (word_of_nat (2 * i + 1)))) = [Num (unat (bs ! i))]"
    unfolding small by (simp only: scan_byte)
  have val: "word_of_nat (num_at [Num (unat (bs ! i))] 0 (unat dat)) = bs ! i"
    by (simp add: num_at_def)
  show ?case
    unfolding write_bytes.simps Let_def dat val
    using Cons by (simp add: on_dut_def on_shd_def dut_writes_def shd_writes_def)
qed

subsection \<open>A byte of memory\<close>

definition a_byte :: "sv_config \<Rightarrow> arch \<Rightarrow> 32 word \<Rightarrow> byte" where
  "a_byte cfg a x = byte_at (a_read cfg a x 1) 0"

lemma offset_inject:
  "region_offset cfg blk x = region_offset cfg blk y \<longleftrightarrow> x = y"
  by (simp add: region_offset_def word_unat_eq_iff [symmetric])

lemma a_byte_write: "a_byte cfg (a_write cfg y [b] a) x = (if x = y then b else a_byte cfg a x)"
proof (cases "region_of cfg x")
  case None
  then show ?thesis
    by (auto simp: a_byte_def a_read_def a_write_def byte_at_def split: option.split)
next
  case (Some blk)
  then show ?thesis
    using offset_inject [of cfg blk x y]
    by (auto simp: a_byte_def a_read_def a_write_def byte_at_def patch_def split: option.split)
qed

lemma range_image:
  fixes x :: "32 word"
  assumes "n < 2 ^ 32"
  shows "x \<in> word_of_nat ` set [0 ..< n] \<longleftrightarrow> unat x < n"
proof
  assume "x \<in> word_of_nat ` set [0 ..< n]"
  then obtain i where "x = word_of_nat i" "i < n" by auto
  with assms show "unat x < n" by (simp add: word_of_nat_length)
next
  assume "unat x < n"
  then show "x \<in> word_of_nat ` set [0 ..< n]"
    by (intro image_eqI [of _ _ "unat x"]) simp_all
qed

text \<open>
  What the loop of a write relies on: a memory of single bytes, in which a write to a mapped address
  changes that byte and no other.
\<close>

locale byte_memory =
  fixes rd :: "'m \<Rightarrow> 32 word \<Rightarrow> byte" and wr :: "32 word \<Rightarrow> byte \<Rightarrow> 'm \<Rightarrow> 'm"
    and ok :: "'m \<Rightarrow> bool" and mapped :: "32 word \<Rightarrow> bool"
  assumes rd_wr: "ok m \<Longrightarrow> mapped y \<Longrightarrow> rd (wr y b m) x = (if x = y then b else rd m x)"
    and ok_wr: "ok m \<Longrightarrow> ok (wr y b m)"
begin

lemma ok_writes: "ok m \<Longrightarrow> ok (fold (\<lambda>i. wr (adr + word_of_nat i) (bs ! i)) is m)"
  by (induction "is" arbitrary: m) (simp_all add: ok_wr)

lemma rd_writes:
  assumes "ok m" and "distinct is" and "\<forall>i \<in> set is. i < 2 ^ 32 \<and> mapped (adr + word_of_nat i)"
  shows "rd (fold (\<lambda>i. wr (adr + word_of_nat i) (bs ! i)) is m) x =
    (if x - adr \<in> word_of_nat ` set is then bs ! unat (x - adr) else rd m x)"
  using assms
proof (induction "is" arbitrary: m)
  case (Cons i "is")
  have unat_i: "unat (word_of_nat i :: 32 word) = i"
    using Cons.prems(3) by (intro word_of_nat_length) simp
  let ?m = "wr (adr + word_of_nat i) (bs ! i) m"
  have first: "rd ?m x = (if x - adr = word_of_nat i then bs ! i else rd m x)"
    using Cons.prems(1,3) by (simp add: rd_wr diff_eq_eq add.commute)
  have rest: "rd (fold (\<lambda>i. wr (adr + word_of_nat i) (bs ! i)) is ?m) x =
      (if x - adr \<in> word_of_nat ` set is then bs ! unat (x - adr) else rd ?m x)"
    using Cons.prems by (intro Cons.IH) (simp_all add: ok_wr)
  show ?case
    using unat_i first rest by (cases "x - adr = word_of_nat i") (simp_all only: fold_simps, simp_all)
qed simp

lemma rd_block:
  assumes "ok m" and "length bs < 2 ^ 32" and "\<forall>i < length bs. mapped (adr + word_of_nat i)"
  shows "rd (fold (\<lambda>i. wr (adr + word_of_nat i) (bs ! i)) [0 ..< length bs] m) x =
    (if unat (x - adr) < length bs then bs ! unat (x - adr) else rd m x)"
  using assms by (subst rd_writes) (simp_all add: range_image [OF assms(2), simplified])

end

interpretation shadow_bytes: byte_memory "\<lambda>sh. a_byte cfg (view sh)" "\<lambda>y b. shd_mem_write cfg y [b]" "shd_wf cfg" "\<lambda>_. True"
  by unfold_locales (simp_all add: view_mem_write a_byte_write shd_wf_mem_write)

lemma shd_wf_writes: "shd_wf cfg sh \<Longrightarrow> shd_wf cfg (shd_writes cfg adr bs is sh)"
  unfolding shd_writes_def by (rule shadow_bytes.ok_writes)

lemma stub_byte_shadow:
  assumes "shd_wf (SHADOW cfg) (shd s)" and "\<not> memory (stub_state s)"
  shows "stub_byte cfg ops s x = a_byte (SHADOW cfg) (view (shd s)) x"
  using assms by (simp add: stub_byte_def a_byte_def view_mem_read)

subsection \<open>The handlers\<close>

definition range_packet :: "char \<Rightarrow> string \<Rightarrow> string \<Rightarrow> string \<Rightarrow> string" where
  "range_packet c da dl r = c # da @ CHR '','' # dl @ r"

lemma sv_putc_append:
  "c \<noteq> nul \<Longrightarrow> j = int (length xs) \<Longrightarrow> sv_putc (xs @ x # ys) j c = xs @ c # ys"
  by (simp add: sv_putc_def)

lemma format_02x_chars:
  "format_02x b ! 0 \<noteq> nul" "format_02x b ! 1 \<noteq> nul" "[format_02x b ! 0, format_02x b ! 1] = format_02x b"
proof -
  have len: "length (format_02x b) = 2"
    by (simp add: format_02x_def)
  then have "c \<in> set (format_02x b) \<Longrightarrow> c \<noteq> nul" for c
    using set_format_02x [of c b] hex_not_special(6) by blast
  with len show "format_02x b ! 0 \<noteq> nul" "format_02x b ! 1 \<noteq> nul"
    by (metis nth_mem zero_less_numeral one_less_numeral_iff semiring_norm(76))+
  show "[format_02x b ! 0, format_02x b ! 1] = format_02x b"
    by (simp add: format_02x_def)
qed

lemma hex_text_append: "hex_text (bs @ cs) = hex_text bs @ hex_text cs"
  by (simp add: hex_text_def)

lemma put_bytes_append:
  "length bs + m < 2 ^ 30 \<Longrightarrow> put_bytes val (hex_text bs @ replicate (2 * m) c) [length bs ..< length bs + m] =
    hex_text (bs @ map (\<lambda>i. val (word_of_nat i)) [length bs ..< length bs + m])"
proof (induction m arbitrary: bs)
  case (Suc m)
  let ?k = "length bs"
  let ?v = "val (word_of_nat ?k)"
  have pos: "as_int (word_of_nat (2 * ?k)) = int (length (hex_text bs))"
    "as_int (word_of_nat (2 * ?k + 1)) = int (length (hex_text bs @ [format_02x ?v ! 0]))"
    using Suc.prems by (simp_all add: as_int_small del: of_nat_mult of_nat_Suc)
  have "sv_putc (sv_putc (hex_text bs @ c # c # replicate (2 * m) c) (as_int (word_of_nat (2 * ?k))) (format_02x ?v ! 0))
      (as_int (word_of_nat (2 * ?k + 1))) (format_02x ?v ! 1) =
      hex_text bs @ [format_02x ?v ! 0, format_02x ?v ! 1] @ replicate (2 * m) c"
    unfolding sv_putc_append [OF format_02x_chars(1) pos(1)]
    using sv_putc_append [OF format_02x_chars(2) pos(2), of c "replicate (2 * m) c"] by simp
  also have "\<dots> = hex_text (bs @ [?v]) @ replicate (2 * m) c"
    by (simp only: format_02x_chars(3) hex_text_append append_assoc) (simp add: hex_text_def)
  finally have put: "put_bytes val (hex_text bs @ replicate (2 * Suc m) c) (?k # [Suc ?k ..< Suc ?k + m]) =
      put_bytes val (hex_text (bs @ [?v]) @ replicate (2 * m) c) [length (bs @ [?v]) ..< length (bs @ [?v]) + m]"
    by (simp add: Let_def)
  have "[?k ..< ?k + Suc m] = ?k # [Suc ?k ..< Suc ?k + m]"
    by (simp add: upt_conv_Cons)
  with put Suc.IH [of "bs @ [?v]"] Suc.prems show ?case
    by simp
qed simp

lemma put_bytes_text:
  "n < 2 ^ 30 \<Longrightarrow> put_bytes val (replicate (2 * n) c) [0 ..< n] = hex_text (map (\<lambda>i. val (word_of_nat i)) [0 ..< n])"
  using put_bytes_append [of "[]" n] by (simp add: hex_text_def)

lemma rsp_mem_read_reply:
  assumes "waiting (range_packet (CHR ''m'') da dl []) (with_ack s q) s" and "digits8 da" and "digits8 dl"
    and "hex_number dl < 2 ^ 30"
  shows "rsp_mem_read cfg ops s = Some (Val (), replied_with
    (hex_text (map (\<lambda>i. stub_byte cfg ops s (word_of_nat (hex_number da) + word_of_nat i)) [0 ..< hex_number dl]))
    q (taken (with_ack s q) s))"
proof -
  let ?s = "taken (with_ack s q) s"
  have vs: "sv_scanf (range_fmt (CHR ''m'')) (range_packet (CHR ''m'') da dl []) =
      [Num (hex_number da), Num (hex_number dl)]"
    using sv_scan_range [OF assms(2,3), of "[]" "CHR ''m''" "[]"] by (simp add: range_packet_def)
  have same: "stub_byte cfg ops ?s = stub_byte cfg ops s"
    by (rule ext) (simp add: stub_byte_def)
  have len: "unat (word_of_nat (hex_number dl) :: 32 word) = hex_number dl"
    using assms(4) by (intro word_of_nat_length) simp
  have "reply str ?s = Some (Val (), replied_with str q ?s)" for str
    using assms(1) by (rule taken_reply)
  then show ?thesis
    unfolding rsp_mem_read_def
    by (simp add: get_packet_bnd [OF assms(1)] vs num_at_def Let_def len same
        put_bytes_text [OF assms(4)])
qed

lemma rsp_mem_read_bytes:
  assumes "waiting (range_packet (CHR ''m'') da dl []) (with_ack s q) s" and "digits8 da" and "digits8 dl"
    and "hex_number dl = length bs" and "length bs < 2 ^ 30"
    and bytes: "\<And>i x. i < length bs \<Longrightarrow> x = word_of_nat (hex_number da) + word_of_nat i \<Longrightarrow>
      unat (x - word_of_nat (hex_number da)) = i \<Longrightarrow> stub_byte cfg ops s x = bs ! i"
  shows "\<exists>s'. rsp_mem_read cfg ops s = Some (Val (), s') \<and> answered s (hex_text bs) q s' \<and> shd s' = shd s"
proof -
  have "stub_byte cfg ops s (word_of_nat (hex_number da) + word_of_nat i) = bs ! i" if "i < length bs" for i
    using that assms(5) by (intro bytes) (simp_all add: word_of_nat_length)
  then have "map (\<lambda>i. stub_byte cfg ops s (word_of_nat (hex_number da) + word_of_nat i)) [0 ..< hex_number dl] = bs"
    using assms(4) by (intro nth_equalityI) simp_all
  with rsp_mem_read_reply [OF assms(1-3), of cfg ops] assms(4,5) show ?thesis
    by (simp add: answered_def)
qed

lemma sv_substr_suffix: "sv_substr (a @ b) (int (length a)) (int (length (a @ b)) - 1) = b"
  by (auto simp: sv_substr_def)

lemma rsp_mem_write_apply:
  assumes "waiting (range_packet (CHR ''M'') da dl (CHR '':'' # hex_text bs)) (with_ack s q) s"
    and "digits8 da" and "digits8 dl" and "hex_number dl = length bs"
  shows "rsp_mem_write cfg ops s = Some (Val (), replied_with ''OK'' q ((taken (with_ack s q) s)
    \<lparr>dut := dut_writes ops (word_of_nat (hex_number da)) bs [0 ..< length bs] (dut s),
     shd := shd_writes (SHADOW cfg) (word_of_nat (hex_number da)) bs [0 ..< length bs] (shd s)\<rparr>))"
proof -
  let ?s = "taken (with_ack s q) s"
  let ?pkt = "range_packet (CHR ''M'') da dl (CHR '':'' # hex_text bs)"
  let ?head = "range_packet (CHR ''M'') da dl '':''"
  have pkt: "?pkt = ?head @ hex_text bs"
    by (simp add: range_packet_def)
  have size: "length ?pkt + 4 \<le> buffer_size" and fits: "length ?pkt = length ?head + 2 * length bs"
    using assms(1) by (simp_all add: waiting_def range_packet_def)
  have "as_int (word_of_nat (length ?pkt) - 2 * word_of_nat (length bs)) = as_int (word_of_nat (length ?head))"
    unfolding fits by (simp only: of_nat_add of_nat_mult of_nat_numeral add_diff_cancel_right')
  also have "\<dots> = int (length ?head)"
    using size fits by (intro as_int_small) (simp add: buffer_size_def)
  finally have str: "sv_substr ?pkt (as_int (word_of_nat (length ?pkt) - 2 * word_of_nat (length bs)))
      (int (length ?pkt) - 1) = hex_text bs"
    using sv_substr_suffix [of ?head "hex_text bs"] by (simp only: pkt)
  have vs: "sv_scanf (range_fmt (CHR ''M'') @ [FLit (CHR '':'')]) ?pkt = [Num (hex_number da), Num (hex_number dl)]"
    using sv_scan_range [OF assms(2,3), of "CHR '':'' # hex_text bs" "CHR ''M''"]
    by (simp add: range_packet_def)
  have small: "length bs < 2 ^ 30"
    using size fits by (simp add: buffer_size_def)
  then have len: "unat (word_of_nat (length bs) :: 32 word) = length bs"
    by (intro word_of_nat_length) simp
  let ?t = "?s\<lparr>dut := dut_writes ops (word_of_nat (hex_number da)) bs [0 ..< length bs] (dut s),
     shd := shd_writes (SHADOW cfg) (word_of_nat (hex_number da)) bs [0 ..< length bs] (shd s)\<rparr>"
  have "write_bytes cfg ops (hex_text bs) (word_of_nat (hex_number da)) 0 [0 ..< length bs] ?s = Some (Val (), ?t)"
    using small by (subst write_bytes_text) simp_all
  moreover have "reply ''OK'' ?t = Some (Val (), replied_with ''OK'' q ?t)"
    using assms(1) by (rule taken_then_reply) (simp_all add: taken_def)
  ultimately show ?thesis
    unfolding rsp_mem_write_def get_packet_bnd [OF assms(1)] vs Let_def
    by (simp add: num_at_def assms(4) str len)
qed

lemma written_bytes:
  assumes "shd_wf (SHADOW cfg) sh" and "length bs < 2 ^ 32"
  shows "a_byte (SHADOW cfg) (view (shd_writes (SHADOW cfg) adr bs [0 ..< length bs] sh)) x =
    (if unat (x - adr) < length bs then bs ! unat (x - adr) else a_byte (SHADOW cfg) (view sh) x)"
  unfolding shd_writes_def using assms by (intro shadow_bytes.rd_block) simp_all

text \<open>
  Property C13: memory of the stub is written and read back, with the shadow as the source of reads.
  The packet M is answered with OK; it hands the bytes whose digits it carries to the processor, one
  write for each address of the range in ascending order, and changes exactly the bytes of the range in
  the shadow, wherever the range lies: inside a region, across regions or outside the memory map.
  The packet m for the same range is then answered with these digits and changes nothing.
\<close>

theorem sv_memory_roundtrip:
  assumes "waiting (range_packet (CHR ''M'') da dl (CHR '':'' # hex_text bs)) (with_ack s q) s"
    and "digits8 da" and "digits8 dl" and "hex_number dl = length bs"
    and "shd_wf (SHADOW cfg) (shd s)" and "\<not> memory (stub_state s)"
  shows "\<exists>s'. rsp_mem_write cfg ops s = Some (Val (), s') \<and> answered s ''OK'' q s' \<and>
    dut s' = fold (\<lambda>i. sv_dut_mem_write ops (word_of_nat (hex_number da) + word_of_nat i) (bs ! i)) [0 ..< length bs] (dut s) \<and>
    (\<forall>x. stub_byte cfg ops s' x =
      (if unat (x - word_of_nat (hex_number da)) < length bs then bs ! unat (x - word_of_nat (hex_number da))
       else stub_byte cfg ops s x)) \<and>
    (\<forall>t q'. shd t = shd s' \<and> \<not> memory (stub_state t) \<and>
      waiting (range_packet (CHR ''m'') da dl []) (with_ack t q') t \<longrightarrow>
      (\<exists>t'. rsp_mem_read cfg ops t = Some (Val (), t') \<and> answered t (hex_text bs) q' t' \<and> shd t' = shd t))"
proof -
  let ?adr = "word_of_nat (hex_number da) :: 32 word"
  let ?sh = "shd_writes (SHADOW cfg) ?adr bs [0 ..< length bs] (shd s)"
  let ?s' = "replied_with ''OK'' q ((taken (with_ack s q) s)
    \<lparr>dut := dut_writes ops ?adr bs [0 ..< length bs] (dut s), shd := ?sh\<rparr>)"
  have short: "length bs < 2 ^ 30"
    using assms(1) by (simp add: waiting_def range_packet_def buffer_size_def)
  then have len: "length bs < 2 ^ 32" by simp
  have step: "rsp_mem_write cfg ops s = Some (Val (), ?s')"
    by (rule rsp_mem_write_apply [OF assms(1-4)])
  have answer: "answered s ''OK'' q ?s'"
    by (simp add: answered_def)
  have wf: "shd_wf (SHADOW cfg) ?sh"
    using assms(5) by (rule shd_wf_writes)
  have bytes: "a_byte (SHADOW cfg) (view ?sh) x =
      (if unat (x - ?adr) < length bs then bs ! unat (x - ?adr) else stub_byte cfg ops s x)" for x
    using written_bytes [OF assms(5) len, of ?adr x] assms(5,6) by (simp add: stub_byte_shadow)
  have all: "stub_byte cfg ops ?s' x =
      (if unat (x - ?adr) < length bs then bs ! unat (x - ?adr) else stub_byte cfg ops s x)" for x
    using bytes [of x] wf assms(6) by (simp add: stub_byte_shadow)
  have read: "\<exists>t'. rsp_mem_read cfg ops t = Some (Val (), t') \<and> answered t (hex_text bs) q' t' \<and> shd t' = shd t"
    if t: "shd t = shd ?s'" "\<not> memory (stub_state t)"
      and w: "waiting (range_packet (CHR ''m'') da dl []) (with_ack t q') t" for t q'
    using bytes t wf by (intro rsp_mem_read_bytes [OF w assms(2-4) short]) (simp add: stub_byte_shadow)
  have dut: "dut ?s' = fold (\<lambda>i. sv_dut_mem_write ops (?adr + word_of_nat i) (bs ! i)) [0 ..< length bs] (dut s)"
    by (simp add: dut_writes_def)
  from step answer dut all read show ?thesis by blast
qed

section \<open>Registers\<close>

subsection \<open>Digits and byte order\<close>

lemma le_enc_dec:
  assumes "length bs = 4"
  shows "le_enc (le_dec bs :: 32 word) = bs"
proof (rule nth_equalityI)
  fix k assume "k < length (le_enc (le_dec bs :: 32 word))"
  then have k: "k < 4" by simp
  show "le_enc (le_dec bs :: 32 word) ! k = bs ! k"
  proof (rule bit_word_eqI)
    fix n assume "n < LENGTH(8)"
    then have n: "n < 8" by simp
    then have "(8 * k + n) div 8 = k" "(8 * k + n) mod 8 = n" "8 * k + n < 32"
      using k by auto
    then show "bit (le_enc (le_dec bs :: 32 word) ! k) n \<longleftrightarrow> bit (bs ! k) n"
      using k n assms by (simp add: le_enc_def bit_ucast_iff bit_drop_bit_eq bit_le_dec)
  qed
qed (simp add: assms)

lemma swap_bytes_twice: "swap_bytes (swap_bytes w) = w"
  by (simp add: swap_bytes_def le_enc_dec)

lemma le_dec_Cons: "(le_dec (b # bs) :: 32 word) = ucast b + 256 * le_dec bs"
proof -
  have "bit (ucast b :: 32 word) n \<Longrightarrow> \<not> bit (push_bit 8 (le_dec bs :: 32 word)) n" for n
    using bit_imp_le_length [of b n] by (auto simp: bit_ucast_iff bit_push_bit_iff)
  then have "(ucast b :: 32 word) + push_bit 8 (le_dec bs) = ucast b OR push_bit 8 (le_dec bs)"
    by (intro disjunctive_add) blast
  then show ?thesis
    by (simp add: push_bit_eq_mult mult.commute)
qed

lemma hex_number_append: "hex_number (xs @ ys) = hex_number xs * 16 ^ length ys + hex_number ys"
proof (induction ys rule: rev_induct)
  case (snoc y ys)
  then show ?case
    by (simp add: append_assoc [symmetric] hex_number_snoc del: append_assoc)
qed simp

lemma hex_number_text: "word_of_nat (hex_number (hex_text bs)) = (le_dec (rev bs) :: 32 word)"
proof (induction bs rule: rev_induct)
  case Nil
  then show ?case by (simp add: hex_text_def)
next
  case (snoc b bs)
  have "hex_number (hex_text (bs @ [b])) = 256 * hex_number (hex_text bs) + unat b"
    by (simp add: hex_text_def hex_number_append)
  with snoc show ?case
    by (simp add: le_dec_Cons del: le_dec.simps)
qed

lemma format_08h_known: "format_08h (of_bits v) = hex_text (rev (le_enc v))"
proof -
  have "unat (ucast (drop_bit (8 * k) v) :: byte) = unat v div 256 ^ k mod 256" for k
  proof -
    have "unat (drop_bit (8 * k) v) = unat v div 256 ^ k"
      using drop_bit_eq_div [of "8 * k" "unat v"] by (simp add: unat_drop_bit_eq power_mult)
    then show ?thesis
      by (simp add: unsigned_ucast_eq take_bit_eq_mod)
  qed
  moreover have "nibble (2 * k + 1) v = unat v div 256 ^ k mod 256 div 16"
    "nibble (2 * k) v = unat v div 256 ^ k mod 256 mod 16" for k
  proof -
    have low: "(16 :: nat) ^ (2 * k) = 256 ^ k"
      by (simp add: power_mult)
    then have "(16 :: nat) ^ (2 * k + 1) = 256 ^ k * 16"
      by simp
    then have "nibble (2 * k + 1) v = unat v div 256 ^ k div 16 mod 16"
      by (simp only: nibble_def div_mult2_eq)
    moreover have "y div 16 mod 16 = y mod 256 div 16" for y :: nat
      using mod_mult2_eq [of y 16 16] by simp
    ultimately show "nibble (2 * k + 1) v = unat v div 256 ^ k mod 256 div 16"
      by simp
    show "nibble (2 * k) v = unat v div 256 ^ k mod 256 mod 16"
      by (simp add: nibble_def low mod_mod_cancel)
  qed
  ultimately have pair: "format_02x (ucast (drop_bit (8 * k) v)) =
      [hex_digit (nibble (2 * k + 1) v), hex_digit (nibble (2 * k) v)]" for k
    by (simp add: format_02x_def)
  have enc: "le_enc v = map (\<lambda>k. ucast (drop_bit (8 * k) v)) [0, 1, 2, 3]"
    unfolding le_enc_def by (rule arg_cong2 [of _ _ _ _ map]) (simp_all add: upt_rec)
  have "format_08h (of_bits v) = map (\<lambda>i. hex_digit (nibble i v)) [7, 6, 5, 4, 3, 2, 1, 0]"
    by (simp add: format_08h_def of_bits_def logic_digit_def nibble_def [of _ 0])
  also have "\<dots> = concat (map (\<lambda>k. [hex_digit (nibble (2 * k + 1) v), hex_digit (nibble (2 * k) v)]) [3, 2, 1, 0])"
    by simp
  also have "\<dots> = hex_text (rev (le_enc v))"
    unfolding enc hex_text_def by (simp only: rev.simps list.map append.simps pair)
  finally show ?thesis .
qed

lemma le_enc_0: "le_enc (0 :: 32 word) = replicate 4 0"
  by (rule nth_equalityI) (simp_all add: le_enc_def)

lemma swap_bytes_0: "swap_bytes 0 = 0"
proof -
  have "le_dec (replicate n 0) = (0 :: 32 word)" for n
    by (induction n) simp_all
  then show ?thesis
    by (simp only: swap_bytes_def le_enc_0 rev_replicate)
qed

text \<open>The digits of a known register, in the byte order of the processor.\<close>

lemma register_digits: "format_08h (swap_logic (of_bits w)) = hex_text (le_enc w)"
proof -
  have "swap_logic (of_bits w) = of_bits (swap_bytes w)"
    by (simp add: swap_logic_def of_bits_def swap_bytes_0)
  then show ?thesis
    using format_08h_known [of "swap_bytes w"] by (simp add: swap_bytes_def le_enc_dec)
qed

subsection \<open>The handlers\<close>

definition digits :: "string \<Rightarrow> bool" where
  "digits ds \<longleftrightarrow> (\<forall>c \<in> set ds. is_hex c) \<and> ds \<noteq> []"

lemma sv_scan_open:
  assumes "digits ds" and "r = [] \<or> \<not> is_sv_hex (hd r)"
  shows "sv_scan_h None (ds @ r) = Some (hex_number ds, r)"
proof -
  have hex: "\<forall>c \<in> set ds. is_hex c" and ne: "ds \<noteq> []"
    using assms(1) by (simp_all add: digits_def)
  then have "\<not> is_space (hd ds)"
    using hex_not_special(1) by (cases ds) auto
  then have space: "dropWhile is_space (ds @ r) = ds @ r"
    using ne by (cases ds) auto
  have "takeWhile is_sv_hex (ds @ r) = ds"
    using hex assms(2) by (cases r) (auto simp: takeWhile_append is_sv_hex_def)
  then show ?thesis
    using ne space by (simp add: sv_scan_h_def Let_def sv_hex_number_eq [OF hex])
qed

lemma hex_text_hex: "\<forall>c \<in> set (hex_text bs). is_hex c"
  by (auto simp: hex_text_def dest: set_format_02x)

lemma hex_text_ne: "bs \<noteq> [] \<Longrightarrow> hex_text bs \<noteq> []"
  by (cases bs) (simp_all add: hex_text_def format_02x_def)

definition has_register :: "sv_config \<Rightarrow> 32 word \<Rightarrow> bool" where
  "has_register cfg idx \<longleftrightarrow> unat idx \<le> GPRN cfg + CSRN cfg"

lemma reg_read_write:
  assumes "shd_wf cfg sh" and "has_register cfg idx"
  shows "shd_reg_read cfg (shd_reg_write cfg idx w sh) i = (if i = idx then of_bits w else shd_reg_read cfg sh i)"
proof -
  have "i = idx \<longleftrightarrow> unat i = unat idx"
    by (simp add: word_unat_eq_iff)
  then show ?thesis
    using assms
    by (auto simp: shd_reg_read_def shd_reg_write_def elem_def shd_wf_def has_register_def nth_list_update)
qed

lemma rsp_reg_writeone_apply:
  assumes "waiting (CHR ''P'' # di @ CHR ''='' # hex_text (le_enc w)) (with_ack s q) s" and "digits di"
  shows "rsp_reg_writeone cfg ops s = Some (Val (), replied_with ''OK'' q ((taken (with_ack s q) s)
    \<lparr>dut := dut_reg_write ops (word_of_nat (hex_number di)) w (dut s),
     shd := shd_reg_write (SHADOW cfg) (word_of_nat (hex_number di)) w (shd s)\<rparr>))"
proof -
  let ?s = "taken (with_ack s q) s"
  let ?idx = "word_of_nat (hex_number di) :: 32 word"
  let ?t = "?s\<lparr>dut := dut_reg_write ops ?idx w (dut s), shd := shd_reg_write (SHADOW cfg) ?idx w (shd s)\<rparr>"
  have digits: "sv_scan_h (Some 8) (hex_text (le_enc w)) = Some (hex_number (hex_text (le_enc w)), [])"
    using sv_scan_digits [OF hex_text_hex hex_text_ne, of "le_enc w" 8 "[]"] by (auto simp: le_enc_def)
  have vs: "sv_scanf [FLit (CHR ''P''), FHex None, FLit (CHR ''=''), FHex (Some 8)]
      (CHR ''P'' # di @ CHR ''='' # hex_text (le_enc w)) = [Num (hex_number di), Num (hex_number (hex_text (le_enc w)))]"
    using sv_scan_open [OF assms(2), of "CHR ''='' # hex_text (le_enc w)"] by (simp add: digits)
  have "swap_bytes (word_of_nat (hex_number (hex_text (le_enc w)))) = w"
    by (simp add: hex_number_text flip: swap_bytes_def) (simp add: swap_bytes_twice)
  then have "write_reg cfg ops ?idx (word_of_nat (hex_number (hex_text (le_enc w)))) ?s = Some (Val (), ?t)"
    by (simp add: write_reg_def on_dut_def on_shd_def)
  moreover have "reply ''OK'' ?t = Some (Val (), replied_with ''OK'' q ?t)"
    using assms(1) by (rule taken_then_reply) (simp_all add: taken_def)
  ultimately show ?thesis
    unfolding rsp_reg_writeone_def get_packet_bnd [OF assms(1)] vs Let_def
    by (simp add: num_at_def)
qed

lemma rsp_reg_readall_reply:
  assumes "waiting ''g'' (with_ack s q) s"
  shows "rsp_reg_readall cfg ops s = Some (Val (), replied_with
    (concat (map (\<lambda>i. format_08h (swap_logic (stub_reg cfg ops s (word_of_nat i)))) [0 ..< REGN cfg]))
    q (taken (with_ack s q) s))"
proof -
  let ?s = "taken (with_ack s q) s"
  have "stub_reg cfg ops ?s = stub_reg cfg ops s"
    by (rule ext) (simp add: stub_reg_def)
  moreover have "reply str ?s = Some (Val (), replied_with str q ?s)" for str
    using assms by (rule taken_reply)
  ultimately show ?thesis
    unfolding rsp_reg_readall_def get_packet_bnd [OF assms] by simp
qed

text \<open>
  Registers of the stub are written and read back.  The packet P with the digits of a
  value in the byte order of the processor is answered with OK and writes that value to the register,
  in the shadow and in the processor, and no other register of the shadow; the packet g is then
  answered with eight digits for each register, which for the written one are those of the packet.
\<close>

theorem sv_register_roundtrip:
  assumes "waiting (CHR ''P'' # di @ CHR ''='' # hex_text (le_enc w)) (with_ack s q) s" and "digits di"
    and "shd_wf (SHADOW cfg) (shd s)" and "has_register (SHADOW cfg) (word_of_nat (hex_number di))"
  shows "\<exists>s'. rsp_reg_writeone cfg ops s = Some (Val (), s') \<and> answered s ''OK'' q s' \<and>
    dut s' = dut_reg_write ops (word_of_nat (hex_number di)) w (dut s) \<and>
    (\<forall>i. shd_reg_read (SHADOW cfg) (shd s') i =
      (if i = word_of_nat (hex_number di) then of_bits w else shd_reg_read (SHADOW cfg) (shd s) i)) \<and>
    (\<forall>t q'. shd t = shd s' \<and> \<not> register (stub_state t) \<and> waiting ''g'' (with_ack t q') t \<longrightarrow>
      (\<exists>t'. rsp_reg_readall cfg ops t = Some (Val (), t') \<and> shd t' = shd t \<and>
        answered t (concat (map (\<lambda>i. if (word_of_nat i :: 32 word) = word_of_nat (hex_number di)
            then hex_text (le_enc w)
            else format_08h (swap_logic (shd_reg_read (SHADOW cfg) (shd s) (word_of_nat i)))) [0 ..< REGN cfg])) q' t'))"
proof -
  let ?idx = "word_of_nat (hex_number di) :: 32 word"
  let ?s' = "replied_with ''OK'' q ((taken (with_ack s q) s)
    \<lparr>dut := dut_reg_write ops ?idx w (dut s), shd := shd_reg_write (SHADOW cfg) ?idx w (shd s)\<rparr>)"
  have step: "rsp_reg_writeone cfg ops s = Some (Val (), ?s')"
    by (rule rsp_reg_writeone_apply [OF assms(1,2)])
  have regs: "shd_reg_read (SHADOW cfg) (shd ?s') i =
      (if i = ?idx then of_bits w else shd_reg_read (SHADOW cfg) (shd s) i)" for i
    using reg_read_write [OF assms(3,4)] by simp
  have "\<exists>t'. rsp_reg_readall cfg ops t = Some (Val (), t') \<and> shd t' = shd t \<and>
      answered t (concat (map (\<lambda>i. if (word_of_nat i :: 32 word) = ?idx then hex_text (le_enc w)
            else format_08h (swap_logic (shd_reg_read (SHADOW cfg) (shd s) (word_of_nat i)))) [0 ..< REGN cfg])) q' t'"
    if "shd t = shd ?s'" "\<not> register (stub_state t)" "waiting ''g'' (with_ack t q') t" for t q'
  proof -
    have "(\<lambda>i. format_08h (swap_logic (stub_reg cfg ops t (word_of_nat i)))) =
        (\<lambda>i. if (word_of_nat i :: 32 word) = ?idx then hex_text (le_enc w)
            else format_08h (swap_logic (shd_reg_read (SHADOW cfg) (shd s) (word_of_nat i))))"
      using that(1,2) regs by (auto simp: stub_reg_def register_digits)
    with rsp_reg_readall_reply [OF that(3), of cfg ops] show ?thesis
      by (simp add: answered_def)
  qed
  with step regs show ?thesis
    by (intro exI [of _ ?s']) (simp add: answered_def)
qed

lemma rsp_reg_readone_reply:
  assumes "waiting (CHR ''p'' # di) (with_ack s q) s" and "digits di"
  shows "rsp_reg_readone cfg ops s = Some (Val (), replied_with
    (CHR ''p'' # di @ format_08h (swap_logic (stub_reg cfg ops s (word_of_nat (hex_number di)))))
    q (taken (with_ack s q) s))"
proof -
  let ?s = "taken (with_ack s q) s"
  have vs: "sv_scanf [FLit (CHR ''p''), FHex None] (CHR ''p'' # di) = [Num (hex_number di)]"
    using sv_scan_open [OF assms(2), of "[]"] by simp
  have "stub_reg cfg ops ?s = stub_reg cfg ops s"
    by (rule ext) (simp add: stub_reg_def)
  moreover have "reply str ?s = Some (Val (), replied_with str q ?s)" for str
    using assms(1) by (rule taken_reply)
  ultimately show ?thesis
    unfolding rsp_reg_readone_def get_packet_bnd [OF assms(1)] vs Let_def
    by (simp add: num_at_def)
qed

text \<open>
  The packet p is answered with the packet itself followed by the digits of the register,
  and not with the digits alone: the reply is appended to the received packet.
\<close>

theorem sv_readone_echoes:
  assumes "waiting (CHR ''p'' # di) (with_ack s q) s" and "digits di"
  shows "\<exists>s'. rsp_reg_readone cfg ops s = Some (Val (), s') \<and> shd s' = shd s \<and> dut s' = dut s \<and>
    answered s (CHR ''p'' # di @
      format_08h (swap_logic (stub_reg cfg ops s (word_of_nat (hex_number di))))) q s'"
  by (simp add: rsp_reg_readone_reply [OF assms] answered_def)

section \<open>Breakpoints\<close>

definition point_text :: "char \<Rightarrow> string \<Rightarrow> string \<Rightarrow> string \<Rightarrow> string" where
  "point_text c dt da dk = c # dt @ CHR '','' # da @ CHR '','' # dk"

lemma scan_point:
  assumes "digits dt" and "digits8 da" and "digits dk"
  shows "sv_scanf [FHex None, FLit (CHR '',''), FHex (Some 8), FLit (CHR '',''), FHex None]
      (dt @ CHR '','' # da @ CHR '','' # dk) =
    [Num (hex_number dt), Num (hex_number da), Num (hex_number dk)]"
  using sv_scan_open [OF assms(1), of "CHR '','' # da @ CHR '','' # dk"]
    sv_scan_digits [of da 8 "CHR '','' # dk"] sv_scan_open [OF assms(3), of "[]"] assms(2)
  by (simp add: digits8_def)

text \<open>
  The packets Z and z insert and remove the point they name in the shadow, but the client
  gets no reply to them, only the acknowledgement of the packet.
\<close>

theorem sv_point_packets:
  assumes "digits dt" and "digits8 da" and "digits dk"
  shows "(waiting (point_text (CHR ''Z'') dt da dk) q s \<longrightarrow>
      (\<exists>s'. rsp_point s = Some (Val (), s') \<and> sent s' = sent s @ (if acks s then ''+'' else []) \<and>
        rxq s' = q \<and> shd s' = snd (point_insert (word_of_nat (hex_number dt)) (word_of_nat (hex_number da))
          (word_of_nat (hex_number dk)) (shd s)))) \<and>
    (waiting (point_text (CHR ''z'') dt da dk) q s \<longrightarrow>
      (\<exists>s'. rsp_point s = Some (Val (), s') \<and> sent s' = sent s @ (if acks s then ''+'' else []) \<and>
        rxq s' = q \<and> shd s' = snd (point_remove (word_of_nat (hex_number dt)) (word_of_nat (hex_number da))
          (word_of_nat (hex_number dk)) (shd s))))"
  using scan_point [OF assms]
  by (auto simp: rsp_point_def get_packet_bnd Let_def point_text_def num_at_def on_shd_def simp del: sv_scanf.simps)

section \<open>Concrete packets\<close>

definition demo_ops :: "unit dut_ops" where
  "demo_ops = \<lparr>dut_reset_assert = id, dut_reset_release = id, dut_step = (\<lambda>d. (demo_store, d)),
     dut_reg_read = (\<lambda>_ _. 0), dut_reg_write = (\<lambda>_ _ d. d), sv_dut_mem_read = (\<lambda>_ _. 0),
     sv_dut_mem_write = (\<lambda>_ _ d. d)\<rparr>"

definition demo_cfg :: stub_config where
  "demo_cfg = \<lparr>SHADOW = demo_sv, REGN = 33, THREADS = [''CPU0'']\<rparr>"

text \<open>A stub without acknowledgements, with some input to come.\<close>

definition idle_stub :: "'d \<Rightarrow> gdb_shadow \<Rightarrow> rx_event list \<Rightarrow> 'd stub" where
  "idle_stub d sh q = \<lparr>rxq = q, txq = [], clients = [], sent = [], cout = [], sfd = 3, cfd = 4,
     stub_state = STUB_STATE_INIT\<lparr>acknowledge := False\<rparr>, features_gdb = [], shd = sh,
     dut = d, bf = [nul, nul]\<rparr>"

lemma idle_stub_simps [simp]:
  "rxq (idle_stub d sh q) = q" "txq (idle_stub d sh q) = []" "sent (idle_stub d sh q) = []"
  "shd (idle_stub d sh q) = sh" "dut (idle_stub d sh q) = d" "memory (stub_state (idle_stub d sh q)) = False"
  "register (stub_state (idle_stub d sh q)) = False" "acks (idle_stub d sh q) = False"
  "with_ack (idle_stub d sh q) q' = q'" "bf (idle_stub d sh q) = [nul, nul]"
  by (simp_all add: idle_stub_def STUB_STATE_INIT_def acks_def with_ack_def)

lemma idle_waiting:
  "nul \<notin> set pkt \<Longrightarrow> length pkt \<le> 20 \<Longrightarrow> waiting pkt q (idle_stub d sh (Chunk (format_packet pkt) # q))"
  by (simp add: waiting_def buffer_size_def tx_wide_def)

abbreviation demo_stub :: "string \<Rightarrow> unit stub" where
  "demo_stub c \<equiv> idle_stub () (shd_new demo_sv) [Chunk c]"

lemmas demo_waiting = idle_waiting [where q = "[]" and d = "()" and sh = "shd_new demo_sv"]

lemma demo_cfg_shadow [simp]: "SHADOW demo_cfg = demo_sv"
  by (simp add: demo_cfg_def)

lemma demo_digits:
  "digits8 ''10f''" "digits8 ''2''" "hex_number ''10f'' = 0x10F" "hex_number ''2'' = 2"
  "digits ''5''" "hex_number ''5'' = 5" "digits ''1''" "hex_number ''1'' = 1" "digits8 ''100''"
  "hex_number ''100'' = 0x100" "digits ''4''" "hex_number ''4'' = 4"
  by (simp_all add: digits8_def digits_def is_hex_def hex_number_def hex_val_def)

lemma demo_text: "hex_text [0xAB, 0xCD] = ''abcd''"
  by (simp add: hex_text_def format_02x_def hex_digit_def)

text \<open>Two bytes across the end of a region.\<close>

theorem sv_memory_roundtrip_witness:
  "\<exists>s'. rsp_mem_write demo_cfg demo_ops (demo_stub (format_packet ''M10f,2:abcd'')) = Some (Val (), s') \<and>
    sent s' = format_packet ''OK'' \<and> stub_byte demo_cfg demo_ops s' 0x110 = 0xCD"
proof -
  let ?s = "demo_stub (format_packet ''M10f,2:abcd'')"
  have pkt: "range_packet (CHR ''M'') ''10f'' ''2'' (CHR '':'' # hex_text [0xAB, 0xCD]) = ''M10f,2:abcd''"
    by (simp add: range_packet_def demo_text)
  have "waiting (range_packet (CHR ''M'') ''10f'' ''2'' (CHR '':'' # hex_text [0xAB, 0xCD])) (with_ack ?s []) ?s"
    unfolding pkt using demo_waiting [of "''M10f,2:abcd''"] by (simp add: nul_def)
  from sv_memory_roundtrip [OF this demo_digits(1,2), of demo_cfg demo_ops] show ?thesis
    by (auto simp: demo_digits shd_wf_new answered_def)
qed

theorem sv_register_roundtrip_witness:
  "\<exists>s'. rsp_reg_writeone demo_cfg demo_ops
      (demo_stub (format_packet (CHR ''P'' # ''5'' @ CHR ''='' # hex_text (le_enc (0x12345678 :: 32 word))))) = Some (Val (), s') \<and>
    shd_reg_read demo_sv (shd s') 5 = of_bits 0x12345678"
proof -
  let ?pkt = "CHR ''P'' # ''5'' @ CHR ''='' # hex_text (le_enc (0x12345678 :: 32 word))"
  have "nul \<notin> set (hex_text bs)" for bs
    using hex_text_hex [of bs] hex_not_special(6) by blast
  then have "waiting ?pkt (with_ack (demo_stub (format_packet ?pkt)) []) (demo_stub (format_packet ?pkt))"
    unfolding idle_stub_simps by (intro demo_waiting) (simp_all add: nul_def)
  from sv_register_roundtrip [OF this demo_digits(5), of demo_cfg demo_ops] show ?thesis
    by (auto simp: demo_digits shd_wf_new has_register_def demo_sv_def)
qed

theorem sv_readone_echoes_witness:
  "\<exists>s'. rsp_reg_readone demo_cfg demo_ops (demo_stub (format_packet ''p0'')) = Some (Val (), s') \<and>
    sent s' = format_packet ''p000000000''"
proof -
  let ?s = "demo_stub (format_packet ''p0'')"
  have w: "waiting ''p0'' (with_ack ?s []) ?s"
    using demo_waiting [of "''p0''"] by (simp add: nul_def)
  have d: "digits ''0''" "hex_number ''0'' = 0"
    by (simp_all add: digits_def is_hex_def hex_number_def hex_val_def)
  have reg: "stub_reg demo_cfg demo_ops ?s 0 = of_bits 0"
    by (simp add: stub_reg_def shd_reg_read_def elem_def demo_sv_def shd_new_def)
  have "replicate 4 0 = [0, 0, 0, 0 :: byte]"
    by (simp add: eval_nat_numeral)
  then have "hex_text (le_enc (0 :: 32 word)) = ''00000000''"
    by (simp add: le_enc_0 hex_text_def format_02x_def hex_digit_def)
  then have text0: "format_08h (swap_logic (stub_reg demo_cfg demo_ops ?s (word_of_nat (hex_number ''0'')))) = ''00000000''"
    by (simp only: d(2) semiring_1_class.of_nat_0 reg register_digits)
  have app: "CHR ''p'' # ''0'' @ ''00000000'' = ''p000000000''"
    by simp
  obtain s' where "rsp_reg_readone demo_cfg demo_ops ?s = Some (Val (), s')"
      "answered ?s ''p000000000'' [] s'"
    using sv_readone_echoes [OF w d(1), of demo_cfg demo_ops] unfolding text0 app by blast
  then show ?thesis
    by (auto simp: answered_def)
qed

text \<open>A hardware breakpoint at 0x100.\<close>

theorem sv_point_packets_witness:
  "\<exists>s'. rsp_point (demo_stub (format_packet ''Z1,100,4'')) = Some (Val (), s') \<and> sent s' = [] \<and>
    map_find (s_bpt (shd s')) 0x100 = Some \<lparr>sv_ptype = hwbreak, sv_pkind = 4\<rparr>"
proof -
  let ?s = "demo_stub (format_packet ''Z1,100,4'')"
  have pkt: "point_text (CHR ''Z'') ''1'' ''100'' ''4'' = ''Z1,100,4''"
    by (simp add: point_text_def)
  have "waiting ''Z1,100,4'' [] ?s"
    using demo_waiting [of "''Z1,100,4''"] by (simp add: nul_def)
  then obtain s' where s': "rsp_point ?s = Some (Val (), s')" "sent s' = []"
      "shd s' = snd (point_insert 1 0x100 4 (shd_new demo_sv))"
    using sv_point_packets [of "''1''" "''100''" "''4''" "[]" ?s] unfolding pkt by (auto simp: demo_digits)
  have "map_find (s_bpt (shd s')) 0x100 = Some \<lparr>sv_ptype = hwbreak, sv_pkind = 4\<rparr>"
    by (simp add: s'(3) point_insert_def Let_def shd_new_def map_find_def ptype_defs)
  with s' show ?thesis by blast
qed

end
