(* ===== verification/Sv_Queries.thy ===== *)
theory Sv_Queries
  imports Sv_Handlers
begin

text \<open>
  Queries and the session: monitor commands, the exchange of features, the mode without
  acknowledgements, and detaching.
\<close>

section \<open>Scanning the rest of a packet\<close>

definition one_word :: "string \<Rightarrow> bool" where
  "one_word str \<longleftrightarrow> str \<noteq> [] \<and> (\<forall>c \<in> set str. \<not> is_space c)"

lemma word_prefix:
  assumes "one_word w" and "r = [] \<or> is_space (hd r)"
  shows "dropWhile is_space (w @ r) = w @ r" and "takeWhile (\<lambda>c. \<not> is_space c) (w @ r) = w"
proof -
  show "dropWhile is_space (w @ r) = w @ r"
    using assms(1) by (cases w) (auto simp: one_word_def)
  show "takeWhile (\<lambda>c. \<not> is_space c) (w @ r) = w"
    using assms by (cases r) (auto simp: one_word_def takeWhile_append)
qed

lemma scan_word: "one_word w \<Longrightarrow> sv_scanf [FStr] w = [Str w]"
  using word_prefix [of w "[]"]
  by (simp add: Let_def del: takeWhile_eq_all_conv dropWhile_eq_self_iff takeWhile_eq_Nil_iff)
    (simp add: one_word_def)

lemma scan_lit: "sv_scanf (lit pre @ fs) (pre @ str) = sv_scanf fs str"
  by (induction pre) (simp_all add: lit_def)

text \<open>A reply after the state of the stub has changed, but not its acknowledge mode.\<close>

lemma reply_after:
  assumes "waiting pkt (with_ack s q) s" and "acks t = acks s" and "rxq t = with_ack s q"
    and "txq t = txq (taken q s)"
  shows "reply str t = Some (Val (), replied_with str q t)"
proof (rule reply_ready)
  show "tx_wide t"
    using assms(1,4) tx_wide_taken [of s q] by (simp add: waiting_def tx_wide_def)
  show "rxq t = with_ack t q"
    using assms(2,3) by (simp add: with_ack_def)
qed

section \<open>Monitor commands\<close>

text \<open>What each command is to change.\<close>

definition setting :: "string \<Rightarrow> string \<Rightarrow> string \<Rightarrow> bool \<Rightarrow> bool" where
  "setting on off str b = (if str = on then True else if str = off then False else b)"

definition monitor_state :: "string \<Rightarrow> stub_state_t \<Rightarrow> stub_state_t" where
  "monitor_state str st = st
     \<lparr>remote_log := setting ''set remote log on'' ''set remote log off'' str (remote_log st),
      register := setting ''set register=dut'' ''set register=shadow'' str (register st),
      memory := setting ''set memory=dut'' ''set memory=shadow'' str (memory st)\<rparr>"

definition monitor_dut :: "'d dut_ops \<Rightarrow> string \<Rightarrow> 'd \<Rightarrow> 'd" where
  "monitor_dut ops str d =
     (if str = ''reset assert'' then dut_reset_assert ops d
      else if str = ''reset release'' then dut_reset_release ops d else d)"

definition monitor_words :: "string list" where
  "monitor_words = [''help'', ''set remote log on'', ''set remote log off'', ''set waveform dump on'',
     ''set waveform dump off'', ''set register=dut'', ''set register=shadow'', ''set memory=dut'',
     ''set memory=shadow'', ''reset assert'', ''reset release'']"

definition monitored :: "'d dut_ops \<Rightarrow> string \<Rightarrow> 'd stub \<Rightarrow> 'd stub" where
  "monitored ops str s = s\<lparr>stub_state := monitor_state str (stub_state s), dut := monitor_dut ops str (dut s)\<rparr>"

lemmas monitor_defs = monitor_action_def monitored_def monitor_state_def monitor_dut_def setting_def
  set_state_def on_dut_def modifies_def

lemma monitor_other:
  assumes "str \<notin> set monitor_words"
  shows "fst (monitor_action ops str) s = Some (Val (), monitored ops str s)"
  using assms unfolding monitor_words_def list.set insert_iff empty_iff de_Morgan_disj
  by (cases s; cases "stub_state s") (simp only: monitor_defs if_False fst_conv, simp)

lemma monitor_action_apply:
  "fst (monitor_action ops str) s = Some (Val (), monitored ops str s)"
proof (cases "str \<in> set monitor_words")
  case True
  then show ?thesis
    unfolding monitor_words_def list.set insert_iff empty_iff
    by (elim disjE; cases s; cases "stub_state s") (simp_all add: monitor_defs)
qed (rule monitor_other)

lemma monitored_simps [simp]:
  "acks (monitored ops str s) = acks s" "rxq (monitored ops str s) = rxq s" "txq (monitored ops str s) = txq s"
  "sent (monitored ops str s) = sent s" "shd (monitored ops str s) = shd s"
  "stub_state (monitored ops str s) = monitor_state str (stub_state s)"
  "dut (monitored ops str s) = monitor_dut ops str (dut s)"
  by (simp_all add: monitored_def acks_def monitor_state_def)

lemma hex_one_word: "str \<noteq> [] \<Longrightarrow> one_word (rsp_ascii2hex str)"
proof -
  have "c \<in> set (rsp_ascii2hex str) \<Longrightarrow> \<not> is_space c" for c
    using hex_not_special(1) by (auto simp: rsp_ascii2hex_def dest: set_format_02x)
  moreover have "str \<noteq> [] \<Longrightarrow> rsp_ascii2hex str \<noteq> []"
    by (cases str) (simp_all add: rsp_ascii2hex_def format_02x_def)
  ultimately show "str \<noteq> [] \<Longrightarrow> one_word (rsp_ascii2hex str)"
    by (simp add: one_word_def)
qed

text \<open>
  Property C20: monitor commands.  The packet qRcmd with the hexadecimal text of a command changes the
  settings of the stub and resets the processor exactly as the command says, leaves the shadow alone,
  and is answered with the hexadecimal text of the message of that command.
\<close>

theorem sv_monitor_packet:
  assumes "waiting (''qRcmd,'' @ rsp_ascii2hex str) (with_ack s q) s" and "nul \<notin> set str" and "str \<noteq> []"
  shows "\<exists>s'. rsp_query_packet cfg ops s = Some (Val (), s') \<and>
    answered s (rsp_ascii2hex (snd (monitor_action ops str))) q s' \<and> shd s' = shd s \<and>
    stub_state s' = monitor_state str (stub_state s) \<and> dut s' = monitor_dut ops str (dut s)"
proof -
  let ?pkt = "''qRcmd,'' @ rsp_ascii2hex str"
  let ?s = "taken (with_ack s q) s"
  let ?t = "monitored ops str ?s"
  let ?txt = "rsp_ascii2hex (snd (monitor_action ops str))"
  have sup: "sv_scanf (lit ''qSupported:'' @ [FStr]) ?pkt = []"
    by (simp add: lit_def)
  have mon: "sv_scanf (lit ''qRcmd,'' @ [FStr]) ?pkt = [Str (rsp_ascii2hex str)]"
    unfolding scan_lit by (rule scan_word [OF hex_one_word [OF assms(3)]])
  have reply: "reply ?txt ?t = Some (Val (), replied_with ?txt q ?t)"
    using assms(1) by (rule reply_after) (simp_all, simp add: taken_def)
  have "rsp_query_packet cfg ops s = rsp_query_monitor ops str ?s"
    unfolding rsp_query_packet_def get_packet_bnd [OF assms(1)] query_cases_def sup mon
    by (simp add: str_at_def sv_hex_roundtrip [OF assms(2)])
  also have "\<dots> = reply ?txt ?t"
    using monitor_action_apply [of ops str ?s]
    by (cases "monitor_action ops str")
      (simp add: rsp_query_monitor_def rsp_query_monitor_reply_def reply_def)
  finally show ?thesis
    using reply by (simp add: answered_def)
qed

theorem sv_monitor_packet_witness:
  "\<exists>s'. rsp_query_packet demo_cfg demo_ops (demo_stub (format_packet
      (''qRcmd,'' @ rsp_ascii2hex ''set memory=dut''))) = Some (Val (), s') \<and>
    memory (stub_state s') \<and> rxq s' = []"
proof -
  let ?pkt = "''qRcmd,'' @ rsp_ascii2hex ''set memory=dut''"
  have "nul \<notin> set (rsp_ascii2hex ''set memory=dut'')"
    using hex_not_special(6) by (auto simp: rsp_ascii2hex_def dest: set_format_02x)
  moreover have "length (rsp_ascii2hex ''set memory=dut'') = 28"
    by (simp add: rsp_ascii2hex_def format_02x_def)
  ultimately have "waiting ?pkt (with_ack (demo_stub (format_packet ?pkt)) []) (demo_stub (format_packet ?pkt))"
    by (simp add: waiting_def buffer_size_def tx_wide_def) (simp add: nul_def)
  from sv_monitor_packet [OF this, of demo_cfg demo_ops] show ?thesis
    by (auto simp: nul_def answered_def monitor_state_def setting_def)
qed

section \<open>Acknowledgements and error strings\<close>

lemma query_no_match:
  "sv_scanf (lit ''qSupported:'' @ [FStr]) (CHR ''Q'' # p) = []"
  "sv_scanf (lit ''qRcmd,'' @ [FStr]) (CHR ''Q'' # p) = []"
  "sv_scanf (lit ''qThreadExtraInfo,'' @ [FStr]) (CHR ''Q'' # p) = []"
  by (simp_all add: lit_def)

lemma rsp_query_no_ack:
  assumes "waiting pkt (with_ack s q) s" and "pkt \<in> {''QStartNoAckMode'', ''QEnableErrorStrings''}"
  shows "rsp_query_packet cfg ops s = Some (Val (), (replied_with ''OK'' q (taken (with_ack s q) s))
    \<lparr>stub_state := (stub_state s)\<lparr>acknowledge := False\<rparr>\<rparr>)"
proof -
  let ?s = "taken (with_ack s q) s"
  have reply: "reply ''OK'' ?s = Some (Val (), replied_with ''OK'' q ?s)"
    using assms(1) by (rule reply_after) (simp_all, simp add: taken_def)
  have "\<exists>p. pkt = CHR ''Q'' # p"
    using assms(2) by blast
  then have "rsp_query_packet cfg ops s =
      seq (reply ''OK'') (set_state (acknowledge_update (\<lambda>_. False))) ?s"
    using assms(2)
    by (auto simp: rsp_query_packet_def get_packet_bnd [OF assms(1)] query_cases_def query_no_match
        simp del: sv_scanf.simps)
  then show ?thesis
    by (simp add: reply set_state_def)
qed

text \<open>
  QStartNoAckMode is answered with OK under the acknowledge mode in force and switches the
  acknowledgements off for what follows; QEnableErrorStrings, which asks for error texts, does the
  very same and nothing else.
\<close>

theorem sv_no_ack_mode:
  assumes "waiting pkt (with_ack s q) s" and "pkt \<in> {''QStartNoAckMode'', ''QEnableErrorStrings''}"
  shows "\<exists>s'. rsp_query_packet cfg ops s = Some (Val (), s') \<and> answered s ''OK'' q s' \<and>
    stub_state s' = (stub_state s)\<lparr>acknowledge := False\<rparr> \<and> shd s' = shd s \<and> dut s' = dut s"
  by (simp add: rsp_query_no_ack [OF assms] answered_def)

theorem sv_no_ack_mode_witness:
  "\<exists>s'. rsp_query_packet demo_cfg demo_ops (demo_stub (format_packet ''QEnableErrorStrings'')) = Some (Val (), s') \<and>
    sent s' = format_packet ''OK'' \<and> \<not> acknowledge (stub_state s')"
proof -
  let ?s = "demo_stub (format_packet ''QEnableErrorStrings'')"
  have "waiting ''QEnableErrorStrings'' (with_ack ?s []) ?s"
    using demo_waiting [of "''QEnableErrorStrings''"] by (simp add: nul_def)
  from sv_no_ack_mode [OF this, of demo_cfg demo_ops] show ?thesis
    by (auto simp: answered_def)
qed

section \<open>Detaching\<close>

text \<open>
  Property C22: detaching.  The client gets OK; the settings are those of a new stub, so that the next
  client is served with acknowledgements again; the shadow, the trace and the processor stay.  The
  stub then waits for the next client on the path for UNIX sockets, whatever socket it listens on:
  the options of a TCP connection are not set.
\<close>

theorem sv_detach:
  assumes "waiting ''D'' (with_ack s q) s" and "clients s = Client fd opt input # cs" and "0 \<le> fd"
  shows "\<exists>s'. rsp_detach s = Some (Val (), s') \<and> stub_state s' = STUB_STATE_INIT \<and> shd s' = shd s \<and>
    dut s' = dut s \<and> cfd s' = fd \<and> rxq s' = input \<and> clients s' = cs \<and>
    sent s' = sent s @ (if acks s then ''+'' else []) @ format_packet ''OK''"
proof -
  let ?s = "taken (with_ack s q) s"
  let ?t = "(replied_with ''OK'' q ?s)\<lparr>stub_state := STUB_STATE_INIT\<rparr>"
  have reply: "reply ''OK'' ?s = Some (Val (), replied_with ''OK'' q ?s)"
    using assms(1) by (rule reply_after) (simp_all, simp add: taken_def)
  have "clients ?t = clients s"
    by (simp add: replied_with_def taken_def)
  from this assms(2) have "clients ?t = Client fd opt input # cs"
    by simp
  then have accept: "\<exists>out. socket_unix_accept ?t =
      Some (Val fd, ?t\<lparr>clients := cs, cfd := fd, rxq := input, cout := out\<rparr>)"
    using assms(3) by (intro exI) (simp add: socket_unix_accept_def seq_print dpi_os_accept_def bnd_def)
  have "rsp_detach s = bnd socket_unix_accept (\<lambda>_. returns ()) ?t"
    by (simp add: rsp_detach_def get_packet_bnd [OF assms(1)] reply set_state_def STUB_STATE_INIT_def)
  with accept show ?thesis
    by (auto simp: answered_def)
qed

theorem sv_detach_witness:
  "\<exists>s'. rsp_detach ((demo_stub (format_packet ''D''))\<lparr>clients := [Client 7 False [Hangup]]\<rparr>) = Some (Val (), s') \<and>
    cfd s' = 7 \<and> rxq s' = [Hangup] \<and> acknowledge (stub_state s')"
proof -
  let ?s = "(demo_stub (format_packet ''D''))\<lparr>clients := [Client 7 False [Hangup]]\<rparr>"
  have "waiting ''D'' (with_ack ?s []) ?s"
    using demo_waiting [of "''D''"] by (simp add: nul_def waiting_def tx_wide_def with_ack_def acks_def idle_stub_def)
  from sv_detach [OF this, of 7 False "[Hangup]" "[]"] show ?thesis
    by (auto simp: STUB_STATE_INIT_def)
qed

section \<open>Features\<close>

lemma char2space_join:
  "\<forall>t \<in> set ts. sep \<notin> set t \<Longrightarrow> char2space (join_with sep ts) sep = join_with (CHR '' '') ts"
proof (induction ts rule: induct_list012)
  case (2 t)
  then show ?case by (auto simp: char2space_def intro: map_idI)
next
  case (3 t u ts)
  then have "map (\<lambda>c. if c = sep then CHR '' '' else c) t = t"
    by (intro map_idI) auto
  with 3 show ?case by (simp add: char2space_def)
qed (simp add: char2space_def)

lemma is_space_blank [simp]: "is_space (CHR '' '')"
  by (simp add: is_space_def)

text \<open>Splitting undoes joining.\<close>

lemma split_tokens_join:
  "ts \<noteq> [] \<Longrightarrow> \<forall>t \<in> set ts. one_word t \<Longrightarrow> split_tokens tmp (join_with (CHR '' '') ts) = ts"
proof (induction ts arbitrary: tmp rule: induct_list012)
  case (2 t)
  then have "dropWhile is_space t = t" "takeWhile (\<lambda>c. \<not> is_space c) t = t" "t \<noteq> []"
    using word_prefix [of t "[]"] by (auto simp: one_word_def)
  then show ?case
    by (subst split_tokens.simps) (simp add: Let_def del: takeWhile_eq_all_conv)
next
  case (3 t u ts)
  let ?rest = "join_with (CHR '' '') (u # ts)"
  have t: "one_word t" "t \<noteq> []"
    using "3.prems" by (simp_all add: one_word_def)
  note word = word_prefix [OF t(1), of "CHR '' '' # ?rest", simplified]
  have "?rest \<noteq> []"
    using "3.prems"(2) by (cases ts) (auto simp: one_word_def)
  then have rest: "sv_substr (t @ CHR '' '' # ?rest) (int (length t) + 1) (int (length (t @ CHR '' '' # ?rest)) - 1) = ?rest"
    by (simp add: sv_substr_def nat_add_distrib)
  have "split_tokens t ?rest = u # ts"
    using "3.prems" by (intro "3.IH"(2)) simp_all
  then show ?case
    using t(2) word rest by (subst split_tokens.simps) (simp add: Let_def)
qed simp

lemma split_join:
  assumes "ts \<noteq> []" and "\<forall>t \<in> set ts. one_word t \<and> sep \<notin> set t"
  shows "split (join_with sep ts) sep = ts"
proof -
  have spaced: "char2space (join_with sep ts) sep = join_with (CHR '' '') ts"
    using assms(2) by (intro char2space_join) simp
  show ?thesis
    unfolding split_def spaced using assms by (intro split_tokens_join) auto
qed

text \<open>A feature with a flag plus, minus or question mark.\<close>

definition feature_item :: "string \<times> char \<Rightarrow> string" where
  "feature_item nf = fst nf @ [snd nf]"

definition good_feature :: "string \<times> char \<Rightarrow> bool" where
  "good_feature nf \<longleftrightarrow> snd nf \<in> set ''+-?'' \<and> CHR '';'' \<notin> set (fst nf) \<and> (\<forall>c \<in> set (fst nf). \<not> is_space c)"

lemma gdb_feature_item:
  assumes "good_feature nf"
  shows "gdb_feature str prev (feature_item nf) = (fst nf, [snd nf])"
proof -
  have "[snd nf] \<in> {''+'', ''-'', ''?''}"
    using assms by (auto simp: good_feature_def)
  moreover have "sv_substr (fst nf @ [snd nf]) 0 (int (length (fst nf @ [snd nf])) - 2) = fst nf"
    by (cases "fst nf") (simp_all add: sv_substr_def nat_add_distrib)
  ultimately show ?thesis
    by (simp only: gdb_feature_def feature_item_def Let_def last_snoc append_is_Nil_conv list.distinct simp_thms if_True if_False)
qed

lemma gdb_features_items:
  "\<forall>nf \<in> set fs. good_feature nf \<Longrightarrow> gdb_features str prev (map feature_item fs) m =
    foldl (\<lambda>m nf. map_set (fst nf) [snd nf] m) m fs"
  by (induction fs arbitrary: prev m) (simp_all add: gdb_feature_item Let_def)

lemma stub_features_text_eq:
  "stub_features_text =
    ''QStartNoAckMode+;ReverseContinue+;ReverseStep+;binary-upload-;error-message+;hwbreak+;multiprocess-;swbreak+''"
  by code_simp

lemma feature_item_word:
  assumes "good_feature nf"
  shows "one_word (feature_item nf) \<and> CHR '';'' \<notin> set (feature_item nf)"
proof -
  have "snd nf = CHR ''+'' \<or> snd nf = CHR ''-'' \<or> snd nf = CHR ''?''"
    using assms by (simp add: good_feature_def)
  then have "\<not> is_space (snd nf)" "snd nf \<noteq> CHR '';''"
    by (elim disjE; simp add: is_space_def)+
  with assms show ?thesis
    by (simp add: good_feature_def feature_item_def one_word_def)
qed

lemma set_join_with: "set (join_with c ts) \<subseteq> insert c (\<Union> (set ` set ts))"
  by (induction ts rule: induct_list012) auto

lemma join_one_word:
  assumes "ts \<noteq> []" and "\<forall>t \<in> set ts. one_word t"
  shows "one_word (join_with (CHR '';'') ts)"
proof -
  have blank: "\<not> is_space (CHR '';'')"
    by (simp add: is_space_def)
  have "\<not> is_space c" if "c \<in> set (join_with (CHR '';'') ts)" for c
  proof -
    have "c = CHR '';'' \<or> (\<exists>t \<in> set ts. c \<in> set t)"
      using that set_join_with [of "CHR '';''" ts] by blast
    with assms(2) blank show ?thesis
      unfolding one_word_def by blast
  qed
  moreover obtain t us where ts: "ts = t # us"
    using assms(1) by (cases ts) blast
  then have "join_with (CHR '';'') ts \<noteq> []"
    using assms(2) by (cases us) (simp_all add: one_word_def)
  ultimately show ?thesis
    unfolding one_word_def by blast
qed

lemma str_at_word: "str_at [Str w] 0 old = w"
  by (simp add: str_at_def)

lemma query_supported_word:
  assumes "one_word str"
  shows "query_cases cfg ops (''qSupported:'' @ str) = rsp_query_supported str"
proof -
  have sup: "sv_scanf (lit ''qSupported:'' @ [FStr]) (''qSupported:'' @ str) = [Str str]"
    unfolding scan_lit by (rule scan_word [OF assms])
  show ?thesis
    unfolding query_cases_def Let_def sup by (simp only: str_at_word list.distinct not_False_eq_True if_True)
qed

text \<open>
  Property C21: the exchange of features.  The features of the client, each with a flag plus, minus or
  question mark, are entered into its dictionary one after the other, under their names and with their
  flags, and the stub answers with its own features in the order of the keys.
\<close>

theorem sv_query_supported:
  assumes "waiting (''qSupported:'' @ join_with (CHR '';'') (map feature_item fs)) (with_ack s q) s"
    and "fs \<noteq> []" and "\<forall>nf \<in> set fs. good_feature nf"
  shows "\<exists>s'. rsp_query_packet cfg ops s = Some (Val (), s') \<and> answered s
      ''QStartNoAckMode+;ReverseContinue+;ReverseStep+;binary-upload-;error-message+;hwbreak+;multiprocess-;swbreak+'' q s' \<and>
    features_gdb s' = foldl (\<lambda>m nf. map_set (fst nf) [snd nf] m) (features_gdb s) fs \<and>
    stub_state s' = stub_state s \<and> shd s' = shd s"
proof -
  let ?str = "join_with (CHR '';'') (map feature_item fs)"
  let ?s = "taken (with_ack s q) s"
  let ?t = "?s\<lparr>features_gdb := foldl (\<lambda>m nf. map_set (fst nf) [snd nf] m) (features_gdb s) fs\<rparr>"
  have "split ?str (CHR '';'') = map feature_item fs"
    using assms(2,3) feature_item_word by (intro split_join) auto
  then have features: "gdb_features ?str ([], []) (split ?str (CHR '';'')) m =
      foldl (\<lambda>m nf. map_set (fst nf) [snd nf] m) m fs" for m
    using gdb_features_items [OF assms(3)] by simp
  have reply: "reply str ?t = Some (Val (), replied_with str q ?t)" for str
    using assms(1) by (rule reply_after) (simp_all add: acks_def taken_def)
  have "rsp_query_packet cfg ops s = rsp_query_supported ?str ?s"
    unfolding rsp_query_packet_def get_packet_bnd [OF assms(1)]
    using assms(2,3) feature_item_word by (subst query_supported_word [OF join_one_word]) auto
  also have "\<dots> = reply stub_features_text ?t"
    by (simp add: rsp_query_supported_def features reply_def)
  also have "\<dots> = Some (Val (), replied_with stub_features_text q ?t)"
    by (rule reply)
  finally have run: "rsp_query_packet cfg ops s = Some (Val (), replied_with stub_features_text q ?t)" .
  have "answered s stub_features_text q (replied_with stub_features_text q ?t)"
    by (simp add: answered_def)
  then have "answered s
      ''QStartNoAckMode+;ReverseContinue+;ReverseStep+;binary-upload-;error-message+;hwbreak+;multiprocess-;swbreak+''
      q (replied_with stub_features_text q ?t)"
    by (simp only: stub_features_text_eq)
  with run show ?thesis
    by (intro exI [of _ "replied_with stub_features_text q ?t"]) simp
qed

theorem sv_query_supported_witness:
  "\<exists>s'. rsp_query_packet demo_cfg demo_ops (demo_stub (format_packet ''qSupported:a+;b-'')) = Some (Val (), s') \<and>
    map_find (features_gdb s') ''b'' = Some ''-''"
proof -
  let ?fs = "[(''a'', CHR ''+''), (''b'', CHR ''-'')]"
  let ?s = "demo_stub (format_packet ''qSupported:a+;b-'')"
  have pkt: "''qSupported:'' @ join_with (CHR '';'') (map feature_item ?fs) = ''qSupported:a+;b-''"
    by (simp add: feature_item_def)
  have w: "waiting (''qSupported:'' @ join_with (CHR '';'') (map feature_item ?fs)) (with_ack ?s []) ?s"
    unfolding pkt using demo_waiting [of "''qSupported:a+;b-''"] by (simp add: nul_def)
  have good: "\<forall>nf \<in> set ?fs. good_feature nf"
    by (simp add: good_feature_def is_space_def)
  obtain s' where s': "rsp_query_packet demo_cfg demo_ops ?s = Some (Val (), s')"
      "features_gdb s' = foldl (\<lambda>m nf. map_set (fst nf) [snd nf] m) (features_gdb ?s) ?fs"
    using sv_query_supported [OF w _ good, of demo_cfg demo_ops] by blast
  have "map_find (features_gdb s') ''b'' = Some ''-''"
    by (simp add: s'(2) map_find_def idle_stub_def)
  with s'(1) show ?thesis by blast
qed

end
