(* ===== verification/Sv_Invariant.thy ===== *)
theory Sv_Invariant
  imports Sv_Handlers
begin

text \<open>
  The invariant of the stub over every run of its state machine: the handlers, the dispatcher and the
  loops keep the shadow well-formed and the counter a position of the trace.
\<close>

section \<open>The invariant of the stub\<close>

subsection \<open>Programs on the connection\<close>

text \<open>The functions of the lower layers change the connection only.\<close>

lemma keeps_os_send [keeps_intros]: "keeps (\<lambda>s. dpi.more s = x) (os_send data)"
  by (auto simp: keeps_def os_send_def split: list.splits tx_event.splits)

lemma keeps_os_recv [keeps_intros]: "keeps (\<lambda>s. dpi.more s = x) (os_recv n flags)"
  by (auto simp: keeps_def os_recv_def split: list.splits rx_event.splits if_splits)

lemma keeps_dpi_accept [keeps_intros]: "keeps (\<lambda>s. dpi.more s = x) dpi_os_accept"
  by (auto simp: keeps_def dpi_os_accept_def split: list.splits client.splits)

lemma keeps_print_more [keeps_intros]: "keeps (\<lambda>s. dpi.more s = x) (print str)"
  unfolding print_def by (rule keeps_modifies) simp

lemma keeps_socket_send [keeps_intros]: "keeps (\<lambda>s. dpi.more s = x) (socket_send data flags)"
  unfolding socket_send_def Let_def by (intro keeps_intros)

lemma keeps_socket_recv [keeps_intros]: "keeps (\<lambda>s. dpi.more s = x) (socket_recv data flags)"
  unfolding socket_recv_def Let_def by (intro keeps_intros)

lemma keeps_accepts [keeps_intros]:
  "keeps (\<lambda>s. dpi.more s = x) socket_unix_accept"
  "keeps (\<lambda>s. dpi.more s = x) (socket_tcp_accept e)"
  unfolding socket_unix_accept_def socket_tcp_accept_def
  by (intro keeps_intros; auto intro!: keeps_intros split: client.split bool.split)+

lemma keeps_rsp_write [keeps_intros]: "keeps (\<lambda>s. dpi.more s = x) (rsp_write str)"
  unfolding rsp_write_def by (intro keeps_intros)

lemma keeps_rsp_write_chars [keeps_intros]: "keeps (\<lambda>s. dpi.more s = x) (rsp_write_chars cs k)"
  by (induction cs arbitrary: k) (simp_all add: keeps_intros)

lemma keeps_rsp_send_packet [keeps_intros]: "keeps (\<lambda>s. dpi.more s = x) (rsp_send_packet pkt ack)"
  unfolding rsp_send_packet_def by (intro keeps_intros)

lemma get_loop_more: "get_loop buffer str s = Some y \<Longrightarrow> dpi.more (snd y) = dpi.more s"
proof (rule get_loop.raw_induct [where P = "\<lambda>buffer str s y. dpi.more (snd y) = dpi.more s"])
  fix f y buffer str and s :: "'z dpi_scheme"
  assume IH: "\<And>buffer str s y. f buffer str s = Some y \<Longrightarrow> dpi.more (snd y) = dpi.more s"
    and eq: "bnd (socket_recv buffer 0) (\<lambda>(status, buffer') s1.
     let str' = str @ sv_string buffer' in
       if third_last str' \<noteq> CHR ''#'' then f buffer' str' s1 else returns str' s1) s = Some y"
  obtain r s' where y: "y = (r, s')" by (cases y)
  from eq show "dpi.more (snd y) = dpi.more s"
    unfolding y
    by (elim bnd_SomeE)
      (auto simp: Let_def dest!: IH keepsD [OF keeps_socket_recv [of "dpi.more s"]] split: if_splits)
qed

lemma keeps_get_loop [keeps_intros]: "keeps (\<lambda>s. dpi.more s = x) (get_loop buffer str)"
  using get_loop_more by (fastforce simp: keeps_def)

lemma keeps_rsp_get_packet [keeps_intros]: "keeps (\<lambda>s. dpi.more s = x) (rsp_get_packet ack)"
  unfolding rsp_get_packet_def Let_def by (intro keeps_intros)

subsection \<open>The handlers\<close>

text \<open>
  As long as the trace fits a queue, the shadow is well-formed and the counter is a position of the
  trace.
\<close>

definition stub_inv :: "stub_config \<Rightarrow> 'd stub \<Rightarrow> bool" where
  "stub_inv cfg s \<longleftrightarrow> (queue_ok (shd s) \<longrightarrow> shd_wf (SHADOW cfg) (shd s) \<and> position_ok (shd s))"

lemma shd_more: "dpi.more s = dpi.more t \<Longrightarrow> shd s = shd (t :: 'd stub)"
  by (cases s; cases t) simp

lemma keeps_lower:
  fixes m :: "('d stub, 'a) prog"
  assumes "\<And>x. keeps (\<lambda>s. dpi.more s = x) m"
  shows "keeps (stub_inv cfg) m"
proof (rule keepsI)
  fix s s' :: "'d stub" and r
  assume "stub_inv cfg s" "m s = Some (r, s')"
  moreover from this(2) have "shd s' = shd s"
    using keepsD [OF assms [of "dpi.more s"]] by (intro shd_more) auto
  ultimately show "stub_inv cfg s'"
    by (simp add: stub_inv_def)
qed

lemma keeps_on_shd:
  assumes "\<And>sh. length (s_trc (f sh)) = length (s_trc sh)"
    and "\<And>sh. shd_wf (SHADOW cfg) sh \<Longrightarrow> shd_wf (SHADOW cfg) (f sh)"
    and "\<And>sh. position_ok sh \<Longrightarrow> position_ok (f sh)"
  shows "keeps (stub_inv cfg) (on_shd f)"
  unfolding on_shd_def using assms
  by (intro keeps_modifies) (auto simp: stub_inv_def queue_ok_def)

lemma keeps_others [keeps_intros]:
  "keeps (stub_inv cfg) (set_state g)" "keeps (stub_inv cfg) (on_dut h)"
  "keeps (stub_inv cfg) (modifies (\<lambda>s. s\<lparr>features_gdb := k s\<rparr>))"
  "keeps (stub_inv cfg) (modifies (bf_update b))"
  unfolding set_state_def on_dut_def by (intro keeps_modifies; simp add: stub_inv_def)+

lemma shd_reg_write_frame [simp]:
  "s_cnt (shd_reg_write cfg i v s) = s_cnt s" "s_trc (shd_reg_write cfg i v s) = s_trc s"
  by (simp_all add: shd_reg_write_def)

lemma keeps_mem_shd [keeps_intros]: "keeps (stub_inv cfg) (on_shd (shd_mem_write (SHADOW cfg) adr dat))"
  by (rule keeps_on_shd) (simp_all add: shd_wf_mem_write position_ok_def)

lemma keeps_reg_shd [keeps_intros]: "keeps (stub_inv cfg) (on_shd (shd_reg_write (SHADOW cfg) i v))"
  by (rule keeps_on_shd) (simp_all add: shd_wf_reg_write position_ok_def)

lemma keeps_point_shd [keeps_intros]:
  "keeps (stub_inv cfg) (on_shd (\<lambda>sh. snd (point_insert p a k sh)))"
  "keeps (stub_inv cfg) (on_shd (\<lambda>sh. snd (point_remove p a k sh)))"
  by (rule keeps_on_shd; simp add: shd_wf_points position_ok_def)+

lemma keeps_sig_shd [keeps_intros]: "keeps (stub_inv cfg) (on_shd (s_sig_update g))"
  by (rule keeps_on_shd) (simp_all add: shd_wf_def position_ok_def)

lemma keeps_step_forward [keeps_intros]: "keeps (stub_inv cfg) (step_forward cfg ops)"
proof (rule keepsI)
  fix s s' and r
  assume inv: "stub_inv cfg s" and "step_forward cfg ops s = Some (r, s')"
  then consider "s' = s" | d sh where "s' = s\<lparr>dut := d, shd := sh\<rparr>"
      "rsp_forward_step (SHADOW cfg) (dut_step ops) (dut s, shd s) = Some (d, sh)"
    by (auto simp: step_forward_def split: option.splits)
  then show "stub_inv cfg s'"
  proof cases
    case 2
    have "shd_wf (SHADOW cfg) sh \<and> position_ok sh" if q: "queue_ok sh"
    proof -
      have "queue_ok (shd s)"
        using forward_step_mono [OF 2(2)] q by (simp add: queue_ok_def)
      then have "shd_wf (SHADOW cfg) (shd s)" "position_ok (shd s)"
        using inv by (simp_all add: stub_inv_def)
      from forward_step_keeps [OF this q 2(2)] show ?thesis by blast
    qed
    with 2(1) show ?thesis by (simp add: stub_inv_def)
  qed (use inv in simp)
qed

lemma keeps_step_backward [keeps_intros]: "keeps (stub_inv cfg) (step_backward cfg)"
proof (rule keepsI)
  fix s s' :: "'d stub" and r
  assume inv: "stub_inv cfg s" and "step_backward cfg s = Some (r, s')"
  then consider "s' = s" | sh where "s' = s\<lparr>shd := sh\<rparr>"
      "rsp_backward_step (SHADOW cfg) (shd s) = Some sh"
    by (auto simp: step_backward_def split: option.splits)
  then show "stub_inv cfg s'"
  proof cases
    case 2
    have "length (s_trc sh) = length (s_trc (shd s))"
      using 2(2) by (auto simp: rsp_backward_step_def backward_def bind_eq_Some_conv split: if_splits)
    with inv have "queue_ok sh \<Longrightarrow> shd_wf (SHADOW cfg) (shd s) \<and> position_ok (shd s)"
      by (simp add: stub_inv_def queue_ok_def)
    then have "queue_ok sh \<Longrightarrow> shd_wf (SHADOW cfg) sh \<and> position_ok sh"
      using backward_step_keeps(1) [OF _ _ 2(2)] by blast
    then show ?thesis
      using 2(1) by (simp add: stub_inv_def)
  qed (use inv in simp)
qed

lemma keeps_packets [keeps_intros]:
  "keeps (stub_inv cfg) get_packet" "keeps (stub_inv cfg) (send_packet str)"
  "keeps (stub_inv cfg) (reply str)" "keeps (stub_inv cfg) (socket_recv data flags)"
  "keeps (stub_inv cfg) socket_unix_accept" "keeps (stub_inv cfg) (socket_tcp_accept e)"
  unfolding reply_def get_packet_def send_packet_def
  by (intro keeps_intros keeps_lower)+

lemma keeps_replies [keeps_intros]:
  "keeps (stub_inv cfg) (rsp_stop_reply idx)" "keeps (stub_inv cfg) rsp_signal"
  "keeps (stub_inv cfg) stop_with_signal" "keeps (stub_inv cfg) current_signal"
  unfolding rsp_stop_reply_def rsp_signal_def stop_with_signal_def current_signal_def
  by (intro keeps_intros)+

lemma keeps_monitor [keeps_intros]: "keeps (stub_inv cfg) (rsp_query_monitor ops str)"
proof -
  have "keeps (stub_inv cfg) (fst (monitor_action ops str))"
    by (auto simp: monitor_action_def intro!: keeps_intros)
  then show ?thesis
    unfolding rsp_query_monitor_def rsp_query_monitor_reply_def
    by (auto split: prod.split intro!: keeps_intros)
qed

lemma keeps_queries [keeps_intros]:
  "keeps (stub_inv cfg) (rsp_query_supported str)" "keeps (stub_inv cfg) (query_cases cfg' ops pkt)"
  "keeps (stub_inv cfg) (rsp_query_packet cfg' ops)" "keeps (stub_inv cfg) rsp_verbose_packet"
  unfolding rsp_query_supported_def query_cases_def rsp_query_packet_def rsp_verbose_packet_def Let_def
  by (intro keeps_intros)+

lemma keeps_write_bytes [keeps_intros]: "keeps (stub_inv cfg) (write_bytes cfg ops str adr dat is)"
  by (induction "is" arbitrary: dat) (simp_all add: Let_def keeps_intros)

lemma keeps_write_regs [keeps_intros]: "keeps (stub_inv cfg) (write_regs cfg ops pkt val is)"
  by (induction "is" arbitrary: val) (simp_all add: Let_def write_reg_def keeps_intros)

lemma keeps_accesses [keeps_intros]:
  "keeps (stub_inv cfg) (rsp_mem_read cfg ops)" "keeps (stub_inv cfg) (rsp_mem_write cfg ops)"
  "keeps (stub_inv cfg) (rsp_reg_readall cfg ops)" "keeps (stub_inv cfg) (rsp_reg_writeall cfg ops)"
  "keeps (stub_inv cfg) (rsp_reg_readone cfg ops)" "keeps (stub_inv cfg) (rsp_reg_writeone cfg ops)"
  unfolding rsp_mem_read_def rsp_mem_write_def rsp_reg_readall_def rsp_reg_writeall_def
    rsp_reg_readone_def rsp_reg_writeone_def write_reg_def Let_def
  by (intro keeps_intros)+

lemma keeps_packet_signal [keeps_intros]: "keeps (stub_inv cfg) (packet_signal c pkt)"
  unfolding packet_signal_def by (intro keeps_intros)

lemma keeps_stub_session [keeps_intros]:
  "keeps (stub_inv cfg) rsp_point" "keeps (stub_inv cfg) (rsp_step cfg ops)"
  "keeps (stub_inv cfg) rsp_extended" "keeps (stub_inv cfg) (rsp_reset ops)"
  "keeps (stub_inv cfg) rsp_detach" "keeps (stub_inv cfg) rsp_kill"
  "keeps (stub_inv cfg) rsp_unsupported" "keeps (stub_inv cfg) (continue_signal pkt)"
  unfolding rsp_point_def rsp_step_def rsp_extended_def rsp_reset_def rsp_detach_def rsp_kill_def
    rsp_unsupported_def continue_signal_def Let_def
  by (intro keeps_intros)+

lemma keeps_command [keeps_intros]: "keeps (stub_inv cfg) (command cfg ops c)"
  unfolding command_def by (intro keeps_intros)

lemma keeps_peeks [keeps_intros]: "keeps (stub_inv cfg) peek_char" "keeps (stub_inv cfg) peek_command"
  unfolding peek_char_def peek_command_def by (intro keeps_intros)+

lemma keeps_stub_body:
  assumes "\<And>c. keeps (stub_inv cfg) (exec c)"
  shows "keeps (stub_inv cfg) (stub_body cfg ops exec call)"
  by (cases call) (simp_all add: stub_body_def keeps_intros assms)

lemma stub_exec_inv: "stub_exec cfg ops call s = Some y \<Longrightarrow> stub_inv cfg s \<longrightarrow> stub_inv cfg (snd y)"
proof (rule stub_exec.raw_induct [where P = "\<lambda>cfg ops call s y. stub_inv cfg s \<longrightarrow> stub_inv cfg (snd y)"])
  fix f y call and cfg :: stub_config and ops :: "'d dut_ops" and s :: "'d stub"
  assume IH: "\<And>cfg ops call s y. f cfg ops call s = Some y \<Longrightarrow> stub_inv cfg s \<longrightarrow> stub_inv cfg (snd y)"
    and eq: "stub_body cfg ops (f cfg ops) call s = Some y"
  have "keeps (stub_inv cfg) (f cfg ops c)" for c
    using IH by (fastforce simp: keeps_def)
  then have "keeps (stub_inv cfg) (stub_body cfg ops (f cfg ops) call)"
    by (rule keeps_stub_body)
  with eq show "stub_inv cfg s \<longrightarrow> stub_inv cfg (snd y)"
    by (cases y) (auto dest: keepsD)
qed

lemma keeps_stub_exec [keeps_intros]: "keeps (stub_inv cfg) (stub_exec cfg ops call)"
  using stub_exec_inv by (fastforce simp: keeps_def)

lemma gdb_fsm_inv: "gdb_fsm cfg ops ch s = Some y \<Longrightarrow> stub_inv cfg s \<longrightarrow> stub_inv cfg (snd y)"
proof (rule gdb_fsm.raw_induct [where P = "\<lambda>cfg ops ch s y. stub_inv cfg s \<longrightarrow> stub_inv cfg (snd y)"])
  fix f y ch and cfg :: stub_config and ops :: "'d dut_ops" and s :: "'d stub"
  assume IH: "\<And>cfg ops ch s y. f cfg ops ch s = Some y \<Longrightarrow> stub_inv cfg s \<longrightarrow> stub_inv cfg (snd y)"
    and eq: "bnd (socket_recv ch MSG_PEEK) (\<lambda>(status, ch').
     bnd (rsp_packet cfg ops ch') (\<lambda>_. f cfg ops ch')) s = Some y"
  have rec: "keeps (stub_inv cfg) (f cfg ops c)" for c
    using IH by (fastforce simp: keeps_def)
  have "keeps (stub_inv cfg) (bnd (socket_recv ch MSG_PEEK) (\<lambda>(status, ch').
     bnd (rsp_packet cfg ops ch') (\<lambda>_. f cfg ops ch')))"
    unfolding rsp_packet_def by (intro keeps_intros rec)
  with eq show "stub_inv cfg s \<longrightarrow> stub_inv cfg (snd y)"
    by (cases y) (auto dest: keepsD)
qed

lemma gdb_fsm_no_value: "gdb_fsm cfg ops ch s = Some y \<Longrightarrow> \<exists>e. fst y = Fail e"
proof (rule gdb_fsm.raw_induct [where P = "\<lambda>cfg ops ch s y. \<exists>e. fst y = Fail e"])
  fix f y ch and cfg :: stub_config and ops :: "'d dut_ops" and s :: "'d stub"
  assume IH: "\<And>cfg ops ch s y. f cfg ops ch s = Some y \<Longrightarrow> \<exists>e. fst y = Fail e"
    and eq: "bnd (socket_recv ch MSG_PEEK) (\<lambda>(status, ch').
     bnd (rsp_packet cfg ops ch') (\<lambda>_. f cfg ops ch')) s = Some y"
  obtain r s' where y: "y = (r, s')" by (cases y)
  from eq show "\<exists>e. fst y = Fail e"
    unfolding y by (elim bnd_SomeE) (auto elim!: bnd_SomeE dest!: IH)
qed

lemma stub_new_inv:
  assumes "stub_new os e cfg name s = Some (Val (), s1)"
  shows "stub_inv cfg s1"
proof -
  from assms have "shd s1 = shd_new (SHADOW cfg)"
    by (auto simp: stub_new_def on_shd_def elim!: seq_ValE split: prod.splits)
  then show ?thesis
    by (simp add: stub_inv_def shd_wf_new position_ok_def) (simp add: shd_new_def)
qed

text \<open>
  Property C14: the invariant of the whole stub.  After construction the state machine never returns;
  when it ends, by \<open>$finish\<close>, by waiting for ever or by an error, whatever packets arrived in whatever
  pieces and however often the processor was continued, stepped and stepped back, the shadow is
  well-formed and the counter is -1 with an empty trace or an index of the trace.
\<close>

theorem sv_stub_invariant:
  assumes "stub_new os e cfg name s = Some (Val (), s1)" and "gdb_fsm cfg ops [nul] s1 = Some (r, s')"
    and "length (s_trc (shd s')) < 2 ^ 31"
  shows "(\<exists>x. r = Fail x) \<and> shd_wf (SHADOW cfg) (shd s') \<and>
    (if s_cnt (shd s') = - 1 then s_trc (shd s') = []
     else unat (s_cnt (shd s')) < length (s_trc (shd s')))"
  using gdb_fsm_no_value [OF assms(2)] gdb_fsm_inv [OF assms(2)] stub_new_inv [OF assms(1)] assms(3)
  by (auto simp: stub_inv_def queue_ok_def position_ok_def)


section \<open>A concrete run\<close>

text \<open>A client that connects to a new stub and kills the simulation.\<close>

definition new_stub :: "unit stub" where
  "new_stub = \<lparr>rxq = [], txq = [], clients = [Client 4 True [Chunk (format_packet ''k'')]], sent = [],
     cout = [], sfd = 0, cfd = 0, stub_state = STUB_STATE_INIT, features_gdb = [], shd = shd_new demo_sv,
     dut = (), bf = [nul, nul]\<rparr>"

definition quiet_os :: os_setup where
  "quiet_os = \<lparr>errno_entry = 0, remove_ret = 0, remove_errno = 0, socket_ret = 3, socket_errno = 0,
     bind_ret = 0, bind_errno = 0, listen_ret = 0, listen_errno = 0\<rparr>"

lemma quiet_listen: "\<exists>out. socket_unix_listen quiet_os ''s'' s = Some (Val 3, s\<lparr>sfd := 3, cout := out\<rparr>)"
  by (intro exI)
    (simp add: socket_unix_listen_def seq_print sun_path_size_def quiet_os_def)

lemma quiet_accept:
  assumes "clients s = [Client 4 opt input]"
  shows "\<exists>out. socket_unix_accept s = Some (Val 4, s\<lparr>clients := [], cfd := 4, rxq := input, cout := out\<rparr>)"
  using assms
  by (intro exI) (simp add: socket_unix_accept_def seq_print dpi_os_accept_def bnd_def)

lemma new_stub_runs:
  "\<exists>s1. stub_new quiet_os 0 demo_cfg ''s'' new_stub = Some (Val (), s1) \<and> waiting ''k'' [] s1 \<and>
    bf s1 = [nul, nul] \<and> shd s1 = shd_new demo_sv"
proof -
  let ?s = "new_stub\<lparr>stub_state := STUB_STATE_INIT\<rparr>"
  obtain o1 where listen: "socket_unix_listen quiet_os ''s'' ?s = Some (Val 3, ?s\<lparr>sfd := 3, cout := o1\<rparr>)"
    using quiet_listen by blast
  let ?t = "?s\<lparr>sfd := 3, cout := o1\<rparr>"
  have "clients ?t = [Client 4 True [Chunk (format_packet ''k'')]]"
    by (simp add: new_stub_def)
  from quiet_accept [OF this] obtain o2 where accept: "socket_unix_accept ?t =
      Some (Val 4, ?t\<lparr>clients := [], cfd := 4, rxq := [Chunk (format_packet ''k'')], cout := o2\<rparr>)"
    by blast
  let ?u = "?t\<lparr>clients := [], cfd := 4, rxq := [Chunk (format_packet ''k'')], cout := o2\<rparr>"
  have "scan_port ''s'' = (0, 0)"
    by (simp add: scan_port_def)
  then have "stub_new quiet_os 0 demo_cfg ''s'' new_stub = Some (Val (), ?u\<lparr>shd := shd_new demo_sv\<rparr>)"
    by (simp add: stub_new_def set_state_def on_shd_def seq_def bnd_def modifies_def listen accept)
  moreover have "waiting ''k'' [] (?u\<lparr>shd := shd_new demo_sv\<rparr>)"
    by (simp add: waiting_def tx_wide_def buffer_size_def nul_def new_stub_def)
  ultimately show ?thesis
    by (intro exI [of _ "?u\<lparr>shd := shd_new demo_sv\<rparr>"]) (simp add: new_stub_def)
qed

theorem sv_stub_invariant_witness:
  "\<exists>s1 s'. stub_new quiet_os 0 demo_cfg ''s'' new_stub = Some (Val (), s1) \<and>
    gdb_fsm demo_cfg demo_ops [nul] s1 = Some (Fail (Exited 0), s') \<and> shd_wf demo_sv (shd s')"
proof -
  obtain s1 where s1: "stub_new quiet_os 0 demo_cfg ''s'' new_stub = Some (Val (), s1)" "waiting ''k'' [] s1"
      "bf s1 = [nul, nul]" "shd s1 = shd_new demo_sv"
    using new_stub_runs by blast
  let ?s' = "taken [] (s1\<lparr>bf := ''$k''\<rparr>)"
  have "rsp_packet demo_cfg demo_ops ''$'' s1 = Some (Fail (Exited 0), ?s')"
    using s1(2,3)
    by (simp add: rsp_packet_dispatch command_def rsp_kill_def get_packet_bnd [OF waiting_bf] fails_def)
  moreover have "socket_recv [nul] MSG_PEEK s1 = Some (Val (1, ''$''), s1)"
    using s1(2) socket_recv_piece [of s1 "format_packet ''k''" "[]" "[nul]"]
    by (simp add: waiting_def format_packet_def)
  ultimately have run: "gdb_fsm demo_cfg demo_ops [nul] s1 = Some (Fail (Exited 0), ?s')"
    by (subst gdb_fsm.simps) (simp add: bnd_def)
  have "length (s_trc (shd ?s')) < 2 ^ 31"
    by (simp add: s1(4)) (simp add: shd_new_def)
  from sv_stub_invariant [OF s1(1) run this] s1(1) run show ?thesis
    by auto
qed

end
