(* ===== verification/Sv_Run.thy ===== *)
theory Sv_Run
  imports Sv_Invariant
begin

text \<open>
  Running the processor from the packets: single steps, continuing to a stop, running backward, and
  the character of Ctrl+C, which the state machine never consumes.
\<close>

section \<open>Steps\<close>

text \<open>
  The packet s makes exactly one step forward of the shadow, with one instruction of the
  processor when the shadow is at the end of the trace, and is answered with the signal, the reason
  and, where the value of a register is expected, the number of the signal with unknown digits.
\<close>

theorem sv_step_packet:
  assumes "waiting ''s'' (with_ack s q) s" and "position_ok (shd s)" and "Suc (length (s_trc (shd s))) < 2 ^ 31"
  shows "\<exists>d sh s'. rsp_forward_step (SHADOW cfg) (dut_step ops) (dut s, shd s) = Some (d, sh) \<and>
    rsp_step cfg ops s = Some (Val (), s') \<and> shd s' = sh \<and> dut s' = d \<and>
    answered s (stop_text sh (scast (s_sig sh))) q s'"
proof -
  let ?s = "taken (with_ack s q) s"
  have "length (next_trace (dut_step ops) (dut s) (shd s)) < 2 ^ 31"
    using assms(3) by (simp add: next_trace_def)
  from forward_step_eq [OF assms(2) this, of "SHADOW cfg"] obtain d sh where
    step: "rsp_forward_step (SHADOW cfg) (dut_step ops) (dut s, shd s) = Some (d, sh)"
    by blast
  let ?t = "?s\<lparr>dut := d, shd := sh\<rparr>"
  have "step_forward cfg ops ?s = Some (Val (), ?t)"
    using step by (simp add: step_forward_def)
  moreover have "reply str ?t = Some (Val (), replied_with str q ?t)" for str
    using assms(1) by (rule taken_then_reply) (simp_all add: taken_def)
  then have "stop_with_signal ?t = Some (Val (), replied_with (stop_text sh (scast (s_sig sh))) q ?t)"
    by (simp add: stop_with_signal_def rsp_stop_reply_def reply_def bnd_def)
  ultimately have "rsp_step cfg ops s = Some (Val (), replied_with (stop_text sh (scast (s_sig sh))) q ?t)"
    unfolding rsp_step_def get_packet_bnd [OF assms(1)] by simp
  with step show ?thesis
    by (auto simp: answered_def)
qed

section \<open>Running to a stop\<close>

text \<open>Steps forward that leave no signal, and none but the last leaves a signal.\<close>

inductive passes ::
    "sv_config \<Rightarrow> ('d \<Rightarrow> sv_retired \<times> 'd) \<Rightarrow> nat \<Rightarrow> 'd \<times> gdb_shadow \<Rightarrow> 'd \<times> gdb_shadow \<Rightarrow> bool"
  for cfg dut_step where
  here: "passes cfg dut_step 0 ds ds"
| pass: "rsp_forward_step cfg dut_step ds = Some ds1 \<Longrightarrow> s_sig (snd ds1) = SIGNONE
    \<Longrightarrow> passes cfg dut_step n ds1 ds' \<Longrightarrow> passes cfg dut_step (Suc n) ds ds'"

text \<open>A call that finds nothing to read prints a message.\<close>

definition poll_text :: "int \<Rightarrow> string" where
  "poll_text e = ''DPI-C: RECV failed with errno = '' @ format_d e @ ''.'' @ newline"

definition polled :: "rx_event list \<Rightarrow> nat \<Rightarrow> int \<Rightarrow> 'd stub \<Rightarrow> 'd stub" where
  "polled q n e s = s\<lparr>rxq := q, cout := cout s @ concat (replicate n (poll_text e))\<rparr>"

lemma polled_simps [simp]:
  "stub_state (polled q n e s) = stub_state s" "shd (polled q n e s) = shd s" "dut (polled q n e s) = dut s"
  "rxq (polled q n e s) = q" "sent (polled q n e s) = sent s" "txq (polled q n e s) = txq s"
  "polled q n e (polled q' m e s) = polled q (m + n) e s" "acks (polled q n e s) = acks s"
  "tx_wide (polled q n e s) = tx_wide s"
  by (simp_all add: polled_def replicate_add acks_def tx_wide_def)

lemma polled_updates:
  "(polled q n e s)\<lparr>dut := d, shd := sh\<rparr> = polled q n e (s\<lparr>dut := d, shd := sh\<rparr>)"
  "(polled q n e s)\<lparr>shd := sh\<rparr> = polled q n e (s\<lparr>shd := sh\<rparr>)"
  by (simp_all add: polled_def)

lemma rxq_same: "rxq s = q \<Longrightarrow> s\<lparr>rxq := q\<rparr> = s"
  by (cases s) simp

lemma peek_char_quiet:
  "rxq s = RecvError e # q \<Longrightarrow> peek_char s = Some (Val [], polled q 1 e s)"
  "rxq s = [] \<Longrightarrow> peek_char s = Some (Val [], polled [] 1 EAGAIN s)"
proof -
  have "int_of_ssize (- 1) = - 1"
    using int_of_ssize_small [of "- 1"] by simp
  then have recv: "socket_recv [nul] (MSG_PEEK + MSG_DONTWAIT) s = Some (Val (- 1, [nul]), polled q 1 e s)"
    if "os_recv 1 (MSG_PEEK + MSG_DONTWAIT) s = Some (Val (- 1, [], e), s\<lparr>rxq := q\<rparr>)" for q e
    using that by (simp add: socket_recv_def bnd_def Let_def overwrite_def polled_def poll_text_def seq_print)
  show "peek_char s = Some (Val [], polled q 1 e s)" if "rxq s = RecvError e # q"
    using recv [of e q] that by (simp add: peek_char_def os_recv_def bnd_def)
  show "peek_char s = Some (Val [], polled [] 1 EAGAIN s)" if "rxq s = []"
    using recv [of EAGAIN "[]"] that rxq_same [OF that]
    by (simp add: peek_char_def os_recv_def bnd_def MSG_PEEK_def MSG_DONTWAIT_def bit_iff_odd)
qed

text \<open>One round of the loop, when the socket has nothing to read.\<close>

lemma continue_round:
  assumes "rsp_forward_step (SHADOW cfg) (dut_step ops) (dut s, shd s) = Some (d, sh)"
    and "rxq s = RecvError e # q"
  shows "stub_exec cfg ops Continue_loop s =
    (if s_sig sh = SIGNONE then stub_exec cfg ops Continue_loop (polled q 1 e (s\<lparr>dut := d, shd := sh\<rparr>))
     else Some (Val (), polled q 1 e (s\<lparr>dut := d, shd := sh\<rparr>)))"
proof -
  let ?s = "s\<lparr>dut := d, shd := sh\<rparr>"
  have step: "step_forward cfg ops s = Some (Val (), ?s)"
    using assms(1) by (simp add: step_forward_def)
  have peek: "peek_char ?s = Some (Val [], polled q 1 e ?s)"
    using assms(2) by (intro peek_char_quiet(1)) simp
  show ?thesis
    by (subst stub_exec.simps) (simp add: stub_body_def bnd_def step peek current_signal_def)
qed

lemma continue_passes:
  assumes "passes (SHADOW cfg) (dut_step ops) n ds ds'" and "ds = (dut s, shd s)"
    and "rxq s = replicate n (RecvError e) @ q"
  shows "stub_exec cfg ops Continue_loop s =
    stub_exec cfg ops Continue_loop (polled q n e (s\<lparr>dut := fst ds', shd := snd ds'\<rparr>))"
  using assms
proof (induction arbitrary: s rule: passes.induct)
  case (here ds)
  then show ?case by (simp add: polled_def rxq_same)
next
  case (pass ds ds1 n ds')
  let ?s = "polled (replicate n (RecvError e) @ q) 1 e (s\<lparr>dut := fst ds1, shd := snd ds1\<rparr>)"
  have "stub_exec cfg ops Continue_loop s = stub_exec cfg ops Continue_loop ?s"
    using pass.hyps(1,2) pass.prems
    by (subst continue_round [where d = "fst ds1" and sh = "snd ds1" and q = "replicate n (RecvError e) @ q"]) simp_all
  also have "\<dots> = stub_exec cfg ops Continue_loop (polled q n e (?s\<lparr>dut := fst ds', shd := snd ds'\<rparr>))"
    by (rule pass.IH) simp_all
  finally show ?case
    by (simp add: polled_updates)
qed

text \<open>The state in which the loop of a continue packet starts.\<close>

definition resumed :: "rx_event list \<Rightarrow> 'd stub \<Rightarrow> 'd stub" where
  "resumed q s = taken q (s\<lparr>bf := ''$c'', shd := (shd s)\<lparr>s_sig := SIGNONE\<rparr>\<rparr>)"

lemma resumed_simps [simp]:
  "dut (resumed q s) = dut s" "shd (resumed q s) = (shd s)\<lparr>s_sig := SIGNONE\<rparr>" "rxq (resumed q s) = q"
  "acks (resumed q s) = acks s" "sent (resumed q s) = sent s @ (if acks s then ''+'' else [])"
  "stub_state (resumed q s) = stub_state s"
  by (simp_all add: resumed_def acks_def)

lemma continue_packet:
  fixes s :: "'d stub"
  assumes "waiting ''c'' q s" and "length (bf s) = 2"
  shows "rsp_packet cfg ops ''$'' s =
    bnd (stub_exec cfg ops Continue_loop) (\<lambda>_. stop_with_signal) (resumed q s)"
proof -
  let ?s = "s\<lparr>bf := ''$c''\<rparr>"
  have "bnd (continue_signal ''c'') f (taken q ?s) = f () (resumed q s)" for f :: "unit \<Rightarrow> ('d, unit) handler"
    by (cases s) (simp add: continue_signal_def on_shd_def bnd_def modifies_def resumed_def taken_def acks_def)
  then show ?thesis
    by (simp add: rsp_packet_dispatch [OF assms] get_packet_bnd [OF waiting_bf [OF assms(1)]])
qed

lemma tx_wide_resumed:
  assumes "waiting pkt q s"
  shows "tx_wide (polled q' n e ((resumed q s)\<lparr>dut := d, shd := sh\<rparr>))"
proof -
  have "tx_wide s"
    using assms by (simp add: waiting_def)
  then show ?thesis
    by (rule tx_wide_drop [where n = "if acks s then 1 else 0"]) (simp add: resumed_def taken_def acks_def)
qed

lemma continue_reply:
  assumes "waiting ''c'' q0 s" and "length (bf s) = 2"
    and run: "stub_exec cfg ops Continue_loop (resumed q0 s) =
      Some (Val (), polled (with_ack s q) n e ((resumed q0 s)\<lparr>dut := d, shd := sh\<rparr>))"
  shows "\<exists>s'. rsp_packet cfg ops ''$'' s = Some (Val (), s') \<and> dut s' = d \<and> shd s' = sh \<and>
    answered s (stop_text sh (scast (s_sig sh))) q s'"
proof -
  let ?t = "polled (with_ack s q) n e ((resumed q0 s)\<lparr>dut := d, shd := sh\<rparr>)"
  have ack: "with_ack ?t q = with_ack s q"
    by (simp add: with_ack_def acks_def)
  have "stop_with_signal ?t = Some (Val (), replied_with (stop_text sh (scast (s_sig sh))) q ?t)"
    using stop_with_signal_ready [of ?t q] tx_wide_resumed [OF assms(1)] ack
    by simp
  then have "rsp_packet cfg ops ''$'' s = Some (Val (), replied_with (stop_text sh (scast (s_sig sh))) q ?t)"
    unfolding continue_packet [OF assms(1,2)] bnd_def run by simp
  then show ?thesis
    by (intro exI [of _ "replied_with (stop_text sh (scast (s_sig sh))) q ?t"]) (simp add: answered_def)
qed

text \<open>
  Property C15: continuing.  The packet c lets the processor run, one step after the other, until the
  first step that leaves a signal, however many steps that takes, when nothing arrives meanwhile; the
  client then gets the stop reply of that step, and the shadow is what the steps made of it.
\<close>

theorem sv_continue_packet:
  assumes "waiting ''c'' (replicate (Suc n) (RecvError EAGAIN) @ with_ack s q) s" and "length (bf s) = 2"
    and "passes (SHADOW cfg) (dut_step ops) n (dut s, (shd s)\<lparr>s_sig := SIGNONE\<rparr>) ds"
    and "rsp_forward_step (SHADOW cfg) (dut_step ops) ds = Some (d, sh)" and "s_sig sh \<noteq> SIGNONE"
  shows "\<exists>s'. rsp_packet cfg ops ''$'' s = Some (Val (), s') \<and> dut s' = d \<and> shd s' = sh \<and>
    answered s (stop_text sh (scast (s_sig sh))) q s'"
proof (rule continue_reply [OF assms(1,2)])
  let ?q = "RecvError EAGAIN # with_ack s q"
  let ?s = "resumed (replicate (Suc n) (RecvError EAGAIN) @ with_ack s q) s"
  let ?u = "polled ?q n EAGAIN (?s\<lparr>dut := fst ds, shd := snd ds\<rparr>)"
  have queue: "replicate (Suc n) (RecvError EAGAIN) @ with_ack s q = replicate n (RecvError EAGAIN) @ ?q"
    by (simp add: replicate_app_Cons_same)
  have "stub_exec cfg ops Continue_loop ?s = stub_exec cfg ops Continue_loop ?u"
    using assms(3) by (rule continue_passes) (simp_all only: resumed_simps queue)
  also have "\<dots> = Some (Val (), polled (with_ack s q) 1 EAGAIN (?u\<lparr>dut := d, shd := sh\<rparr>))"
    using continue_round [where s = ?u and d = d and sh = sh and e = EAGAIN and q = "with_ack s q"] assms(4,5) by simp
  also have "\<dots> = Some (Val (), polled (with_ack s q) (Suc n) EAGAIN (?s\<lparr>dut := d, shd := sh\<rparr>))"
    by (simp add: polled_updates)
  finally show "stub_exec cfg ops Continue_loop ?s =
    Some (Val (), polled (with_ack s q) (Suc n) EAGAIN (?s\<lparr>dut := d, shd := sh\<rparr>))" .
qed

section \<open>Running backward\<close>

text \<open>
  One round of the loop backward, and the rounds up to the first that leaves a signal.
\<close>

definition back_round :: "sv_config \<Rightarrow> gdb_shadow \<Rightarrow> gdb_shadow option" where
  "back_round cfg sh = rsp_backward_step cfg (sh\<lparr>s_sig := SIGNONE\<rparr>)"

inductive rewinds :: "sv_config \<Rightarrow> gdb_shadow \<Rightarrow> gdb_shadow \<Rightarrow> bool" for cfg where
  halt: "back_round cfg sh = Some sh' \<Longrightarrow> s_sig sh' \<noteq> SIGNONE \<Longrightarrow> rewinds cfg sh sh'"
| go: "back_round cfg sh = Some sh1 \<Longrightarrow> s_sig sh1 = SIGNONE \<Longrightarrow> rewinds cfg sh1 sh' \<Longrightarrow> rewinds cfg sh sh'"

text \<open>The entries between two positions are undone, the latest first.\<close>

definition undone :: "sv_config \<Rightarrow> gdb_shadow \<Rightarrow> nat \<Rightarrow> arch" where
  "undone cfg sh n = fold (a_revert cfg) (rev (drop n (take (applied sh) (s_trc sh)))) (view sh)"

definition rewound :: "sv_config \<Rightarrow> gdb_shadow \<Rightarrow> gdb_shadow \<Rightarrow> bool" where
  "rewound cfg sh sh' \<longleftrightarrow> shd_wf cfg sh' \<and> position_ok sh' \<and> s_trc sh' = s_trc sh \<and>
     applied sh' \<le> applied sh \<and> view sh' = undone cfg sh (applied sh')"

lemma undone_self: "undone cfg sh (applied sh) = view sh"
  by (simp add: undone_def)

lemma rewound_step:
  assumes "shd_wf cfg sh" and "position_ok sh" and "back_round cfg sh = Some sh'"
  shows "rewound cfg sh sh'" and "applied sh' = applied sh - 1"
proof -
  let ?sh = "sh\<lparr>s_sig := SIGNONE\<rparr>"
  have same: "applied ?sh = applied sh" "s_trc ?sh = s_trc sh" "view ?sh = view sh"
    by (simp_all add: applied_def)
  have "shd_wf cfg ?sh" "position_ok ?sh"
    using assms(1,2) by (simp_all add: shd_wf_def position_ok_def)
  from backward_step_keeps [OF this] assms(3)
  have keeps: "shd_wf cfg sh' \<and> position_ok sh'" "applied sh' = applied sh - 1" "s_trc sh' = s_trc sh"
      "view sh' = (if applied sh = 0 then view sh else a_revert cfg (s_trc sh ! (applied sh - 1)) (view sh))"
    unfolding same [symmetric] by (simp_all add: back_round_def)
  have "take (applied sh) (s_trc sh) = take (applied sh - 1) (s_trc sh) @ [s_trc sh ! (applied sh - 1)]"
    if "0 < applied sh"
  proof -
    have "applied sh - 1 < length (s_trc sh)"
      using that assms(2) by (auto simp: position_ok_def applied_def split: if_splits)
    from take_Suc_conv_app_nth [OF this] that show ?thesis by simp
  qed
  then have "view sh' = undone cfg sh (applied sh - 1)"
    using keeps(4) assms(2)
    by (auto simp: undone_def position_ok_def applied_def min_def split: if_splits)
  with keeps show "rewound cfg sh sh'"
    by (simp add: rewound_def)
  show "applied sh' = applied sh - 1" by (rule keeps(2))
qed

lemma drop_take_split:
  assumes "n \<le> m" and "m \<le> k" and "m \<le> length xs"
  shows "drop n (take k xs) = drop n (take m xs) @ drop m (take k xs)"
proof -
  have "take k xs = take m xs @ drop m (take k xs)"
    using append_take_drop_id [of m "take k xs"] assms(2) by (simp add: min_absorb1)
  then have "drop n (take k xs) = drop n (take m xs @ drop m (take k xs))"
    by (rule arg_cong)
  also have "\<dots> = drop n (take m xs) @ drop m (take k xs)"
    using assms by simp
  finally show ?thesis .
qed

lemma rewound_trans:
  assumes "rewound cfg sh sh1" and "rewound cfg sh1 sh2"
  shows "rewound cfg sh sh2"
proof -
  let ?n = "applied sh2" and ?m = "applied sh1" and ?k = "applied sh" and ?xs = "s_trc sh"
  have "?n \<le> ?m" "?m \<le> ?k" "?m \<le> length ?xs"
    using assms by (auto simp: rewound_def position_ok_def applied_def split: if_splits)
  then have "drop ?n (take ?k ?xs) = drop ?n (take ?m ?xs) @ drop ?m (take ?k ?xs)"
    by (rule drop_take_split)
  then have "undone cfg sh ?n = undone cfg sh1 ?n"
    using assms by (simp add: rewound_def undone_def)
  with assms \<open>?n \<le> ?m\<close> \<open>?m \<le> ?k\<close> show ?thesis
    by (simp add: rewound_def)
qed

lemma rewinds_rewound:
  "rewinds cfg sh sh' \<Longrightarrow> shd_wf cfg sh \<Longrightarrow> position_ok sh \<Longrightarrow> rewound cfg sh sh' \<and> s_sig sh' \<noteq> SIGNONE"
proof (induction rule: rewinds.induct)
  case (halt sh sh')
  then show ?case by (simp add: rewound_step(1))
next
  case (go sh sh1 sh')
  then have step: "rewound cfg sh sh1"
    by (intro rewound_step(1))
  then have "rewound cfg sh1 sh' \<and> s_sig sh' \<noteq> SIGNONE"
    using go.IH by (simp add: rewound_def)
  with rewound_trans [OF step] show ?case by blast
qed

text \<open>Every round goes back by one position or stops at the beginning.\<close>

lemma rewinds_total:
  "shd_wf cfg sh \<Longrightarrow> position_ok sh \<Longrightarrow> \<exists>sh'. rewinds cfg sh sh'"
proof (induction "applied sh" arbitrary: sh rule: less_induct)
  case less
  have "position_ok (sh\<lparr>s_sig := SIGNONE\<rparr>)"
    using less.prems(2) by (simp add: position_ok_def)
  from backward_step_eq [OF this] obtain sh1 where round: "back_round cfg sh = Some sh1"
    by (simp add: back_round_def)
  show ?case
  proof (cases "s_sig sh1 = SIGNONE")
    case False
    with round show ?thesis by (blast intro: rewinds.halt)
  next
    case True
    have "applied sh \<noteq> 0"
    proof
      assume "applied sh = 0"
      then have "s_cnt sh = - 1 \<or> s_cnt sh = 0"
        by (auto simp: applied_def unat_eq_0 split: if_splits)
      with round have "s_sig sh1 = SIGTRAP"
        by (auto simp: back_round_def rsp_backward_step_def)
      with True show False by (simp add: SIGTRAP_def SIGNONE_def)
    qed
    with rewound_step [OF less.prems round]
    have "applied sh1 < applied sh" "shd_wf cfg sh1" "position_ok sh1"
      by (simp_all add: rewound_def)
    from less.hyps [OF this] round True show ?thesis
      by (blast intro: rewinds.go)
  qed
qed

lemma backward_round:
  assumes "back_round (SHADOW cfg) (shd s) = Some sh" and "rxq s = []"
  shows "stub_exec cfg ops Backward_loop s =
    (if s_sig sh = SIGNONE then stub_exec cfg ops Backward_loop (polled [] 1 EAGAIN (s\<lparr>shd := sh\<rparr>))
     else Some (Val (), polled [] 1 EAGAIN (s\<lparr>shd := sh\<rparr>)))"
proof -
  let ?s = "s\<lparr>shd := sh\<rparr>"
  have step: "seq (on_shd (s_sig_update (\<lambda>_. SIGNONE))) (step_backward cfg) s = Some (Val (), ?s)"
    using assms(1) by (simp add: on_shd_def step_backward_def back_round_def)
  have peek: "peek_char ?s = Some (Val [], polled [] 1 EAGAIN ?s)"
    using assms(2) by (intro peek_char_quiet(2)) simp
  show ?thesis
    by (subst stub_exec.simps) (simp add: stub_body_def bnd_def step peek current_signal_def)
qed

lemma backward_runs:
  "rewinds (SHADOW cfg) sh sh' \<Longrightarrow> shd s = sh \<Longrightarrow> rxq s = [] \<Longrightarrow>
    \<exists>n. stub_exec cfg ops Backward_loop s = Some (Val (), polled [] n EAGAIN (s\<lparr>shd := sh'\<rparr>))"
proof (induction arbitrary: s rule: rewinds.induct)
  case (halt sh sh')
  then show ?case
    using backward_round [of cfg s sh' ops] by auto
next
  case (go sh sh1 sh')
  let ?s = "polled [] 1 EAGAIN (s\<lparr>shd := sh1\<rparr>)"
  have "stub_exec cfg ops Backward_loop s = stub_exec cfg ops Backward_loop ?s"
    using go.hyps go.prems backward_round [of cfg s sh1 ops] by simp
  moreover obtain n where "stub_exec cfg ops Backward_loop ?s =
      Some (Val (), polled [] n EAGAIN (?s\<lparr>shd := sh'\<rparr>))"
    using go.IH [of ?s] by auto
  ultimately show ?case
    by (auto simp: polled_updates)
qed

text \<open>
  Property C17: continuing backward always comes to an end when nothing arrives meanwhile: at the latest
  at the beginning of the trace a signal stops it.  The entries of the trace between the two positions
  are undone in reverse order, the trace itself and the processor stay as they are, and the client
  gets the stop reply.
\<close>

theorem sv_reverse_continue_ends:
  assumes "waiting ''bc'' [] s" and "length (bf s) = 2" and "\<not> acks s"
    and "shd_wf (SHADOW cfg) (shd s)" and "position_ok (shd s)"
  shows "\<exists>s'. rsp_packet cfg ops ''$'' s = Some (Val (), s') \<and> dut s' = dut s \<and>
    rewinds (SHADOW cfg) (shd s) (shd s') \<and> s_sig (shd s') \<noteq> SIGNONE \<and>
    s_trc (shd s') = s_trc (shd s) \<and> applied (shd s') \<le> applied (shd s) \<and>
    view (shd s') = undone (SHADOW cfg) (shd s) (applied (shd s')) \<and>
    answered s (stop_text (shd s') (scast (s_sig (shd s')))) [] s'"
proof -
  let ?s = "taken [] (s\<lparr>bf := ''$b''\<rparr>)"
  obtain sh where rew: "rewinds (SHADOW cfg) (shd s) sh"
    using rewinds_total [OF assms(4,5)] by blast
  note facts = rewinds_rewound [OF rew assms(4,5)]
  obtain n where run: "stub_exec cfg ops Backward_loop ?s = Some (Val (), polled [] n EAGAIN (?s\<lparr>shd := sh\<rparr>))"
    using backward_runs [OF rew, of ?s ops] by auto
  let ?t = "polled [] n EAGAIN (?s\<lparr>shd := sh\<rparr>)"
  have "tx_wide s"
    using assms(1) by (simp add: waiting_def)
  then have wide: "tx_wide ?t"
    by (rule tx_wide_drop [where n = "if acks s then 1 else 0"]) (simp add: taken_def acks_def)
  have "rxq ?t = with_ack ?t []"
    using assms(3) by (simp add: with_ack_def acks_def)
  from stop_with_signal_ready [OF wide this]
  have stop: "stop_with_signal ?t = Some (Val (), replied_with (stop_text sh (scast (s_sig sh))) [] ?t)"
    by simp
  have "rsp_packet cfg ops ''$'' s =
      bnd (stub_exec cfg ops Backward_loop) (\<lambda>_. stop_with_signal) ?s"
    by (simp add: rsp_packet_dispatch [OF assms(1,2)] get_packet_bnd [OF waiting_bf [OF assms(1)]])
  then have "rsp_packet cfg ops ''$'' s = Some (Val (), replied_with (stop_text sh (scast (s_sig sh))) [] ?t)"
    by (simp add: bnd_def run stop)
  with facts rew assms(3) show ?thesis
    by (intro exI [of _ "replied_with (stop_text sh (scast (s_sig sh))) [] ?t"])
      (simp add: answered_def rewound_def acks_def)
qed

section \<open>Ctrl+C\<close>

definition interrupted :: "'d stub \<Rightarrow> bool" where
  "interrupted s \<longleftrightarrow> (\<exists>c q. rxq s = Chunk (CHR 0x03 # c) # q)"

lemma interrupted_peek:
  assumes "interrupted s" and "length ch = 1"
  shows "socket_recv ch MSG_PEEK s = Some (Val (1, [CHR 0x03]), s)"
proof -
  have one: "int_of_ssize 1 = 1"
    using int_of_ssize_small [of 1] by simp
  show ?thesis
    using assms by (auto simp: interrupted_def socket_recv_def os_recv_def bnd_def Let_def one
        overwrite_0 MSG_PEEK_def bit_iff_odd length_Suc_conv)
qed

lemma interrupted_peek_char:
  assumes "interrupted s"
  shows "peek_char s = Some (Val [CHR 0x03], s)"
proof -
  have one: "int_of_ssize 1 = 1"
    using int_of_ssize_small [of 1] by simp
  show ?thesis
    using assms by (auto simp: interrupted_def peek_char_def socket_recv_def os_recv_def bnd_def Let_def one
        overwrite_0 MSG_PEEK_def MSG_DONTWAIT_def bit_iff_odd)
qed

lemma interrupt_round:
  assumes "step_forward cfg ops s = Some (Val (), s1)" and "interrupted s1"
  shows "stub_exec cfg ops Continue_loop s = Some (Val (), s1\<lparr>shd := (shd s1)\<lparr>s_sig := SIGINT\<rparr>\<rparr>)"
proof -
  have "SIGINT \<noteq> SIGNONE"
    by (simp add: SIGINT_def SIGNONE_def)
  then show ?thesis
    by (subst stub_exec.simps)
      (simp add: stub_body_def bnd_def assms(1) interrupted_peek_char [OF assms(2)] current_signal_def
        on_shd_def modifies_def)
qed

lemma rsp_packet_ignores: "rsp_packet cfg ops [CHR 0x03] s = Some (Val (), s)"
  unfolding rsp_packet_def by (subst stub_exec.simps) (simp add: stub_body_def)

lemma gdb_fsm_interrupted:
  "gdb_fsm cfg ops ch s = Some y \<Longrightarrow> \<not> (interrupted s \<and> length ch = 1)"
proof (rule gdb_fsm.raw_induct [where P = "\<lambda>cfg ops ch s y. \<not> (interrupted s \<and> length ch = 1)"])
  fix f y ch and cfg :: stub_config and ops :: "'d dut_ops" and s :: "'d stub"
  assume IH: "\<And>cfg ops ch s y. f cfg ops ch s = Some y \<Longrightarrow> \<not> (interrupted s \<and> length ch = 1)"
    and eq: "bnd (socket_recv ch MSG_PEEK) (\<lambda>(status, ch').
     bnd (rsp_packet cfg ops ch') (\<lambda>_. f cfg ops ch')) s = Some y"
  show "\<not> (interrupted s \<and> length ch = 1)"
  proof
    assume int: "interrupted s \<and> length ch = 1"
    then have "f cfg ops [CHR 0x03] s = Some y"
      using eq by (simp add: bnd_def interrupted_peek rsp_packet_ignores)
    then show False
      using IH int by fastforce
  qed
qed

text \<open>
  Property C18: the character of Ctrl+C, without acknowledgements.  A running processor is stopped after
  the step that is under way, and the client gets a stop reply with SIGINT, whatever signal the step
  left.  But the character is only looked at and never consumed: from then on, and also when it arrives
  while the processor stands, \<open>gdb_fsm\<close> meets it for ever and handles no further packet.
\<close>

theorem sv_interrupt_stuck:
  assumes "waiting ''c'' (replicate n (RecvError EAGAIN) @ Chunk (CHR 0x03 # c) # q) s" and "length (bf s) = 2"
    and "\<not> acks s"
    and "passes (SHADOW cfg) (dut_step ops) n (dut s, (shd s)\<lparr>s_sig := SIGNONE\<rparr>) ds"
    and "rsp_forward_step (SHADOW cfg) (dut_step ops) ds = Some (d, sh)"
  shows "\<exists>s'. rsp_packet cfg ops ''$'' s = Some (Val (), s') \<and> dut s' = d \<and> shd s' = sh\<lparr>s_sig := SIGINT\<rparr> \<and>
    answered s (stop_text (sh\<lparr>s_sig := SIGINT\<rparr>) (scast SIGINT)) (Chunk (CHR 0x03 # c) # q) s' \<and>
    gdb_fsm cfg ops ''$'' s' = None"
proof -
  let ?q = "Chunk (CHR 0x03 # c) # q"
  let ?s = "resumed (replicate n (RecvError EAGAIN) @ ?q) s"
  let ?u = "polled ?q n EAGAIN (?s\<lparr>dut := fst ds, shd := snd ds\<rparr>)"
  let ?v = "polled ?q n EAGAIN (?s\<lparr>dut := d, shd := sh\<rparr>)"
  let ?sh = "sh\<lparr>s_sig := SIGINT\<rparr>"
  have run: "stub_exec cfg ops Continue_loop ?s = Some (Val (), polled ?q n EAGAIN (?s\<lparr>dut := d, shd := ?sh\<rparr>))"
  proof -
    have "stub_exec cfg ops Continue_loop ?s = stub_exec cfg ops Continue_loop ?u"
      using assms(4) by (rule continue_passes) simp_all
    also have "\<dots> = Some (Val (), ?v\<lparr>shd := ?sh\<rparr>)"
    proof -
      have step: "step_forward cfg ops ?u = Some (Val (), ?v)"
        using assms(5) by (simp add: step_forward_def polled_updates)
      have "interrupted ?v"
        by (simp add: interrupted_def)
      from interrupt_round [OF step this] show ?thesis by simp
    qed
    finally show ?thesis
      by (simp add: polled_updates)
  qed
  have "with_ack s ?q = ?q"
    using assms(3) by (simp add: with_ack_def)
  with continue_reply [OF assms(1,2), where cfg = cfg and ops = ops and q = ?q and n = n and e = EAGAIN and d = d and sh = ?sh] run
  obtain s' where s': "rsp_packet cfg ops ''$'' s = Some (Val (), s')" "dut s' = d" "shd s' = ?sh"
      "answered s (stop_text ?sh (scast SIGINT)) ?q s'"
    by auto
  then have "gdb_fsm cfg ops ''$'' s' = None"
    using gdb_fsm_interrupted [of cfg ops "''$''" s']
    by (cases "gdb_fsm cfg ops ''$'' s'") (auto simp: interrupted_def answered_def)
  with s' show ?thesis by blast
qed

section \<open>Concrete runs\<close>

text \<open>The counting processor of \<open>Sv_Steps\<close>, with a breakpoint at its second instruction.\<close>

definition run_ops :: "nat dut_ops" where
  "run_ops = \<lparr>dut_reset_assert = id, dut_reset_release = id, dut_step = demo_dut,
     dut_reg_read = (\<lambda>_ _. 0), dut_reg_write = (\<lambda>_ _ d. d), sv_dut_mem_read = (\<lambda>_ _. 0),
     sv_dut_mem_write = (\<lambda>_ _ d. d)\<rparr>"

definition run_shadow :: gdb_shadow where
  "run_shadow = snd (point_insert hwbreak 4 4 ((shd_new demo_sv)\<lparr>s_sig := SIGNONE\<rparr>))"

lemma replay_points [simp]:
  "s_bpt (replay cfg r s) = s_bpt s" "s_wpt (replay cfg r s) = s_wpt s" "s_sig (replay cfg r s) = s_sig s"
  by (simp_all add: replay_def shd_mem_write_def split: option.split)

lemma match_points [simp]:
  "s_bpt (match_current s) = s_bpt s" "s_wpt (match_current s) = s_wpt s"
  by (simp_all add: match_current_def breakpoint_match_def watchpoint_match_def Let_def split: option.split)

lemma run_shadow_simps [simp]:
  "s_cnt run_shadow = - 1" "s_trc run_shadow = []" "s_sig run_shadow = SIGNONE" "s_wpt run_shadow = []"
  "map_find (s_bpt run_shadow) a = (if a = 4 then Some \<lparr>sv_ptype = hwbreak, sv_pkind = 4\<rparr> else None)"
  by (simp_all add: run_shadow_def point_insert_def Let_def shd_new_def map_find_def ptype_defs)

lemma run_match:
  assumes "trc_at s (s_cnt s) = demo_entry n" and "s_wpt s = []" and "s_bpt s = s_bpt run_shadow"
  shows "s_sig (match_current s) = (if word_of_nat (4 * n) = (4 :: 32 word) then SIGTRAP else s_sig s)"
proof -
  let ?t = "s\<lparr>s_ret := demo_entry n\<rparr>"
  have entry: "ifu_ill (rt_ifu (demo_entry n)) = False" "ifu_adr (rt_ifu (demo_entry n)) = word_of_nat (4 * n)"
    by (simp_all add: demo_entry_def)
  have "stream_read 0 4 (ifu_rdt (rt_ifu (demo_entry n))) = [0x93, 0x80, 0x10, 0]"
    "stream_read 0 2 (ifu_rdt (rt_ifu (demo_entry n))) = [0x93, 0x80]"
    by (simp_all add: demo_entry_def stream_read_def byte_at_def upt_rec)
  then have break: "breakpoint_match (demo_entry n) ?t = (if word_of_nat (4 * n) = (4 :: 32 word)
      then ?t\<lparr>s_sig := SIGTRAP, s_rsn := \<lparr>sv_ptype = hwbreak, sv_pkind = 4\<rparr>\<rparr> else ?t)"
    using assms(3) by (simp add: breakpoint_match_def entry Let_def)
  have "watchpoint_match r t = t" if "s_wpt t = []" for r t
    using that by (simp add: watchpoint_match_def Let_def map_find_def)
  then show ?thesis
    using assms(2) by (simp add: match_current_def assms(1) break Let_def)
qed

lemma run_first:
  "\<exists>sh. rsp_forward_step demo_sv demo_dut (0, run_shadow) = Some (1, sh) \<and> s_sig sh = SIGNONE \<and>
    s_cnt sh = 0 \<and> s_trc sh = [demo_entry 0] \<and> s_wpt sh = [] \<and> s_bpt sh = s_bpt run_shadow \<and> position_ok sh"
proof -
  have nt: "next_trace demo_dut 0 run_shadow = [demo_entry 0]"
    by (simp add: next_trace_def demo_dut_def)
  have pos: "position_ok run_shadow"
    by (simp add: position_ok_def)
  let ?sh = "match_current (run_shadow\<lparr>s_trc := [demo_entry 0], s_cnt := 0\<rparr>)"
  have "rsp_forward_step demo_sv demo_dut (0, run_shadow) = Some (1, ?sh)"
    using forward_step_eq [OF pos, of demo_dut 0 demo_sv] by (simp add: nt demo_dut_def)
  moreover have "s_sig ?sh = SIGNONE"
    by (subst run_match [of _ 0]) (simp_all add: trc_at_def)
  ultimately show ?thesis
    by (intro exI [of _ ?sh]) (simp add: position_ok_def)
qed

lemma run_second:
  assumes "s_sig sh = SIGNONE" "s_cnt sh = 0" "s_trc sh = [demo_entry 0]" "s_wpt sh = []"
    "s_bpt sh = s_bpt run_shadow" "position_ok sh"
  shows "\<exists>sh'. rsp_forward_step demo_sv demo_dut (1, sh) = Some (2, sh') \<and> s_sig sh' = SIGTRAP \<and> s_cnt sh' = 1"
proof -
  have nt: "next_trace demo_dut (Suc 0) sh = [demo_entry 0, demo_entry 1]"
    using assms(2,3) by (simp add: next_trace_def demo_dut_def applied_def)
  let ?sh = "match_current ((replay demo_sv (demo_entry 0) sh)\<lparr>s_trc := [demo_entry 0, demo_entry 1], s_cnt := 1\<rparr>)"
  have "rsp_forward_step demo_sv demo_dut (1, sh) = Some (2, ?sh)"
    using forward_step_eq [OF assms(6), of demo_dut "Suc 0" demo_sv] assms(2,3) nt by (simp add: demo_dut_def)
  moreover have "s_sig ?sh = SIGTRAP"
    by (subst run_match [of _ 1]) (simp_all add: trc_at_def assms)
  ultimately show ?thesis
    by (intro exI [of _ ?sh]) simp
qed

theorem sv_continue_packet_witness:
  "\<exists>s'. rsp_packet demo_cfg run_ops ''$'' (idle_stub 0 run_shadow
      [Chunk (format_packet ''c''), RecvError EAGAIN, RecvError EAGAIN]) = Some (Val (), s') \<and>
    dut s' = 2 \<and> s_sig (shd s') = SIGTRAP \<and> s_cnt (shd s') = 1"
proof -
  let ?s = "idle_stub 0 run_shadow [Chunk (format_packet ''c''), RecvError EAGAIN, RecvError EAGAIN] :: nat stub"
  obtain sh where sh: "rsp_forward_step demo_sv demo_dut (0, run_shadow) = Some (1, sh)" "s_sig sh = SIGNONE"
      "s_cnt sh = 0" "s_trc sh = [demo_entry 0]" "s_wpt sh = []" "s_bpt sh = s_bpt run_shadow" "position_ok sh"
    using run_first by blast
  obtain sh' where sh': "rsp_forward_step demo_sv demo_dut (1, sh) = Some (2, sh')" "s_sig sh' = SIGTRAP" "s_cnt sh' = 1"
    using run_second [OF sh(2-7)] by blast
  have same: "run_shadow\<lparr>s_sig := SIGNONE\<rparr> = run_shadow"
    by (simp add: run_shadow_def point_insert_def Let_def)
  have ops: "dut_step run_ops = demo_dut"
    by (simp add: run_ops_def)
  have steps: "passes (SHADOW demo_cfg) (dut_step run_ops) 1 (dut ?s, (shd ?s)\<lparr>s_sig := SIGNONE\<rparr>) (1, sh)"
    using sh(1,2) by (auto simp: same ops intro: passes.intros)
  have w: "waiting ''c'' (replicate (Suc 1) (RecvError EAGAIN) @ with_ack ?s []) ?s"
    using idle_waiting [of "''c''" "[RecvError EAGAIN, RecvError EAGAIN]" 0 run_shadow]
    by (simp add: nul_def)
  have stop: "rsp_forward_step (SHADOW demo_cfg) (dut_step run_ops) (1, sh) = Some (2, sh')" "s_sig sh' \<noteq> SIGNONE"
    using sh' by (simp_all add: ops SIGTRAP_def SIGNONE_def)
  from sv_continue_packet [OF w _ steps stop] sh' show ?thesis by auto
qed

theorem sv_step_packet_witness:
  "\<exists>s'. rsp_step demo_cfg run_ops (idle_stub 0 run_shadow [Chunk (format_packet ''s'')]) = Some (Val (), s') \<and>
    dut s' = 1 \<and> s_cnt (shd s') = 0"
proof -
  let ?s = "idle_stub 0 run_shadow [Chunk (format_packet ''s'')] :: nat stub"
  have ops: "dut_step run_ops = demo_dut"
    by (simp add: run_ops_def)
  have "waiting ''s'' (with_ack ?s []) ?s"
    using idle_waiting [of "''s''" "[]" 0 run_shadow] by (simp add: nul_def)
  from sv_step_packet [OF this, of demo_cfg run_ops] run_first show ?thesis
    by (fastforce simp: ops position_ok_def)
qed

theorem sv_interrupt_stuck_witness:
  "\<exists>s'. rsp_packet demo_cfg run_ops ''$'' (idle_stub 0 run_shadow
      [Chunk (format_packet ''c''), Chunk [CHR 0x03]]) = Some (Val (), s') \<and> s_sig (shd s') = SIGINT \<and>
    gdb_fsm demo_cfg run_ops ''$'' s' = None"
proof -
  let ?s = "idle_stub 0 run_shadow [Chunk (format_packet ''c''), Chunk [CHR 0x03]] :: nat stub"
  obtain sh where sh: "rsp_forward_step demo_sv demo_dut (0, run_shadow) = Some (1, sh)"
    using run_first by blast
  have same: "run_shadow\<lparr>s_sig := SIGNONE\<rparr> = run_shadow"
    by (simp add: run_shadow_def point_insert_def Let_def)
  have ops: "dut_step run_ops = demo_dut"
    by (simp add: run_ops_def)
  have w: "waiting ''c'' (replicate 0 (RecvError EAGAIN) @ Chunk (CHR 0x03 # []) # []) ?s"
    using idle_waiting [of "''c''" "[Chunk [CHR 0x03]]" 0 run_shadow] by (simp add: nul_def)
  have steps: "passes (SHADOW demo_cfg) (dut_step run_ops) 0 (dut ?s, (shd ?s)\<lparr>s_sig := SIGNONE\<rparr>) (0, run_shadow)"
    by (simp add: same passes.here)
  have stop: "rsp_forward_step (SHADOW demo_cfg) (dut_step run_ops) (0, run_shadow) = Some (1, sh)"
    using sh by (simp add: ops)
  from sv_interrupt_stuck [OF w _ _ steps stop] show ?thesis by auto
qed

text \<open>Backward from the second entry of a trace.\<close>

theorem sv_reverse_continue_ends_witness:
  "\<exists>s'. rsp_packet demo_cfg run_ops ''$'' (idle_stub 2
      ((shd_new demo_sv)\<lparr>s_trc := [demo_entry 0, demo_entry 1], s_cnt := 1\<rparr>) [Chunk (format_packet ''bc'')])
      = Some (Val (), s') \<and>
    s_sig (shd s') \<noteq> SIGNONE \<and> s_trc (shd s') = [demo_entry 0, demo_entry 1] \<and> applied (shd s') \<le> 1"
proof -
  let ?sh = "(shd_new demo_sv)\<lparr>s_trc := [demo_entry 0, demo_entry 1], s_cnt := 1\<rparr>"
  let ?s = "idle_stub 2 ?sh [Chunk (format_packet ''bc'')] :: nat stub"
  have w: "waiting ''bc'' [] ?s"
    by (intro idle_waiting) (simp_all add: nul_def)
  have shadow: "shd_wf (SHADOW demo_cfg) (shd ?s)" "position_ok (shd ?s)"
    using shd_wf_new [of demo_sv] by (simp_all add: shd_wf_def position_ok_def)
  have rest: "length (bf ?s) = 2" "\<not> acks ?s"
    by simp_all
  obtain s' where s': "rsp_packet demo_cfg run_ops ''$'' ?s = Some (Val (), s')" "s_sig (shd s') \<noteq> SIGNONE"
      "s_trc (shd s') = s_trc (shd ?s)" "applied (shd s') \<le> applied (shd ?s)"
    using sv_reverse_continue_ends [OF w rest shadow, of run_ops] by blast
  moreover have "s_trc (shd ?s) = [demo_entry 0, demo_entry 1]" "applied (shd ?s) = 1"
    by (simp_all add: applied_def)
  ultimately show ?thesis by metis
qed

end
