(* ===== verification/Sv_Session.thy ===== *)
theory Sv_Session
  imports Sv_Queries Sv_Run
begin

text \<open>
  A whole session against an abstract specification.  The debugger sees a target: bytes of memory,
  registers, breakpoints and watchpoints, the reason of the last stop and the acknowledge mode.  The
  specification says what each command does to the target and what its reply is; the state machine
  of the stub, fed with the packets of any list of commands, implements it.
\<close>

section \<open>The specification\<close>

record target =
  t_mem :: "32 word \<Rightarrow> byte"
  t_reg :: "32 word \<Rightarrow> logic"
  t_brk :: "32 word \<Rightarrow> sv_point option"
  t_wch :: "32 word \<Rightarrow> sv_point option"
  t_stop :: string
  t_ack :: bool

text \<open>Numbers are the digits of the packet.\<close>

datatype request =
    Read_memory string string
  | Write_memory string string "byte list"
  | Read_registers
  | Read_register string
  | Write_register string "32 word"
  | Why_stopped
  | No_ack_mode
  | Set_point string string string
  | Clear_point string string string
  | Unknown string

definition number :: "string \<Rightarrow> 32 word" where
  "number ds = word_of_nat (hex_number ds)"

fun request_text :: "request \<Rightarrow> string" where
  "request_text (Read_memory da dl) = range_packet (CHR ''m'') da dl []"
| "request_text (Write_memory da dl bs) = range_packet (CHR ''M'') da dl (CHR '':'' # hex_text bs)"
| "request_text Read_registers = ''g''"
| "request_text (Read_register di) = CHR ''p'' # di"
| "request_text (Write_register di w) = CHR ''P'' # di @ CHR ''='' # hex_text (le_enc w)"
| "request_text Why_stopped = ''?''"
| "request_text No_ack_mode = ''QStartNoAckMode''"
| "request_text (Set_point dt da dk) = point_text (CHR ''Z'') dt da dk"
| "request_text (Clear_point dt da dk) = point_text (CHR ''z'') dt da dk"
| "request_text (Unknown pkt) = pkt"

text \<open>Commands that the stub knows; the others get an empty reply.\<close>

definition known_commands :: string where
  "known_commands = ''mMgGpPsS?QqvzZ!RDkcCb''"

fun well_formed :: "stub_config \<Rightarrow> request \<Rightarrow> bool" where
  "well_formed cfg (Read_memory da dl) \<longleftrightarrow> digits8 da \<and> digits8 dl \<and> hex_number dl < 2 ^ 30"
| "well_formed cfg (Write_memory da dl bs) \<longleftrightarrow> digits8 da \<and> digits8 dl \<and> hex_number dl = length bs"
| "well_formed cfg (Read_register di) \<longleftrightarrow> digits di"
| "well_formed cfg (Write_register di w) \<longleftrightarrow> digits di \<and> has_register (SHADOW cfg) (number di)"
| "well_formed cfg (Set_point dt da dk) \<longleftrightarrow> digits dt \<and> digits8 da \<and> digits dk"
| "well_formed cfg (Clear_point dt da dk) \<longleftrightarrow> digits dt \<and> digits8 da \<and> digits dk"
| "well_formed cfg (Unknown pkt) \<longleftrightarrow> pkt \<noteq> [] \<and> hd pkt \<notin> set known_commands \<and> nul \<notin> set pkt"
| "well_formed cfg _ \<longleftrightarrow> True"

definition admissible :: "stub_config \<Rightarrow> request \<Rightarrow> bool" where
  "admissible cfg c \<longleftrightarrow> well_formed cfg c \<and> length (request_text c) + 4 \<le> buffer_size"

definition point_update ::
    "32 word \<Rightarrow> 32 word \<Rightarrow> sv_point option \<Rightarrow> target \<Rightarrow> target" where
  "point_update ptype addr p t =
     (if ptype \<in> {swbreak, hwbreak} then t\<lparr>t_brk := (t_brk t)(addr := p)\<rparr>
      else if ptype \<in> {watch, rwatch, awatch} then t\<lparr>t_wch := (t_wch t)(addr := p)\<rparr>
      else t)"

fun effect :: "request \<Rightarrow> target \<Rightarrow> target" where
  "effect (Write_memory da dl bs) t = t\<lparr>t_mem := (\<lambda>x.
     if unat (x - number da) < length bs then bs ! unat (x - number da) else t_mem t x)\<rparr>"
| "effect (Write_register di w) t = t\<lparr>t_reg := (t_reg t)(number di := of_bits w)\<rparr>"
| "effect No_ack_mode t = t\<lparr>t_ack := False\<rparr>"
| "effect (Set_point dt da dk) t =
     point_update (number dt) (number da) (Some \<lparr>sv_ptype = number dt, sv_pkind = number dk\<rparr>) t"
| "effect (Clear_point dt da dk) t = point_update (number dt) (number da) None t"
| "effect _ t = t"

text \<open>The reply; breakpoint packets have none, and a single register is echoed behind its packet.\<close>

fun answer :: "stub_config \<Rightarrow> request \<Rightarrow> target \<Rightarrow> string option" where
  "answer cfg (Read_memory da dl) t =
     Some (hex_text (map (\<lambda>i. t_mem t (number da + word_of_nat i)) [0 ..< hex_number dl]))"
| "answer cfg (Write_memory da dl bs) t = Some ''OK''"
| "answer cfg Read_registers t =
     Some (concat (map (\<lambda>i. format_08h (swap_logic (t_reg t (word_of_nat i)))) [0 ..< REGN cfg]))"
| "answer cfg (Read_register di) t = Some (CHR ''p'' # di @ format_08h (swap_logic (t_reg t (number di))))"
| "answer cfg (Write_register di w) t = Some ''OK''"
| "answer cfg Why_stopped t = Some (t_stop t)"
| "answer cfg No_ack_mode t = Some ''OK''"
| "answer cfg (Set_point dt da dk) t = None"
| "answer cfg (Clear_point dt da dk) t = None"
| "answer cfg (Unknown pkt) t = Some []"

text \<open>
  What the client sends in a session that ends with the packet k, and what it gets: in acknowledge
  mode packets and replies are acknowledged.
\<close>

definition ack_text :: "bool \<Rightarrow> string" where
  "ack_text ack = (if ack then ''+'' else [])"

definition ack_event :: "bool \<Rightarrow> string option \<Rightarrow> rx_event list" where
  "ack_event ack r = (if ack \<and> r \<noteq> None then [Chunk ''+''] else [])"

definition reply_text :: "string option \<Rightarrow> string" where
  "reply_text r = (case r of None \<Rightarrow> [] | Some str \<Rightarrow> format_packet str)"

fun client :: "stub_config \<Rightarrow> request list \<Rightarrow> target \<Rightarrow> rx_event list" where
  "client cfg [] t = [Chunk (format_packet ''k'')]"
| "client cfg (c # cs) t = Chunk (format_packet (request_text c)) #
     ack_event (t_ack t) (answer cfg c t) @ client cfg cs (effect c t)"

fun transcript :: "stub_config \<Rightarrow> request list \<Rightarrow> target \<Rightarrow> string" where
  "transcript cfg [] t = ack_text (t_ack t)"
| "transcript cfg (c # cs) t =
     ack_text (t_ack t) @ reply_text (answer cfg c t) @ transcript cfg cs (effect c t)"

section \<open>The abstraction\<close>

definition target_of :: "stub_config \<Rightarrow> 'd stub \<Rightarrow> target" where
  "target_of cfg s = \<lparr>t_mem = a_byte (SHADOW cfg) (view (shd s)), t_reg = shd_reg_read (SHADOW cfg) (shd s),
     t_brk = map_find (s_bpt (shd s)), t_wch = map_find (s_wpt (shd s)),
     t_stop = stop_text (shd s) (- 1), t_ack = acks s\<rparr>"

text \<open>States between two packets, with the debugger reading from the shadow.\<close>

definition at_rest :: "stub_config \<Rightarrow> 'd stub \<Rightarrow> bool" where
  "at_rest cfg s \<longleftrightarrow> shd_wf (SHADOW cfg) (shd s) \<and> \<not> memory (stub_state s) \<and> \<not> register (stub_state s) \<and>
     tx_wide s \<and> length (bf s) = 2"

text \<open>The packet of a request is handled as the specification says.\<close>

definition serves :: "stub_config \<Rightarrow> 'd dut_ops \<Rightarrow> request \<Rightarrow> rx_event list \<Rightarrow> 'd stub \<Rightarrow> bool" where
  "serves cfg ops c q s \<longleftrightarrow> (\<exists>s'. rsp_packet cfg ops ''$'' s = Some (Val (), s') \<and> at_rest cfg s' \<and>
     rxq s' = q \<and> target_of cfg s' = effect c (target_of cfg s) \<and> s_sig (shd s') = s_sig (shd s) \<and>
     sent s' = sent s @ ack_text (acks s) @ reply_text (answer cfg c (target_of cfg s)))"

section \<open>One request\<close>

lemma digits_no_nul: "digits8 ds \<Longrightarrow> nul \<notin> set ds" "digits ds \<Longrightarrow> nul \<notin> set ds"
  using hex_not_special(6) by (auto simp: digits8_def digits_def)

lemma hex_text_no_nul: "nul \<notin> set (hex_text bs)"
  using hex_text_hex [of bs] hex_not_special(6) by blast

lemma request_no_nul: "well_formed cfg c \<Longrightarrow> nul \<notin> set (request_text c)"
  by (cases c) (auto simp: range_packet_def point_text_def digits_no_nul hex_text_no_nul nul_def [symmetric],
    auto simp: nul_def)

text \<open>The event of a request is at the head of the input, behind it the acknowledgement of its reply.\<close>

definition requested :: "stub_config \<Rightarrow> request \<Rightarrow> rx_event list \<Rightarrow> 'd stub \<Rightarrow> bool" where
  "requested cfg c q s \<longleftrightarrow> at_rest cfg s \<and> admissible cfg c \<and>
     rxq s = Chunk (format_packet (request_text c)) #
       ack_event (acks s) (answer cfg c (target_of cfg s)) @ q"

definition dispatched :: "char \<Rightarrow> 'd stub \<Rightarrow> 'd stub" where
  "dispatched c s = s\<lparr>bf := [CHR ''$'', c]\<rparr>"

lemma dispatched_simps [simp]:
  "stub_state (dispatched c s) = stub_state s" "shd (dispatched c s) = shd s" "dut (dispatched c s) = dut s"
  "rxq (dispatched c s) = rxq s" "sent (dispatched c s) = sent s" "txq (dispatched c s) = txq s"
  "bf (dispatched c s) = [CHR ''$'', c]" "acks (dispatched c s) = acks s" "tx_wide (dispatched c s) = tx_wide s"
  "with_ack (dispatched c s) q = with_ack s q" "target_of cfg (dispatched c s) = target_of cfg s"
  "stub_byte cfg ops (dispatched c s) = stub_byte cfg ops s" "stub_reg cfg ops (dispatched c s) = stub_reg cfg ops s"
  by (simp_all add: dispatched_def acks_def tx_wide_def with_ack_def target_of_def stub_byte_def stub_reg_def fun_eq_iff)

lemma requested_waiting:
  assumes "requested cfg c q s" and "request_text c = x # pkt"
  shows "waiting (x # pkt) (ack_event (acks s) (answer cfg c (target_of cfg s)) @ q) s"
  using assms request_no_nul [of cfg c]
  by (auto simp: requested_def waiting_def admissible_def at_rest_def)

lemma requested_command:
  assumes "requested cfg c q s" and "request_text c = x # pkt" and "x \<notin> set ''cCb''"
  shows "rsp_packet cfg ops ''$'' s = command cfg ops x (dispatched x s)"
proof -
  have "length (bf s) = 2"
    using assms(1) by (simp add: requested_def at_rest_def)
  with rsp_packet_dispatch [OF requested_waiting [OF assms(1,2)]] assms(3) show ?thesis
    by (simp add: dispatched_def)
qed

lemma requested_reply:
  assumes "requested cfg c q s" and "request_text c = x # pkt" and "answer cfg c (target_of cfg s) = Some str"
  shows "waiting (x # pkt) (with_ack (dispatched x s) q) (dispatched x s)"
  using requested_waiting [OF assms(1,2)] assms(3)
  by (simp add: waiting_def ack_event_def with_ack_def)

lemma at_rest_drop:
  assumes "at_rest cfg s" and "shd_wf (SHADOW cfg) (shd t)" and "memory (stub_state t) = memory (stub_state s)"
    and "register (stub_state t) = register (stub_state s)" and "txq t = drop n (txq s)" and "length (bf t) = 2"
  shows "at_rest cfg t"
  using assms tx_wide_drop [of s t n] by (simp add: at_rest_def)

lemma replied_queue:
  "txq (replied_with str q ((taken q' s)\<lparr>dut := d, shd := sh\<rparr>)) =
    drop (length str + 3 + (if acks s then 1 else 0)) (txq s)"
  by (simp add: replied_with_def taken_def)

lemma target_of_cong:
  "shd s = shd t \<Longrightarrow> acks s = acks t \<Longrightarrow> target_of cfg s = target_of cfg t"
  by (simp add: target_of_def)

text \<open>A request with a reply: what the handler leaves behind is the effect on the shadow.\<close>

lemma served:
  assumes req: "requested cfg c q s" and form: "request_text c = x # pkt" and x: "x \<notin> set ''cCb''"
    and ans: "answer cfg c (target_of cfg s) = Some str"
    and run: "command cfg ops x (dispatched x s) = Some (Val (),
      replied_with str q ((taken (with_ack s q) (dispatched x s))\<lparr>dut := d, shd := sh\<rparr>))"
    and wf: "shd_wf (SHADOW cfg) sh" and sig: "s_sig sh = s_sig (shd s)"
    and eff: "target_of cfg (s\<lparr>shd := sh\<rparr>) = effect c (target_of cfg s)"
  shows "serves cfg ops c q s"
proof -
  let ?s' = "replied_with str q ((taken (with_ack s q) (dispatched x s))\<lparr>dut := d, shd := sh\<rparr>)"
  have "at_rest cfg (dispatched x s)"
    using req by (simp add: requested_def at_rest_def)
  then have "at_rest cfg ?s'"
    by (rule at_rest_drop [OF _ _ _ _ replied_queue]) (simp_all add: wf)
  moreover have "target_of cfg ?s' = effect c (target_of cfg s)"
    unfolding eff [symmetric] by (rule target_of_cong) (simp_all add: acks_def)
  moreover have "rsp_packet cfg ops ''$'' s = Some (Val (), ?s')"
    using requested_command [OF req form x] run by simp
  ultimately show ?thesis
    unfolding serves_def by (intro exI [of _ ?s']) (simp add: ans sig ack_text_def reply_text_def)
qed

text \<open>A request that only reads.\<close>

lemma served_read:
  assumes req: "requested cfg c q s" and form: "request_text c = x # pkt" and x: "x \<notin> set ''cCb''"
    and ans: "answer cfg c (target_of cfg s) = Some str"
    and run: "command cfg ops x (dispatched x s) =
      Some (Val (), replied_with str q (taken (with_ack s q) (dispatched x s)))"
    and eff: "effect c (target_of cfg s) = target_of cfg s"
  shows "serves cfg ops c q s"
proof (rule served [OF req form x ans, where d = "dut s" and sh = "shd s"])
  have same: "(taken q' (dispatched x s))\<lparr>dut := dut s, shd := shd s\<rparr> = taken q' (dispatched x s)" for q'
    by (cases s) (simp add: taken_def dispatched_def)
  show "command cfg ops x (dispatched x s) = Some (Val (),
      replied_with str q ((taken (with_ack s q) (dispatched x s))\<lparr>dut := dut s, shd := shd s\<rparr>))"
    unfolding same by (rule run)
  show "shd_wf (SHADOW cfg) (shd s)"
    using req by (simp add: requested_def at_rest_def)
  show "target_of cfg (s\<lparr>shd := shd s\<rparr>) = effect c (target_of cfg s)"
    unfolding eff by (rule target_of_cong) (simp_all add: acks_def)
qed (rule refl)

subsection \<open>Memory\<close>

lemma at_rest_byte: "at_rest cfg s \<Longrightarrow> stub_byte cfg ops s x = t_mem (target_of cfg s) x"
  by (simp add: at_rest_def stub_byte_shadow target_of_def)

lemma at_rest_reg: "at_rest cfg s \<Longrightarrow> stub_reg cfg ops s i = t_reg (target_of cfg s) i"
  by (simp add: at_rest_def stub_reg_def target_of_def)

lemma serves_read_memory:
  assumes "requested cfg (Read_memory da dl) q s"
  shows "serves cfg ops (Read_memory da dl) q s"
proof (rule served_read [OF assms])
  show form: "request_text (Read_memory da dl) = CHR ''m'' # da @ CHR '','' # dl @ []"
    by (simp add: range_packet_def)
  show ans: "answer cfg (Read_memory da dl) (target_of cfg s) =
      Some (hex_text (map (\<lambda>i. stub_byte cfg ops s (number da + word_of_nat i)) [0 ..< hex_number dl]))"
    using assms by (simp add: requested_def at_rest_byte)
  have "digits8 da" "digits8 dl" "hex_number dl < 2 ^ 30"
    using assms by (simp_all add: requested_def admissible_def)
  moreover have "waiting (range_packet (CHR ''m'') da dl []) (with_ack (dispatched (CHR ''m'') s) q) (dispatched (CHR ''m'') s)"
    using requested_reply [OF assms form ans] by (simp add: range_packet_def)
  ultimately show "command cfg ops (CHR ''m'') (dispatched (CHR ''m'') s) = Some (Val (), replied_with
      (hex_text (map (\<lambda>i. stub_byte cfg ops s (number da + word_of_nat i)) [0 ..< hex_number dl])) q
      (taken (with_ack s q) (dispatched (CHR ''m'') s)))"
    using rsp_mem_read_reply [of da dl "dispatched (CHR ''m'') s" q cfg ops]
    by (simp add: command_def number_def)
qed simp_all

lemma reg_read_mem_write: "shd_reg_read cfg (shd_mem_write cfg' a dat sh) = shd_reg_read cfg sh"
  by (rule ext) (simp add: shd_reg_read_def shd_mem_write_def split: option.split)

lemma stop_text_cong:
  "s_sig sh = s_sig sh' \<Longrightarrow> s_rsn sh = s_rsn sh' \<Longrightarrow> s_ret sh = s_ret sh' \<Longrightarrow> s_cnt sh = s_cnt sh'
    \<Longrightarrow> stop_text sh idx = stop_text sh' idx"
  unfolding stop_text_def by (simp only:)

lemma mem_write_others:
  "s_bpt (shd_mem_write cfg a dat sh) = s_bpt sh" "s_wpt (shd_mem_write cfg a dat sh) = s_wpt sh"
  by (simp_all add: shd_mem_write_def split: option.split)

lemma sig_writes:
  "s_sig (shd_writes cfg a bs is sh) = s_sig sh" "s_sig (shd_reg_write cfg i w sh) = s_sig sh"
  "s_sig (snd (point_insert p a k sh)) = s_sig sh" "s_sig (snd (point_remove p a k sh)) = s_sig sh"
proof -
  have "s_sig (shd_mem_write cfg a dat sh) = s_sig sh" for a dat sh
    by (simp add: shd_mem_write_def split: option.split)
  then show "s_sig (shd_writes cfg a bs is sh) = s_sig sh"
    unfolding shd_writes_def by (induction "is" arbitrary: sh) simp_all
qed (simp_all add: shd_reg_write_def point_insert_def point_remove_def Let_def)

lemma stop_text_mem_write: "stop_text (shd_mem_write cfg a dat sh) idx = stop_text sh idx"
  by (rule stop_text_cong) (simp_all add: shd_mem_write_def split: option.split)

lemma shd_writes_others:
  "shd_reg_read cfg (shd_writes cfg' a bs is sh) = shd_reg_read cfg sh"
  "s_bpt (shd_writes cfg' a bs is sh) = s_bpt sh" "s_wpt (shd_writes cfg' a bs is sh) = s_wpt sh"
  "stop_text (shd_writes cfg' a bs is sh) idx = stop_text sh idx"
  unfolding shd_writes_def
  by (induction "is" arbitrary: sh) (simp_all add: reg_read_mem_write mem_write_others stop_text_mem_write)

lemma serves_write_memory:
  assumes "requested cfg (Write_memory da dl bs) q s"
  shows "serves cfg ops (Write_memory da dl bs) q s"
proof (rule served [OF assms])
  let ?sh = "shd_writes (SHADOW cfg) (number da) bs [0 ..< length bs] (shd s)"
  let ?d = "dut_writes ops (number da) bs [0 ..< length bs] (dut s)"
  show form: "request_text (Write_memory da dl bs) = CHR ''M'' # da @ CHR '','' # dl @ CHR '':'' # hex_text bs"
    by (simp add: range_packet_def)
  show ans: "answer cfg (Write_memory da dl bs) (target_of cfg s) = Some ''OK''" by simp
  have num: "digits8 da" "digits8 dl" "hex_number dl = length bs" and wf: "shd_wf (SHADOW cfg) (shd s)"
    using assms by (simp_all add: requested_def admissible_def at_rest_def)
  have w: "waiting (range_packet (CHR ''M'') da dl (CHR '':'' # hex_text bs))
      (with_ack (dispatched (CHR ''M'') s) q) (dispatched (CHR ''M'') s)"
    using requested_reply [OF assms form ans] by (simp add: range_packet_def)
  then show "command cfg ops (CHR ''M'') (dispatched (CHR ''M'') s) = Some (Val (), replied_with ''OK'' q
      ((taken (with_ack s q) (dispatched (CHR ''M'') s))\<lparr>dut := ?d, shd := ?sh\<rparr>))"
    using rsp_mem_write_apply [OF w num, of cfg ops] by (simp add: command_def number_def)
  show "shd_wf (SHADOW cfg) ?sh"
    using wf by (rule shd_wf_writes)
  show "s_sig ?sh = s_sig (shd s)" by (rule sig_writes)
  have "length bs < 2 ^ 32"
    using w by (simp add: waiting_def range_packet_def buffer_size_def)
  then show "target_of cfg (s\<lparr>shd := ?sh\<rparr>) = effect (Write_memory da dl bs) (target_of cfg s)"
    using wf by (simp add: target_of_def shd_writes_others written_bytes fun_eq_iff acks_def)
qed simp

subsection \<open>Registers and the stop reply\<close>

lemma serves_read_registers:
  assumes "requested cfg Read_registers q s"
  shows "serves cfg ops Read_registers q s"
proof (rule served_read [OF assms])
  show form: "request_text Read_registers = CHR ''g'' # []" by simp
  show ans: "answer cfg Read_registers (target_of cfg s) = Some (concat (map (\<lambda>i.
      format_08h (swap_logic (stub_reg cfg ops s (word_of_nat i)))) [0 ..< REGN cfg]))"
    using assms by (simp add: requested_def at_rest_reg)
  show "command cfg ops (CHR ''g'') (dispatched (CHR ''g'') s) = Some (Val (), replied_with (concat (map (\<lambda>i.
      format_08h (swap_logic (stub_reg cfg ops s (word_of_nat i)))) [0 ..< REGN cfg])) q
      (taken (with_ack s q) (dispatched (CHR ''g'') s)))"
    using rsp_reg_readall_reply [OF requested_reply [OF assms form ans], of cfg ops]
    by (simp add: command_def)
qed simp_all

lemma serves_read_register:
  assumes "requested cfg (Read_register di) q s"
  shows "serves cfg ops (Read_register di) q s"
proof (rule served_read [OF assms])
  show form: "request_text (Read_register di) = CHR ''p'' # di" by simp
  show ans: "answer cfg (Read_register di) (target_of cfg s) =
      Some (CHR ''p'' # di @ format_08h (swap_logic (stub_reg cfg ops s (number di))))"
    using assms by (simp add: requested_def at_rest_reg)
  have "digits di"
    using assms by (simp add: requested_def admissible_def)
  then show "command cfg ops (CHR ''p'') (dispatched (CHR ''p'') s) = Some (Val (), replied_with
      (CHR ''p'' # di @ format_08h (swap_logic (stub_reg cfg ops s (number di)))) q
      (taken (with_ack s q) (dispatched (CHR ''p'') s)))"
    using rsp_reg_readone_reply [OF requested_reply [OF assms form ans], of cfg ops]
    by (simp add: command_def number_def)
qed simp_all

lemma reg_write_others:
  "a_byte cfg (view (shd_reg_write cfg' i w sh)) = a_byte cfg (view sh)"
  "s_bpt (shd_reg_write cfg' i w sh) = s_bpt sh" "s_wpt (shd_reg_write cfg' i w sh) = s_wpt sh"
  by (simp_all add: fun_eq_iff a_byte_def a_read_def view_def shd_reg_write_def split: option.split)

lemma stop_text_reg_write: "stop_text (shd_reg_write cfg' i w sh) idx = stop_text sh idx"
  by (rule stop_text_cong) (simp_all add: shd_reg_write_def)

lemma serves_write_register:
  assumes "requested cfg (Write_register di w) q s"
  shows "serves cfg ops (Write_register di w) q s"
proof (rule served [OF assms])
  let ?sh = "shd_reg_write (SHADOW cfg) (number di) w (shd s)"
  let ?d = "dut_reg_write ops (number di) w (dut s)"
  show form: "request_text (Write_register di w) = CHR ''P'' # di @ CHR ''='' # hex_text (le_enc w)"
    by simp
  show ans: "answer cfg (Write_register di w) (target_of cfg s) = Some ''OK''" by simp
  have di: "digits di" "has_register (SHADOW cfg) (number di)" and wf: "shd_wf (SHADOW cfg) (shd s)"
    using assms by (simp_all add: requested_def admissible_def at_rest_def)
  show "command cfg ops (CHR ''P'') (dispatched (CHR ''P'') s) = Some (Val (), replied_with ''OK'' q
      ((taken (with_ack s q) (dispatched (CHR ''P'') s))\<lparr>dut := ?d, shd := ?sh\<rparr>))"
    using rsp_reg_writeone_apply [OF requested_reply [OF assms form ans] di(1), of cfg ops]
    by (simp add: command_def number_def)
  show "shd_wf (SHADOW cfg) ?sh"
    using wf by (rule shd_wf_reg_write)
  show "s_sig ?sh = s_sig (shd s)" by (rule sig_writes)
  show "target_of cfg (s\<lparr>shd := ?sh\<rparr>) = effect (Write_register di w) (target_of cfg s)"
    using reg_read_write [OF wf di(2), of w]
    by (simp add: target_of_def reg_write_others stop_text_reg_write acks_def fun_eq_iff)
qed simp

lemma serves_why_stopped:
  assumes "requested cfg Why_stopped q s"
  shows "serves cfg ops Why_stopped q s"
proof (rule served_read [OF assms])
  let ?s = "dispatched (CHR ''?'') s"
  show form: "request_text Why_stopped = CHR ''?'' # []" by simp
  show ans: "answer cfg Why_stopped (target_of cfg s) = Some (stop_text (shd s) (- 1))"
    by (simp add: target_of_def)
  note w = requested_reply [OF assms form ans]
  show "command cfg ops (CHR ''?'') ?s =
      Some (Val (), replied_with (stop_text (shd s) (- 1)) q (taken (with_ack s q) ?s))"
    using taken_reply [OF w]
    by (simp add: command_def rsp_signal_def seq_def bnd_assoc rsp_stop_reply_def reply_def get_packet_bnd [OF w])
qed simp_all

lemma serves_unknown:
  assumes "requested cfg (Unknown pkt) q s"
  shows "serves cfg ops (Unknown pkt) q s"
proof -
  have pkt: "pkt \<noteq> []" "hd pkt \<notin> set known_commands"
    using assms by (simp_all add: requested_def admissible_def)
  then obtain x str where form: "request_text (Unknown pkt) = x # str"
    by (cases pkt) simp_all
  then have x: "x \<notin> set known_commands"
    using pkt(2) by simp
  have ans: "answer cfg (Unknown pkt) (target_of cfg s) = Some []" by simp
  note w = requested_reply [OF assms form ans]
  have "command cfg ops x (dispatched x s) = rsp_unsupported (dispatched x s)"
    using x by (simp add: command_def known_commands_def)
  then have "command cfg ops x (dispatched x s) =
      Some (Val (), replied_with [] q (taken (with_ack s q) (dispatched x s)))"
    using taken_reply [OF w] by (simp add: rsp_unsupported_def get_packet_bnd [OF w])
  with x show ?thesis
    by (intro served_read [OF assms form _ ans]) (auto simp: known_commands_def)
qed

subsection \<open>Acknowledgements and points\<close>

lemma serves_no_ack:
  assumes "requested cfg No_ack_mode q s"
  shows "serves cfg ops No_ack_mode q s"
proof -
  let ?r = "dispatched (CHR ''Q'') s"
  let ?s' = "(replied_with ''OK'' q (taken (with_ack s q) ?r))\<lparr>stub_state := (stub_state s)\<lparr>acknowledge := False\<rparr>\<rparr>"
  have form: "request_text No_ack_mode = CHR ''Q'' # ''StartNoAckMode''" by simp
  have ans: "answer cfg No_ack_mode (target_of cfg s) = Some ''OK''" by simp
  have "command cfg ops (CHR ''Q'') ?r = Some (Val (), ?s')"
    using rsp_query_no_ack [OF requested_reply [OF assms form ans], of cfg ops] by (simp add: command_def)
  then have run: "rsp_packet cfg ops ''$'' s = Some (Val (), ?s')"
    using requested_command [OF assms form, of ops] by simp
  have rest: "at_rest cfg ?r"
    using assms by (simp add: requested_def at_rest_def)
  have "at_rest cfg ?s'"
    by (rule at_rest_drop [OF rest, where n = "2 + 3 + (if acks s then 1 else 0)"])
      (use rest in \<open>simp_all add: at_rest_def replied_with_def taken_def acks_def\<close>)
  with run show ?thesis
    unfolding serves_def
    by (intro exI [of _ ?s']) (simp add: ack_text_def reply_text_def target_of_def acks_def)
qed

text \<open>The two packets for points leave the shadow with one map changed.\<close>

lemma point_effect:
  assumes "shd_wf (SHADOW cfg) (shd s)"
  shows "target_of cfg (s\<lparr>shd := snd (point_insert ptype addr pkind (shd s))\<rparr>) =
      point_update ptype addr (Some \<lparr>sv_ptype = ptype, sv_pkind = pkind\<rparr>) (target_of cfg s)"
    and "target_of cfg (s\<lparr>shd := snd (point_remove ptype addr pkind (shd s))\<rparr>) =
      point_update ptype addr None (target_of cfg s)"
proof -
  have inv: "map_inv (s_bpt (shd s))" "map_inv (s_wpt (shd s))"
    using assms by (simp_all add: shd_wf_def)
  have keep: "a_byte (SHADOW cfg) (view ((shd s)\<lparr>s_bpt := b\<rparr>)) = a_byte (SHADOW cfg) (view (shd s))"
    "a_byte (SHADOW cfg) (view ((shd s)\<lparr>s_wpt := b\<rparr>)) = a_byte (SHADOW cfg) (view (shd s))"
    "shd_reg_read (SHADOW cfg) ((shd s)\<lparr>s_bpt := b\<rparr>) = shd_reg_read (SHADOW cfg) (shd s)"
    "shd_reg_read (SHADOW cfg) ((shd s)\<lparr>s_wpt := b\<rparr>) = shd_reg_read (SHADOW cfg) (shd s)"
    "stop_text ((shd s)\<lparr>s_bpt := b\<rparr>) idx = stop_text (shd s) idx"
    "stop_text ((shd s)\<lparr>s_wpt := b\<rparr>) idx = stop_text (shd s) idx" for b idx
    by (auto simp: view_def shd_reg_read_def fun_eq_iff intro: stop_text_cong)
  show "target_of cfg (s\<lparr>shd := snd (point_insert ptype addr pkind (shd s))\<rparr>) =
      point_update ptype addr (Some \<lparr>sv_ptype = ptype, sv_pkind = pkind\<rparr>) (target_of cfg s)"
    using inv by (auto simp: point_insert_def point_update_def target_of_def Let_def keep map_find_set acks_def fun_eq_iff)
  show "target_of cfg (s\<lparr>shd := snd (point_remove ptype addr pkind (shd s))\<rparr>) =
      point_update ptype addr None (target_of cfg s)"
    by (auto simp: point_remove_def point_update_def target_of_def Let_def keep map_find_erase acks_def fun_eq_iff)
qed

lemma served_silent:
  assumes req: "requested cfg c q s" and form: "request_text c = x # pkt" and x: "x \<in> set ''zZ''"
    and ans: "answer cfg c (target_of cfg s) = None"
    and run: "rsp_point (dispatched x s) = Some (Val (), (taken q (dispatched x s))\<lparr>shd := sh\<rparr>)"
    and wf: "shd_wf (SHADOW cfg) sh" and sig: "s_sig sh = s_sig (shd s)"
    and eff: "target_of cfg (s\<lparr>shd := sh\<rparr>) = effect c (target_of cfg s)"
  shows "serves cfg ops c q s"
proof -
  let ?s' = "(taken q (dispatched x s))\<lparr>shd := sh\<rparr>"
  have "command cfg ops x (dispatched x s) = Some (Val (), ?s')"
    using x run by (auto simp: command_def)
  then have "rsp_packet cfg ops ''$'' s = Some (Val (), ?s')"
    using requested_command [OF req form, of ops] x by auto
  moreover have "at_rest cfg (dispatched x s)"
    using req by (simp add: requested_def at_rest_def)
  then have "at_rest cfg ?s'"
    by (rule at_rest_drop [where n = "if acks s then 1 else 0"]) (simp_all add: wf, simp add: taken_def)
  moreover have "target_of cfg ?s' = effect c (target_of cfg s)"
    unfolding eff [symmetric] by (rule target_of_cong) (simp_all add: taken_def dispatched_def acks_def)
  ultimately show ?thesis
    unfolding serves_def by (intro exI [of _ ?s']) (simp add: ans sig ack_text_def reply_text_def)
qed

lemma serves_set_point:
  assumes "requested cfg (Set_point dt da dk) q s"
  shows "serves cfg ops (Set_point dt da dk) q s"
proof -
  let ?r = "dispatched (CHR ''Z'') s"
  let ?sh = "snd (point_insert (number dt) (number da) (number dk) (shd s))"
  have form: "request_text (Set_point dt da dk) = CHR ''Z'' # dt @ CHR '','' # da @ CHR '','' # dk"
    by (simp add: point_text_def)
  have num: "digits dt" "digits8 da" "digits dk" and wf: "shd_wf (SHADOW cfg) (shd s)"
    using assms by (simp_all add: requested_def admissible_def at_rest_def)
  have "waiting (CHR ''Z'' # dt @ CHR '','' # da @ CHR '','' # dk) q ?r"
    using requested_waiting [OF assms form] by (simp add: ack_event_def waiting_def)
  then have "rsp_point ?r = Some (Val (), (taken q ?r)\<lparr>shd := ?sh\<rparr>)"
    using scan_point [OF num]
    by (simp add: rsp_point_def get_packet_bnd Let_def num_at_def on_shd_def number_def del: sv_scanf.simps)
  with wf show ?thesis
    by (intro served_silent [OF assms form, where sh = ?sh]) (simp_all add: shd_wf_points point_effect sig_writes)
qed

lemma serves_clear_point:
  assumes "requested cfg (Clear_point dt da dk) q s"
  shows "serves cfg ops (Clear_point dt da dk) q s"
proof -
  let ?r = "dispatched (CHR ''z'') s"
  let ?sh = "snd (point_remove (number dt) (number da) (number dk) (shd s))"
  have form: "request_text (Clear_point dt da dk) = CHR ''z'' # dt @ CHR '','' # da @ CHR '','' # dk"
    by (simp add: point_text_def)
  have num: "digits dt" "digits8 da" "digits dk" and wf: "shd_wf (SHADOW cfg) (shd s)"
    using assms by (simp_all add: requested_def admissible_def at_rest_def)
  have "waiting (CHR ''z'' # dt @ CHR '','' # da @ CHR '','' # dk) q ?r"
    using requested_waiting [OF assms form] by (simp add: ack_event_def waiting_def)
  then have "rsp_point ?r = Some (Val (), (taken q ?r)\<lparr>shd := ?sh\<rparr>)"
    using scan_point [OF num]
    by (simp add: rsp_point_def get_packet_bnd Let_def num_at_def on_shd_def number_def del: sv_scanf.simps)
  with wf show ?thesis
    by (intro served_silent [OF assms form, where sh = ?sh]) (simp_all add: shd_wf_points point_effect sig_writes)
qed

lemmas serves_intros = serves_read_memory serves_write_memory serves_read_registers serves_read_register
  serves_write_register serves_why_stopped serves_no_ack serves_set_point serves_clear_point serves_unknown

lemma request_served: "requested cfg c q s \<Longrightarrow> serves cfg ops c q s"
  by (cases c) (simp_all add: serves_intros)

section \<open>The session\<close>

lemma acks_target [simp]: "t_ack (target_of cfg s) = acks s"
  by (simp add: target_of_def)

lemma gdb_fsm_packet:
  assumes "rxq s = Chunk (format_packet pkt) # q" and "length ch = 1"
  shows "gdb_fsm cfg ops ch s = bnd (rsp_packet cfg ops ''$'') (\<lambda>_. gdb_fsm cfg ops ''$'') s"
proof -
  have "socket_recv ch MSG_PEEK s = Some (Val (1, ''$''), s)"
    using socket_recv_piece [of s "format_packet pkt" q ch] assms by (simp add: format_packet_def)
  then show ?thesis
    by (subst gdb_fsm.simps) (simp add: bnd_def [of "socket_recv ch MSG_PEEK"])
qed

lemma session_end:
  assumes "at_rest cfg s" and "rxq s = [Chunk (format_packet ''k'')]" and "length ch = 1"
  shows "\<exists>s'. gdb_fsm cfg ops ch s = Some (Fail (Exited 0), s') \<and> rxq s' = [] \<and>
    target_of cfg s' = target_of cfg s \<and> sent s' = sent s @ ack_text (acks s)"
proof -
  have w: "waiting ''k'' [] s" and "length (bf s) = 2"
    using assms(1,2) by (simp_all add: waiting_def at_rest_def buffer_size_def nul_def)
  then have "rsp_packet cfg ops ''$'' s = Some (Fail (Exited 0), taken [] (dispatched (CHR ''k'') s))"
    by (simp add: rsp_packet_dispatch command_def rsp_kill_def fails_def dispatched_def
        get_packet_bnd [OF waiting_bf])
  with gdb_fsm_packet [OF assms(2,3), of cfg ops] show ?thesis
    by (intro exI [of _ "taken [] (dispatched (CHR ''k'') s)"]) (simp add: ack_text_def target_of_def)
qed

text \<open>
  Property C8: a whole session.  For any list of requests -- memory and registers read and written,
  breakpoints and watchpoints set and cleared, the last stop asked for, acknowledgements switched off,
  and packets the stub does not know -- the state machine takes the packets of the client one by one,
  leaves the target in the state the specification computes, writes exactly the transcript of the
  specification to the client, and ends when it is killed.
\<close>

theorem sv_session_refines:
  assumes "at_rest cfg s" and "\<forall>c \<in> set cs. admissible cfg c"
    and "rxq s = client cfg cs (target_of cfg s)" and "length ch = 1"
  shows "\<exists>s'. gdb_fsm cfg ops ch s = Some (Fail (Exited 0), s') \<and> rxq s' = [] \<and>
    target_of cfg s' = fold effect cs (target_of cfg s) \<and>
    sent s' = sent s @ transcript cfg cs (target_of cfg s)"
  using assms
proof (induction cs arbitrary: s ch)
  case Nil
  from session_end [OF Nil(1) Nil(3) [simplified] Nil(4)] show ?case by simp
next
  case (Cons c cs)
  have "requested cfg c (client cfg cs (effect c (target_of cfg s))) s"
    using Cons.prems by (simp add: requested_def)
  from request_served [OF this] obtain s1
    where s1: "rsp_packet cfg ops ''$'' s = Some (Val (), s1)" "at_rest cfg s1"
      "rxq s1 = client cfg cs (effect c (target_of cfg s))"
      "target_of cfg s1 = effect c (target_of cfg s)"
      "sent s1 = sent s @ ack_text (acks s) @ reply_text (answer cfg c (target_of cfg s))"
    unfolding serves_def by blast
  have "gdb_fsm cfg ops ch s = gdb_fsm cfg ops ''$'' s1"
    using Cons.prems(3,4) s1(1) by (subst gdb_fsm_packet) simp_all
  moreover have "\<exists>s'. gdb_fsm cfg ops ''$'' s1 = Some (Fail (Exited 0), s') \<and> rxq s' = [] \<and>
      target_of cfg s' = fold effect cs (target_of cfg s1) \<and>
      sent s' = sent s1 @ transcript cfg cs (target_of cfg s1)"
    using Cons.prems(2) s1(2-4) by (intro Cons.IH) simp_all
  ultimately show ?case
    using s1(4,5) by auto
qed

section \<open>Requests while the processor runs\<close>

lemma peek_char_packet:
  assumes "rxq s = Chunk (format_packet pkt) # q"
  shows "peek_char s = Some (Val ''$'', s)"
proof -
  have "int_of_ssize 1 = 1"
    using int_of_ssize_small [of 1] by simp
  then have "socket_recv [nul] (MSG_PEEK + MSG_DONTWAIT) s = Some (Val (1, ''$''), s)"
    using assms
    by (simp add: socket_recv_def os_recv_def bnd_def Let_def MSG_PEEK_def MSG_DONTWAIT_def bit_iff_odd
        overwrite_0 format_packet_def)
  then show ?thesis
    by (simp add: peek_char_def)
qed

lemma continue_request:
  assumes "rsp_forward_step (SHADOW cfg) (dut_step ops) (dut s, shd s) = Some (d, sh)"
    and "requested cfg c q (s\<lparr>dut := d, shd := sh\<rparr>)"
    and "rsp_packet cfg ops ''$'' (s\<lparr>dut := d, shd := sh\<rparr>) = Some (Val (), s')"
  shows "stub_exec cfg ops Continue_loop s =
    (if s_sig (shd s') = SIGNONE then stub_exec cfg ops Continue_loop s' else Some (Val (), s'))"
proof -
  let ?s = "s\<lparr>dut := d, shd := sh\<rparr>"
  have step: "step_forward cfg ops s = Some (Val (), ?s)"
    using assms(1) by (simp add: step_forward_def)
  have peek: "peek_char ?s = Some (Val ''$'', ?s)"
    using assms(2) by (intro peek_char_packet) (simp add: requested_def)
  have serve: "stub_exec cfg ops (Packet_call ''$'') ?s = Some (Val (), s')"
    using assms(3) by (simp add: rsp_packet_def)
  show ?thesis
    by (subst stub_exec.simps) (simp add: stub_body_def bnd_def step peek serve current_signal_def)
qed

text \<open>
  Property C16: requests while the processor runs.  When, after any number of steps with nothing to read, the
  packet of a request is there after a step, it is served between two instructions exactly as
  the specification says for the target of that moment; its reply is not mixed with anything else, and then the
  run goes on from the state the request left behind, or ends if the step had raised a signal.
\<close>

theorem sv_served_while_running:
  assumes "at_rest cfg s" and "passes (SHADOW cfg) (dut_step ops) n (dut s, shd s) ds"
    and "rsp_forward_step (SHADOW cfg) (dut_step ops) ds = Some (d, sh)" and "shd_wf (SHADOW cfg) sh"
    and "admissible cfg c" and "rxq s = replicate n (RecvError EAGAIN) @ Chunk (format_packet (request_text c)) #
      ack_event (acks s) (answer cfg c (target_of cfg (s\<lparr>shd := sh\<rparr>))) @ q"
  shows "\<exists>s'. stub_exec cfg ops Continue_loop s =
      (if s_sig sh = SIGNONE then stub_exec cfg ops Continue_loop s' else Some (Val (), s')) \<and>
    at_rest cfg s' \<and> rxq s' = q \<and> target_of cfg s' = effect c (target_of cfg (s\<lparr>shd := sh\<rparr>)) \<and>
    s_sig (shd s') = s_sig sh \<and>
    sent s' = sent s @ ack_text (acks s) @ reply_text (answer cfg c (target_of cfg (s\<lparr>shd := sh\<rparr>)))"
proof -
  let ?ans = "answer cfg c (target_of cfg (s\<lparr>shd := sh\<rparr>))"
  let ?q = "Chunk (format_packet (request_text c)) # ack_event (acks s) ?ans @ q"
  let ?u = "polled ?q n EAGAIN (s\<lparr>dut := fst ds, shd := snd ds\<rparr>)"
  let ?v = "?u\<lparr>dut := d, shd := sh\<rparr>"
  have acks: "acks ?v = acks s"
    by (simp add: acks_def)
  have same: "target_of cfg ?v = target_of cfg (s\<lparr>shd := sh\<rparr>)"
    by (rule target_of_cong) (simp_all add: acks_def)
  have "at_rest cfg ?v"
    using assms(1,4) by (simp add: at_rest_def polled_def tx_wide_def)
  then have req: "requested cfg c q ?v"
    using assms(5) by (simp add: requested_def same acks)
  from request_served [OF this] obtain s' where
    s': "rsp_packet cfg ops ''$'' ?v = Some (Val (), s')" "at_rest cfg s'" "rxq s' = q"
      "target_of cfg s' = effect c (target_of cfg ?v)" "s_sig (shd s') = s_sig (shd ?v)"
      "sent s' = sent ?v @ ack_text (acks ?v) @ reply_text (answer cfg c (target_of cfg ?v))"
    unfolding serves_def by blast
  have "stub_exec cfg ops Continue_loop s = stub_exec cfg ops Continue_loop ?u"
    using assms(2) refl assms(6) by (rule continue_passes)
  also have "\<dots> = (if s_sig (shd s') = SIGNONE then stub_exec cfg ops Continue_loop s' else Some (Val (), s'))"
    using assms(3) by (intro continue_request [OF _ req s'(1)]) simp
  finally show ?thesis
    using s'(2-6) unfolding same acks by (intro exI [of _ s']) simp
qed

text \<open>The breakpoint at 4 is removed while the processor runs towards it.\<close>

theorem sv_served_while_running_witness:
  "\<exists>s'. stub_exec demo_cfg run_ops Continue_loop (idle_stub 0 run_shadow [Chunk (format_packet ''z1,4,4'')]) =
      stub_exec demo_cfg run_ops Continue_loop s' \<and>
    t_brk (target_of demo_cfg s') 4 = None \<and> rxq s' = [] \<and> sent s' = []"
proof -
  let ?s = "idle_stub 0 run_shadow [Chunk (format_packet ''z1,4,4'')] :: nat stub"
  let ?c = "Clear_point ''1'' ''4'' ''4''"
  obtain sh where sh: "rsp_forward_step demo_sv demo_dut (0, run_shadow) = Some (1, sh)" "s_sig sh = SIGNONE"
      "s_trc sh = [demo_entry 0]"
    using run_first by blast
  have ops: "dut_step run_ops = demo_dut"
    by (simp add: run_ops_def)
  have wf: "shd_wf demo_sv run_shadow"
    unfolding run_shadow_def by (intro shd_wf_points) (simp add: shd_wf_new)
  then have "shd_wf demo_sv sh"
    using forward_step_keeps(1) [OF wf _ _ sh(1)] sh(3) by (simp add: position_ok_def queue_ok_def)
  then have wf': "shd_wf (SHADOW demo_cfg) sh" by simp
  have rest: "at_rest demo_cfg ?s"
    using wf by (simp add: at_rest_def tx_wide_def)
  have steps: "passes (SHADOW demo_cfg) (dut_step run_ops) 0 (dut ?s, shd ?s) (0, run_shadow)"
    by (simp add: passes.here)
  have step: "rsp_forward_step (SHADOW demo_cfg) (dut_step run_ops) (0, run_shadow) = Some (1, sh)"
    using sh(1) by (simp add: ops)
  have ok: "admissible demo_cfg ?c"
    by (simp add: admissible_def demo_digits point_text_def buffer_size_def) (simp add: digits8_def is_hex_def hex_val_def)
  have queue: "rxq ?s = replicate 0 (RecvError EAGAIN) @ Chunk (format_packet (request_text ?c)) #
      ack_event (acks ?s) (answer demo_cfg ?c (target_of demo_cfg (?s\<lparr>shd := sh\<rparr>))) @ []"
    by (simp add: point_text_def ack_event_def)
  have num: "number ''1'' = 1" "number ''4'' = 4"
    by (simp_all add: number_def demo_digits)
  have "t_brk (effect ?c t) 4 = None" for t
    by (simp add: num point_update_def ptype_defs)
  with sv_served_while_running [OF rest steps step wf' ok queue] sh(2) show ?thesis
    by (auto simp: reply_text_def ack_text_def)
qed

section \<open>The target of a new stub\<close>

definition fresh_target :: "stub_config \<Rightarrow> target" where
  "fresh_target cfg = \<lparr>t_mem = (\<lambda>_. 0),
     t_reg = (\<lambda>i. if i = 0 \<or> unat i = GPRN (SHADOW cfg) then of_bits 0 else all_x),
     t_brk = (\<lambda>_. None), t_wch = (\<lambda>_. None), t_stop = ''T05;swbreak:'', t_ack = True\<rparr>"

lemma fresh_byte: "a_byte cfg (view (shd_new cfg)) x = 0"
proof (cases "region_of cfg x")
  case None
  then show ?thesis
    by (simp add: a_byte_def a_read_def view_def shd_new_def io_read_def map_find_def byte_at_def)
next
  case (Some blk)
  then show ?thesis
    by (auto simp: a_byte_def a_read_def view_def shd_new_def mem_view_def byte_at_def split: prod.split)
qed

lemma fresh_reg:
  "shd_reg_read cfg (shd_new cfg) i = (if i = 0 \<or> unat i = GPRN cfg then of_bits 0 else all_x)"
  by (auto simp: shd_reg_read_def shd_new_def elem_def nth_list_update unat_eq_0)

lemma fresh_stop: "stop_text (shd_new cfg) (- 1) = ''T05;swbreak:''"
  by (simp add: stop_text_def shd_new_def ptype_defs ptype_name_def SIGTRAP_def format_02x_def
      hex_digit_def sv_substr_def Let_def)

text \<open>Opening the socket and accepting a client touch neither the output nor the fields of the class.\<close>

definition outside :: "tx_event list \<Rightarrow> 'z \<Rightarrow> 'z dpi_scheme \<Rightarrow> bool" where
  "outside t z s \<longleftrightarrow> txq s = t \<and> dpi.more s = z"

lemma keeps_outside [keeps_intros]:
  "keeps (outside t z) dpi_os_accept" "keeps (outside t z) (print str)"
  "keeps (outside t z) (modifies (\<lambda>s. s\<lparr>sfd := fd\<rparr>))"
  by (auto simp: keeps_def outside_def dpi_os_accept_def print_def modifies_def split: list.splits client.splits)

lemma keeps_outside_sockets [keeps_intros]:
  "keeps (outside t z) (socket_unix_listen os name)" "keeps (outside t z) (socket_tcp_listen os port)"
  "keeps (outside t z) socket_unix_accept" "keeps (outside t z) (socket_tcp_accept e)"
  unfolding socket_unix_listen_def socket_tcp_listen_def socket_unix_accept_def socket_tcp_accept_def
  by (intro keeps_intros; auto intro!: keeps_intros split: client.split bool.split)+

lemma outside_stub:
  assumes "outside (txq s) (dpi.more s) t"
  shows "txq t = txq s" "stub_state t = stub_state s" "bf t = bf s"
  using assms unfolding outside_def by (cases s; cases t; simp)+

lemma stub_new_parts:
  assumes "stub_new os e cfg name s = Some (Val (), s1)"
  shows "txq s1 = txq s" "bf s1 = bf s" "shd s1 = shd_new (SHADOW cfg)"
    "\<exists>port. stub_state s1 = STUB_STATE_INIT\<lparr>socket_port := port\<rparr>"
proof -
  obtain code port where scan: "scan_port name = (code, port)" by (cases "scan_port name")
  let ?st = "if code = 1 then STUB_STATE_INIT\<lparr>socket_port := word_of_int port\<rparr> else STUB_STATE_INIT"
  let ?open = "if code \<noteq> 0
    then bnd (gets (\<lambda>s. socket_port (stub_state s))) (\<lambda>p. seq (socket_tcp_listen os p) (socket_tcp_accept e))
    else seq (socket_unix_listen os name) socket_unix_accept"
  let ?s = "s\<lparr>stub_state := ?st\<rparr>"
  obtain s2 x where s2: "?open ?s = Some (Val x, s2)" and s1: "s1 = s2\<lparr>shd := shd_new (SHADOW cfg)\<rparr>"
    using assms by (auto simp: stub_new_def scan set_state_def on_shd_def elim!: seq_ValE split: if_splits)
  have "keeps (outside (txq ?s) (dpi.more ?s)) ?open"
    by (intro keeps_intros)
  from keepsD [OF this s2] have same: "outside (txq ?s) (dpi.more ?s) s2"
    by (simp add: outside_def)
  show "txq s1 = txq s" "bf s1 = bf s" "shd s1 = shd_new (SHADOW cfg)"
    using outside_stub [OF same] by (simp_all add: s1)
  have "stub_state s1 = ?st"
    using outside_stub(2) [OF same] by (simp add: s1)
  moreover have "\<exists>port. ?st = STUB_STATE_INIT\<lparr>socket_port := port\<rparr>"
    by (cases "code = 1") (auto simp: STUB_STATE_INIT_def)
  ultimately show "\<exists>port. stub_state s1 = STUB_STATE_INIT\<lparr>socket_port := port\<rparr>"
    by simp
qed

text \<open>
  Property C19: what a debugger first sees.  When the constructor returns, over a UNIX or a TCP socket,
  the stub is ready for a session: all memory reads as zero, the program counter and register 0
  are zero and all other registers unknown, no point is set, acknowledgements are on, and the last
  stop is reported as signal 5 with a software breakpoint as its reason, although none was hit.
\<close>

theorem sv_fresh_target:
  assumes "stub_new os e cfg name s = Some (Val (), s1)" and "tx_wide s" and "length (bf s) = 2"
  shows "at_rest cfg s1 \<and> target_of cfg s1 = fresh_target cfg"
proof
  note parts = stub_new_parts [OF assms(1)]
  have "tx_wide s1"
    using assms(2) tx_wide_drop [of s s1 0] parts(1) by simp
  then show "at_rest cfg s1"
    using assms(3) parts by (auto simp: at_rest_def shd_wf_new STUB_STATE_INIT_def)
  have "acks s1"
    using parts(4) by (auto simp: acks_def STUB_STATE_INIT_def)
  then show "target_of cfg s1 = fresh_target cfg"
    by (simp add: target_of_def fresh_target_def parts(3) fresh_byte fresh_reg fresh_stop
        shd_new_def [THEN arg_cong, of s_bpt] shd_new_def [THEN arg_cong, of s_wpt] map_find_def fun_eq_iff)
qed

theorem sv_fresh_target_witness:
  "\<exists>s1. stub_new quiet_os 0 demo_cfg ''s'' new_stub = Some (Val (), s1) \<and>
    t_mem (target_of demo_cfg s1) 0x105 = 0 \<and> t_reg (target_of demo_cfg s1) 5 = all_x"
proof -
  obtain s1 where run: "stub_new quiet_os 0 demo_cfg ''s'' new_stub = Some (Val (), s1)"
    using new_stub_runs by blast
  have "tx_wide new_stub" "length (bf new_stub) = 2"
    by (simp_all add: new_stub_def tx_wide_def)
  from sv_fresh_target [OF run this] run show ?thesis
    by (auto simp: fresh_target_def demo_sv_def)
qed

section \<open>A concrete session\<close>

text \<open>
  Two bytes are written across the end of a region, the acknowledgements switched off, the bytes read.
\<close>

definition live_stub :: "rx_event list \<Rightarrow> unit stub" where
  "live_stub q = (idle_stub () (shd_new demo_sv) q)\<lparr>stub_state := STUB_STATE_INIT\<rparr>"

definition demo_session :: "request list" where
  "demo_session = [Write_memory ''10f'' ''2'' [0xAB, 0xCD], No_ack_mode, Read_memory ''10f'' ''2'']"

lemma live_rest: "at_rest demo_cfg (live_stub q)"
  by (simp add: at_rest_def live_stub_def STUB_STATE_INIT_def shd_wf_new tx_wide_def)

lemma live_sent: "sent (live_stub q) = []"
  by (simp add: live_stub_def)

lemma demo_number: "number ''10f'' = 0x10F" "number ''2'' = 2"
  by (simp_all add: number_def demo_digits)

lemma demo_admissible: "\<forall>c \<in> set demo_session. admissible demo_cfg c"
  by (simp add: demo_session_def admissible_def demo_digits range_packet_def buffer_size_def)

lemma demo_replies:
  "answer demo_cfg (Write_memory ''10f'' ''2'' [0xAB, 0xCD]) t = Some ''OK''"
  "answer demo_cfg No_ack_mode t = Some ''OK''"
  "answer demo_cfg (Read_memory ''10f'' ''2'')
    (effect No_ack_mode (effect (Write_memory ''10f'' ''2'' [0xAB, 0xCD]) t)) = Some ''abcd''"
proof -
  have "[0 ..< 2] = [0, 1 :: nat]"
    by (simp add: upt_rec)
  then show "answer demo_cfg (Read_memory ''10f'' ''2'')
      (effect No_ack_mode (effect (Write_memory ''10f'' ''2'' [0xAB, 0xCD]) t)) = Some ''abcd''"
    by (simp add: demo_digits demo_number demo_text)
qed simp_all

lemma demo_acks:
  "t_ack (effect (Write_memory ''10f'' ''2'' bs) t) = t_ack t" "t_ack (effect No_ack_mode t) = False"
  "t_ack (effect (Read_memory ''10f'' ''2'') t) = t_ack t"
  by simp_all

theorem sv_session_refines_witness:
  "\<exists>s'. gdb_fsm demo_cfg demo_ops [nul] (live_stub [Chunk (format_packet ''M10f,2:abcd''), Chunk ''+'',
      Chunk (format_packet ''QStartNoAckMode''), Chunk ''+'', Chunk (format_packet ''m10f,2''),
      Chunk (format_packet ''k'')]) = Some (Fail (Exited 0), s') \<and>
    sent s' = ''+'' @ format_packet ''OK'' @ ''+'' @ format_packet ''OK'' @ format_packet ''abcd'' \<and>
    t_mem (target_of demo_cfg s') 0x110 = 0xCD"
proof -
  let ?q = "[Chunk (format_packet ''M10f,2:abcd''), Chunk ''+'', Chunk (format_packet ''QStartNoAckMode''),
      Chunk ''+'', Chunk (format_packet ''m10f,2''), Chunk (format_packet ''k'')]"
  let ?s = "live_stub ?q"
  let ?t = "target_of demo_cfg ?s"
  have ack: "t_ack ?t = True"
    by (simp add: live_stub_def acks_def STUB_STATE_INIT_def)
  have queue: "rxq ?s = client demo_cfg demo_session ?t"
    using ack by (simp add: demo_session_def range_packet_def demo_text ack_event_def live_stub_def
        del: acks_target)
  have replies: "transcript demo_cfg demo_session ?t =
      ''+'' @ format_packet ''OK'' @ ''+'' @ format_packet ''OK'' @ format_packet ''abcd''"
    unfolding demo_session_def transcript.simps demo_replies demo_acks ack
    by (simp add: ack_text_def reply_text_def)
  have byte: "t_mem (fold effect demo_session ?t) 0x110 = 0xCD"
    by (simp add: demo_session_def demo_number)
  show ?thesis
    using sv_session_refines [OF live_rest demo_admissible queue, of "[nul]" demo_ops]
    unfolding replies by (auto simp: byte live_sent)
qed

end
