(* ===== verification/Sv_Nerv.thy ===== *)
theory Sv_Nerv
  imports Sv_Handlers
begin

text \<open>
  The example system: the memory and the bus of \<open>hdl/nerv/nerv_soc.sv\<close>, and the adapter class of
  \<open>hdl/nerv/nerv_gdb.sv\<close>, which gives the stub its processor.

  The core itself is third-party code outside the repository.  It is the record \<open>core\<close> of what the
  system and the adapter use of it: its next state at a rising edge of the clock, its bus signals
  (taken as known values, but for the data) and the signals the adapter samples, as functions of its
  state and its inputs, and its registers.  Processes that wake up at the same edge see the values
  before the edge.
\<close>

section \<open>The system\<close>

record soc_bus =
  dmem_valid :: bool
  dmem_addr :: "32 word"
  dmem_wstrb :: "4 word"
  dmem_wdata :: logic
  imem_addr :: "32 word"

record core_in =
  reset_in :: bool
  imem_in :: logic
  dmem_in :: logic

record 'c core =
  core_edge :: "'c \<Rightarrow> core_in \<Rightarrow> 'c"
  core_bus :: "'c \<Rightarrow> core_in \<Rightarrow> soc_bus"
  core_ret :: "'c \<Rightarrow> core_in \<Rightarrow> bool"   \<comment> \<open>\<open>ret_ena\<close>\<close>
  core_sample :: "'c \<Rightarrow> core_in \<Rightarrow> nerv_sample"
  core_gpr :: "'c \<Rightarrow> nat \<Rightarrow> logic"
  core_set_gpr :: "nat \<Rightarrow> 32 word \<Rightarrow> 'c \<Rightarrow> 'c"
  core_pc :: "'c \<Rightarrow> logic"
  core_set_pc :: "32 word \<Rightarrow> 'c \<Rightarrow> 'c"
  RESET_ADDR :: "32 word"

record 'c soc =
  soc_mem :: "logic list"
  imem_data :: logic
  dmem_rdata :: logic
  leds :: logic
  soc_rst :: bool
  soc_cpu :: 'c

text \<open>An assignment to eight bits of a vector, with the two bits that each of them is held in.\<close>

definition merge_byte :: "nat \<Rightarrow> byte \<Rightarrow> byte \<Rightarrow> logic \<Rightarrow> logic" where
  "merge_byte k a b v = Logic (le_dec ((le_enc (aval v))[k := a])) (le_dec ((le_enc (bval v))[k := b]))"

definition strobed :: "4 word \<Rightarrow> logic \<Rightarrow> logic \<Rightarrow> logic" where
  "strobed strb data v = fold (\<lambda>k v. if bit strb k
     then merge_byte k (le_enc (aval data) ! k) (le_enc (bval data) ! k) v else v) [0, 1, 2, 3] v"

definition soc_in :: "'c soc \<Rightarrow> core_in" where
  "soc_in s = \<lparr>reset_in = soc_rst s, imem_in = imem_data s, dmem_in = dmem_rdata s\<rparr>"

text \<open>A rising edge of the clock; an element outside the array is unknown and cannot be written.\<close>

definition soc_clock :: "'c core \<Rightarrow> 'c soc \<Rightarrow> 'c soc" where
  "soc_clock core s =
     (let inp = soc_in s; bus = core_bus core (soc_cpu s) inp; w = unat (dmem_addr bus) div 4;
          io = (dmem_addr bus = 0x01000000) in
      s\<lparr>imem_data := elem (soc_mem s) (unat (imem_addr bus) div 4),
        leds := (if dmem_valid bus \<and> io then strobed (dmem_wstrb bus) (dmem_wdata bus) (leds s) else leds s),
        soc_mem := (if dmem_valid bus \<and> \<not> io
          then (soc_mem s)[w := strobed (dmem_wstrb bus) (dmem_wdata bus) (elem (soc_mem s) w)]
          else soc_mem s),
        dmem_rdata := (if dmem_valid bus then elem (soc_mem s) w else dmem_rdata s),
        soc_cpu := core_edge core (soc_cpu s) inp\<rparr>)"

section \<open>The adapter\<close>

definition nerv_reset_assert :: "'c core \<Rightarrow> 'c soc \<Rightarrow> 'c soc" where
  "nerv_reset_assert core s = (soc_clock core ^^ 4) (s\<lparr>soc_rst := True\<rparr>)"

definition nerv_reset_release :: "'c core \<Rightarrow> 'c soc \<Rightarrow> 'c soc" where
  "nerv_reset_release core s = soc_clock core (s\<lparr>soc_rst := False\<rparr>)"

text \<open>
  A step waits for the edge at which an instruction retires and samples the signals there; a core that
  never retires an instruction keeps it waiting for ever.
\<close>

partial_function (option) nerv_step :: "'c core \<Rightarrow> 'c soc \<Rightarrow> (sv_retired \<times> 'c soc) option" where
  "nerv_step core s =
     (if core_ret core (soc_cpu s) (soc_in s)
      then Some (nerv_retired (core_sample core (soc_cpu s) (soc_in s)), soc_clock core s)
      else nerv_step core (soc_clock core s))"

definition nerv_reg_read :: "'c core \<Rightarrow> nat \<Rightarrow> 'c soc \<Rightarrow> 32 word \<Rightarrow> 32 word" where
  "nerv_reg_read core GNUM s idx =
     to_bits (if unat idx < GNUM then core_gpr core (soc_cpu s) (unat idx) else core_pc core (soc_cpu s))"

definition nerv_reg_write :: "'c core \<Rightarrow> nat \<Rightarrow> 32 word \<Rightarrow> 32 word \<Rightarrow> 'c soc \<Rightarrow> 'c soc" where
  "nerv_reg_write core GNUM idx dat s =
     s\<lparr>soc_cpu := (if unat idx < GNUM then core_set_gpr core (unat idx) dat (soc_cpu s)
                   else core_set_pc core dat (soc_cpu s))\<rparr>"

text \<open>
  The macro \<open>mem(i)\<close>: the word is selected by the distance from the reset address, the byte in it by the
  address itself.
\<close>

definition mem_word :: "'c core \<Rightarrow> 32 word \<Rightarrow> nat" where
  "mem_word core adr = unat (adr - RESET_ADDR core) div 4"

definition nerv_mem_read :: "'c core \<Rightarrow> 'c soc \<Rightarrow> 32 word \<Rightarrow> byte" where
  "nerv_mem_read core s adr =
     le_enc (to_bits (elem (soc_mem s) (mem_word core adr))) ! (unat adr mod 4)"

definition nerv_mem_write :: "'c core \<Rightarrow> 32 word \<Rightarrow> byte \<Rightarrow> 'c soc \<Rightarrow> 'c soc" where
  "nerv_mem_write core adr dat s =
     (let i = mem_word core adr in
      s\<lparr>soc_mem := (soc_mem s)[i := merge_byte (unat adr mod 4) dat 0 (elem (soc_mem s) i)]\<rparr>)"

text \<open>
  The processor of the stub.  The stub takes a step as a task that returns, so the step is a function
  that agrees with \<open>nerv_step\<close>.
\<close>

definition nerv_ops :: "'c core \<Rightarrow> nat \<Rightarrow> ('c soc \<Rightarrow> sv_retired \<times> 'c soc) \<Rightarrow> 'c soc dut_ops" where
  "nerv_ops core GNUM step = \<lparr>dut_reset_assert = nerv_reset_assert core,
     dut_reset_release = nerv_reset_release core, dut_step = step, dut_reg_read = nerv_reg_read core GNUM,
     dut_reg_write = nerv_reg_write core GNUM, sv_dut_mem_read = nerv_mem_read core,
     sv_dut_mem_write = nerv_mem_write core\<rparr>"

section \<open>Waiting for an instruction\<close>

definition retires :: "'c core \<Rightarrow> 'c soc \<Rightarrow> bool" where
  "retires core s \<longleftrightarrow> core_ret core (soc_cpu s) (soc_in s)"

lemma nerv_step_at:
  "retires core ((soc_clock core ^^ n) s) \<Longrightarrow> \<forall>m < n. \<not> retires core ((soc_clock core ^^ m) s) \<Longrightarrow>
    nerv_step core s = Some (nerv_retired (core_sample core (soc_cpu ((soc_clock core ^^ n) s))
      (soc_in ((soc_clock core ^^ n) s))), (soc_clock core ^^ Suc n) s)"
proof (induction n arbitrary: s)
  case 0
  then show ?case
    by (subst nerv_step.simps) (simp add: retires_def)
next
  case (Suc n)
  have "\<not> retires core s"
    using Suc.prems(2) by (metis funpow_0 zero_less_Suc)
  then have "nerv_step core s = nerv_step core (soc_clock core s)"
    by (subst nerv_step.simps) (simp add: retires_def)
  moreover have "\<forall>m < n. \<not> retires core ((soc_clock core ^^ m) (soc_clock core s))"
    using Suc.prems(2) by (metis Suc_less_eq comp_apply funpow_Suc_right)
  ultimately show ?case
    using Suc.IH [of "soc_clock core s"] Suc.prems(1) by (simp add: funpow_swap1)
qed

lemma nerv_step_some: "nerv_step core s = Some y \<Longrightarrow> \<exists>n. retires core ((soc_clock core ^^ n) s)"
proof (rule nerv_step.raw_induct [where P = "\<lambda>core s y. \<exists>n. retires core ((soc_clock core ^^ n) s)"])
  fix f y and core :: "'c core" and s :: "'c soc"
  assume IH: "\<And>core s y. f core s = Some y \<Longrightarrow> \<exists>n. retires core ((soc_clock core ^^ n) s)"
    and eq: "(if core_ret core (soc_cpu s) (soc_in s)
      then Some (nerv_retired (core_sample core (soc_cpu s) (soc_in s)), soc_clock core s)
      else f core (soc_clock core s)) = Some y"
  show "\<exists>n. retires core ((soc_clock core ^^ n) s)"
  proof (cases "retires core s")
    case True
    then show ?thesis by (intro exI [of _ 0]) simp
  next
    case False
    then have "f core (soc_clock core s) = Some y"
      using eq by (simp add: retires_def)
    then obtain n where "retires core ((soc_clock core ^^ n) (soc_clock core s))"
      using IH by blast
    then show ?thesis
      by (intro exI [of _ "Suc n"]) (simp add: funpow_swap1)
  qed
qed

text \<open>
  Property C25: a step of the example system returns exactly when the core retires an instruction at
  some edge of the clock, and then with the signals of the first such edge.
\<close>

theorem nerv_step_returns:
  "(if \<exists>n. retires core ((soc_clock core ^^ n) s)
    then nerv_step core s = (let n = (LEAST n. retires core ((soc_clock core ^^ n) s)); s' = (soc_clock core ^^ n) s
      in Some (nerv_retired (core_sample core (soc_cpu s') (soc_in s')), soc_clock core s'))
    else nerv_step core s = None)"
proof (cases "\<exists>n. retires core ((soc_clock core ^^ n) s)")
  case True
  define n where "n = (LEAST n. retires core ((soc_clock core ^^ n) s))"
  have "retires core ((soc_clock core ^^ n) s)"
    unfolding n_def using True by (rule LeastI_ex)
  moreover have "\<forall>m < n. \<not> retires core ((soc_clock core ^^ m) s)"
    unfolding n_def by (blast dest: not_less_Least)
  ultimately have first: "retires core ((soc_clock core ^^ n) s)" "\<forall>m < n. \<not> retires core ((soc_clock core ^^ m) s)"
    by blast+
  from nerv_step_at [OF first] True show ?thesis
    by (simp add: Let_def flip: n_def)
next
  case False
  then have "nerv_step core s = None"
    using nerv_step_some [of core s] by (cases "nerv_step core s") blast+
  with False show ?thesis by simp
qed

section \<open>The memory, byte by byte\<close>

lemma le_enc_nth: "k < 4 \<Longrightarrow> le_enc (w :: 32 word) ! k = ucast (drop_bit (8 * k) w)"
  by (simp add: le_enc_def)

lemma le_enc_to_bits:
  assumes "k < 4"
  shows "le_enc (to_bits v) ! k = le_enc (aval v) ! k AND NOT (le_enc (bval v) ! k)"
  using assms by (intro bit_word_eqI)
    (auto simp: le_enc_nth to_bits_def bit_simps)

lemma merge_byte_read:
  assumes "k < 4" and "j < 4"
  shows "le_enc (to_bits (merge_byte k b 0 v)) ! j = (if j = k then b else le_enc (to_bits v) ! j)"
  using assms by (simp add: le_enc_to_bits merge_byte_def le_enc_dec nth_list_update)

definition soc_ok :: "'c soc \<Rightarrow> bool" where
  "soc_ok s \<longleftrightarrow> length (soc_mem s) = 1024"

definition in_soc :: "'c core \<Rightarrow> 32 word \<Rightarrow> bool" where
  "in_soc core adr \<longleftrightarrow> unat (adr - RESET_ADDR core) < 4096"

text \<open>Word and byte together select an address, also when the reset address is not aligned.\<close>

lemma add_mod4_cancel: "(a + r) mod 4 = (b + r) mod 4 \<longleftrightarrow> a mod 4 = b mod 4" for a b r :: nat
proof -
  have "int ((a + r) mod 4) = int ((b + r) mod 4) \<longleftrightarrow> int (a mod 4) = int (b mod 4)"
    unfolding of_nat_mod of_nat_add mod_eq_dvd_iff by simp
  then show ?thesis
    by (simp only: of_nat_eq_iff)
qed

lemma lane_from_reset: "unat z mod 4 = (unat (z - r) + unat r) mod 4" for z r :: "32 word"
proof -
  have "unat z = (unat (z - r) + unat r) mod 2 ^ 32"
    using unat_word_ariths(1) [of "z - r" r] by simp
  then have "unat z mod 4 = (unat (z - r) + unat r) mod 2 ^ 32 mod 4"
    by (rule arg_cong)
  also have "\<dots> = (unat (z - r) + unat r) mod 4"
    by (rule mod_mod_cancel) simp
  finally show ?thesis .
qed

lemma mem_word_inject: "mem_word core x = mem_word core y \<and> unat x mod 4 = unat y mod 4 \<longleftrightarrow> x = y"
proof
  let ?r = "RESET_ADDR core"
  assume same: "mem_word core x = mem_word core y \<and> unat x mod 4 = unat y mod 4"
  then have "unat (x - ?r) mod 4 = unat (y - ?r) mod 4"
    unfolding lane_from_reset [of x ?r] lane_from_reset [of y ?r] add_mod4_cancel by (rule conjunct2)
  with same have "unat (x - ?r) = unat (y - ?r)"
    unfolding mem_word_def by (metis div_mult_mod_eq)
  then have "x - ?r = y - ?r"
    unfolding word_unat_eq_iff .
  then show "x = y" by simp
qed simp

lemma nerv_read_write:
  assumes "soc_ok s" and "in_soc core y"
  shows "nerv_mem_read core (nerv_mem_write core y b s) x = (if x = y then b else nerv_mem_read core s x)"
proof (cases "mem_word core x = mem_word core y")
  case True
  have range: "mem_word core y < length (soc_mem s)"
    using assms by (simp add: soc_ok_def in_soc_def mem_word_def div_less_iff_less_mult)
  let ?v = "elem (soc_mem s) (mem_word core y)"
  have "nerv_mem_read core (nerv_mem_write core y b s) x =
      le_enc (to_bits (merge_byte (unat y mod 4) b 0 ?v)) ! (unat x mod 4)"
    using range by (simp add: nerv_mem_read_def nerv_mem_write_def Let_def True elem_def)
  also have "\<dots> = (if unat x mod 4 = unat y mod 4 then b else le_enc (to_bits ?v) ! (unat x mod 4))"
    by (rule merge_byte_read) simp_all
  finally show ?thesis
    using mem_word_inject [of core x y] by (simp add: True nerv_mem_read_def)
next
  case False
  then have "x \<noteq> y" by auto
  with False show ?thesis
    by (simp add: nerv_mem_read_def nerv_mem_write_def Let_def elem_def)
qed

interpretation nerv_bytes: byte_memory "nerv_mem_read core" "nerv_mem_write core" soc_ok "in_soc core"
  by unfold_locales (simp add: nerv_read_write, simp add: nerv_mem_write_def soc_ok_def Let_def)

section \<open>The bus and the debugger\<close>

lemma strobe_one:
  assumes "k < 4"
  shows "strobed (push_bit k 1) (of_bits w) v = merge_byte k (le_enc w ! k) 0 v"
proof -
  have zero: "j < 4 \<Longrightarrow> le_enc (0 :: 32 word) ! j = 0" for j
    by (simp add: le_enc_0)
  have bits: "bit (push_bit k 1 :: 4 word) j \<longleftrightarrow> j = k" if "j < 4" for j
    using that by (auto simp: bit_simps)
  have "k = 0 \<or> k = 1 \<or> k = 2 \<or> k = 3"
    using assms by arith
  then show ?thesis
    using bits [of 0] bits [of 1] bits [of 2] bits [of 3] zero
    by (elim disjE) (simp_all add: strobed_def of_bits_def)
qed

text \<open>
  Property C24: the debugger and the core agree on the memory of the system.  With the reset address 0,
  a byte that the debugger writes through the adapter changes the memory exactly as a store of that
  byte by the core over the bus does at a rising edge, and what the adapter then reads is the byte.
\<close>

theorem nerv_store_agrees:
  assumes "RESET_ADDR core = 0" and "soc_ok s" and "unat adr < 4096"
    and "core_bus core (soc_cpu s) (soc_in s) = \<lparr>dmem_valid = True, dmem_addr = adr,
      dmem_wstrb = push_bit (unat adr mod 4) 1, dmem_wdata = of_bits w, imem_addr = pc\<rparr>"
  shows "soc_mem (soc_clock core s) = soc_mem (nerv_mem_write core adr (le_enc w ! (unat adr mod 4)) s) \<and>
    nerv_mem_read core (soc_clock core s) adr = le_enc w ! (unat adr mod 4)"
proof -
  let ?b = "le_enc w ! (unat adr mod 4)"
  have "adr \<noteq> 0x01000000"
    using assms(3) by auto
  then have mem: "soc_mem (soc_clock core s) = soc_mem (nerv_mem_write core adr ?b s)"
    using strobe_one [of "unat adr mod 4" w "elem (soc_mem s) (unat adr div 4)"]
    by (simp add: soc_clock_def assms(1,4) Let_def nerv_mem_write_def mem_word_def)
  then have "nerv_mem_read core (soc_clock core s) adr = nerv_mem_read core (nerv_mem_write core adr ?b s) adr"
    by (simp add: nerv_mem_read_def)
  also have "\<dots> = ?b"
    using assms by (simp add: nerv_read_write in_soc_def)
  finally show ?thesis
    using mem by blast
qed

section \<open>The stub on the example system\<close>

text \<open>
  Property C23: a write by the debugger reaches the shadow and the memory of the example system alike.
  The packet M for a range inside the memory of the system is answered with OK; afterwards every byte
  of the range is the one of the packet in the system and in the shadow, bytes outside the range are
  as before in both, and the packet m is answered with the digits of the packet whichever of the two
  the stub reads from.
\<close>

theorem nerv_memory_views:
  assumes "waiting (range_packet (CHR ''M'') da dl (CHR '':'' # hex_text bs)) (with_ack s q) s"
    and "digits8 da" and "digits8 dl" and "hex_number dl = length bs"
    and "shd_wf (SHADOW cfg) (shd s)" and "soc_ok (dut s)"
    and "\<forall>i < length bs. in_soc core (word_of_nat (hex_number da) + word_of_nat i)"
  shows "\<exists>s'. rsp_mem_write cfg (nerv_ops core n step) s = Some (Val (), s') \<and> answered s ''OK'' q s' \<and>
    (\<forall>x. nerv_mem_read core (dut s') x =
      (if unat (x - word_of_nat (hex_number da)) < length bs then bs ! unat (x - word_of_nat (hex_number da))
       else nerv_mem_read core (dut s) x)) \<and>
    (\<forall>x. a_byte (SHADOW cfg) (view (shd s')) x =
      (if unat (x - word_of_nat (hex_number da)) < length bs then bs ! unat (x - word_of_nat (hex_number da))
       else a_byte (SHADOW cfg) (view (shd s)) x)) \<and>
    (\<forall>t q'. shd t = shd s' \<and> dut t = dut s' \<and> waiting (range_packet (CHR ''m'') da dl []) (with_ack t q') t \<longrightarrow>
      (\<exists>t'. rsp_mem_read cfg (nerv_ops core n step) t = Some (Val (), t') \<and> answered t (hex_text bs) q' t'))"
proof -
  let ?adr = "word_of_nat (hex_number da) :: 32 word"
  let ?ops = "nerv_ops core n step"
  let ?s' = "replied_with ''OK'' q ((taken (with_ack s q) s)
    \<lparr>dut := dut_writes ?ops ?adr bs [0 ..< length bs] (dut s),
     shd := shd_writes (SHADOW cfg) ?adr bs [0 ..< length bs] (shd s)\<rparr>)"
  have short: "length bs < 2 ^ 30"
    using assms(1) by (simp add: waiting_def range_packet_def buffer_size_def)
  then have len: "length bs < 2 ^ 32" by simp
  have step: "rsp_mem_write cfg ?ops s = Some (Val (), ?s')"
    by (rule rsp_mem_write_apply [OF assms(1-4)])
  have ops: "sv_dut_mem_read ?ops = nerv_mem_read core" "sv_dut_mem_write ?ops = nerv_mem_write core"
    by (simp_all add: nerv_ops_def)
  have dut: "nerv_mem_read core (dut ?s') x =
      (if unat (x - ?adr) < length bs then bs ! unat (x - ?adr) else nerv_mem_read core (dut s) x)" for x
    using nerv_bytes.rd_block [OF assms(6) len assms(7)] by (simp add: dut_writes_def ops)
  have shadow: "a_byte (SHADOW cfg) (view (shd ?s')) x =
      (if unat (x - ?adr) < length bs then bs ! unat (x - ?adr) else a_byte (SHADOW cfg) (view (shd s)) x)" for x
    using written_bytes [OF assms(5) len, of ?adr x] by simp
  have wf: "shd_wf (SHADOW cfg) (shd ?s')"
    using shd_wf_writes [OF assms(5)] by simp
  have read: "\<exists>t'. rsp_mem_read cfg ?ops t = Some (Val (), t') \<and> answered t (hex_text bs) q' t' \<and> shd t' = shd t"
    if t: "shd t = shd ?s'" "dut t = dut ?s'"
      and w: "waiting (range_packet (CHR ''m'') da dl []) (with_ack t q') t" for t q'
  proof (rule rsp_mem_read_bytes [OF w assms(2-4) short])
    fix i x assume "i < length bs" "unat (x - ?adr) = i"
    then show "stub_byte cfg ?ops t x = bs ! i"
      using dut [of x] shadow [of x] t wf
      by (cases "memory (stub_state t)") (simp_all add: stub_byte_shadow, simp add: stub_byte_def ops)
  qed
  have "answered s ''OK'' q ?s'"
    by (simp add: answered_def)
  with step dut shadow read show ?thesis by blast
qed

section \<open>A concrete system\<close>

text \<open>A core that stores a byte at 0x101 at every edge.\<close>

definition demo_core :: "unit core" where
  "demo_core = \<lparr>core_edge = (\<lambda>c _. c), core_bus = (\<lambda>_ _. \<lparr>dmem_valid = True, dmem_addr = 0x101,
       dmem_wstrb = 2, dmem_wdata = of_bits 0xAB00, imem_addr = 0\<rparr>),
     core_ret = (\<lambda>_ _. True), core_sample = (\<lambda>_ _. undefined), core_gpr = (\<lambda>_ _. all_x),
     core_set_gpr = (\<lambda>_ _ c. c), core_pc = (\<lambda>_. all_x), core_set_pc = (\<lambda>_ c. c), RESET_ADDR = 0\<rparr>"

definition demo_soc :: "unit soc" where
  "demo_soc = \<lparr>soc_mem = replicate 1024 all_x, imem_data = all_x, dmem_rdata = all_x, leds = all_x,
     soc_rst = False, soc_cpu = ()\<rparr>"

theorem nerv_store_agrees_witness:
  "nerv_mem_read demo_core (soc_clock demo_core demo_soc) 0x101 = 0xAB"
proof -
  have bus: "core_bus demo_core (soc_cpu demo_soc) (soc_in demo_soc) = \<lparr>dmem_valid = True, dmem_addr = 0x101,
      dmem_wstrb = push_bit (unat (0x101 :: 32 word) mod 4) 1, dmem_wdata = of_bits 0xAB00, imem_addr = 0\<rparr>"
    by (simp add: demo_core_def push_bit_eq_mult)
  have "le_enc (0xAB00 :: 32 word) ! 1 = 0xAB"
    by (simp add: le_enc_nth drop_bit_eq_div)
  then show ?thesis
    using nerv_store_agrees [OF _ _ _ bus] by (simp add: demo_core_def soc_ok_def demo_soc_def)
qed

definition soc_stub :: "string \<Rightarrow> unit soc stub" where
  "soc_stub c = idle_stub demo_soc (shd_new demo_sv) [Chunk c]"

theorem nerv_memory_views_witness:
  "\<exists>s'. rsp_mem_write demo_cfg (nerv_ops demo_core 32 (Pair retired_default))
      (soc_stub (format_packet ''M10f,2:abcd'')) = Some (Val (), s') \<and>
    nerv_mem_read demo_core (dut s') 0x110 = 0xCD \<and> a_byte demo_sv (view (shd s')) 0x110 = 0xCD"
proof -
  let ?s = "soc_stub (format_packet ''M10f,2:abcd'')"
  have pkt: "range_packet (CHR ''M'') ''10f'' ''2'' (CHR '':'' # hex_text [0xAB, 0xCD]) = ''M10f,2:abcd''"
    by (simp add: range_packet_def demo_text)
  have w: "waiting (range_packet (CHR ''M'') ''10f'' ''2'' (CHR '':'' # hex_text [0xAB, 0xCD])) (with_ack ?s []) ?s"
    unfolding pkt soc_stub_def idle_stub_simps by (intro idle_waiting) (simp_all add: nul_def)
  have len: "hex_number ''2'' = length [0xAB, 0xCD :: byte]"
    by (simp add: demo_digits)
  have wf: "shd_wf (SHADOW demo_cfg) (shd ?s)" and ok: "soc_ok (dut ?s)"
    by (simp_all add: soc_stub_def shd_wf_new soc_ok_def demo_soc_def)
  have range: "\<forall>i < length [0xAB, 0xCD :: byte]. in_soc demo_core (word_of_nat (hex_number ''10f'') + word_of_nat i)"
    by (simp add: demo_digits in_soc_def demo_core_def less_Suc_eq)
  obtain s' where s': "rsp_mem_write demo_cfg (nerv_ops demo_core 32 (Pair retired_default)) ?s = Some (Val (), s')"
      "nerv_mem_read demo_core (dut s') 0x110 = (if unat (0x110 - word_of_nat (hex_number ''10f'') :: 32 word) < length [0xAB, 0xCD :: byte]
        then [0xAB, 0xCD] ! unat (0x110 - word_of_nat (hex_number ''10f'') :: 32 word) else nerv_mem_read demo_core (dut ?s) 0x110)"
      "a_byte (SHADOW demo_cfg) (view (shd s')) 0x110 = (if unat (0x110 - word_of_nat (hex_number ''10f'') :: 32 word) < length [0xAB, 0xCD :: byte]
        then [0xAB, 0xCD] ! unat (0x110 - word_of_nat (hex_number ''10f'') :: 32 word) else a_byte (SHADOW demo_cfg) (view (shd ?s)) 0x110)"
    using nerv_memory_views [OF w demo_digits(1,2) len wf ok range, of 32 "Pair retired_default"] by blast
  have "unat (0x110 - word_of_nat (hex_number ''10f'') :: 32 word) = 1"
    by (simp add: demo_digits)
  with s' show ?thesis
    by (intro exI [of _ s']) simp
qed

end
