(* ===== verification/Spec2Isabelle.thy ===== *)
theory Spec2Isabelle
  imports Language_Tests Sv_Session Sv_Nerv
begin

text \<open>
  A verification development for the debug servers of the repository: \<^verbatim>\<open>HDLDB\<close>, written in C++, and its
  predecessor, a SystemVerilog class over a small C library.  Both speak the GDB remote serial protocol
  on a UNIX or TCP socket and show the debugger a shadow of a simulated RISC-V system; the SystemVerilog
  class also records a trace and steps backward.  Paths are relative to the directories \<^verbatim>\<open>src\<close> and
  \<^verbatim>\<open>hdl\<close> of the repository.

  \<^bold>\<open>The parts of the C++ program.\<close>  \<^verbatim>\<open>rsp/Socket\<close> opens the socket, accepts a client and moves bytes.
  \<^verbatim>\<open>rsp/Packet\<close>, derived from it, cuts the byte stream into packets with a checksum and handles the
  acknowledgements.  \<^verbatim>\<open>rsp/Protocol\<close>, derived from that, parses packets, answers them and runs the main
  loop; it owns a copy of the shadow.  \<^verbatim>\<open>shadow/Registers\<close>, \<^verbatim>\<open>shadow/MemoryMap\<close> over
  \<^verbatim>\<open>shadow/AddressMap\<close> and \<^verbatim>\<open>shadow/Points\<close> are the base classes of \<^verbatim>\<open>shadow/Core\<close>, and
  \<^verbatim>\<open>shadow/System\<close> forwards the debugger's accesses to the core.  \<^verbatim>\<open>hdldb.hpp\<close> fixes the template
  parameters, \<^verbatim>\<open>hdldb.cpp\<close> is \<^verbatim>\<open>main\<close>.

  \<^bold>\<open>The parts of the SystemVerilog program.\<close>  \<^verbatim>\<open>hdl/socket_dpi_pkg.c\<close> moves bytes; the class
  \<^verbatim>\<open>gdb_shadow\<close> (\<^verbatim>\<open>hdl/gdb_shadow_pkg.sv\<close>) holds registers, memories, points and the trace, and replays and
  reverts instructions; the class \<^verbatim>\<open>gdb_server_stub\<close> (\<^verbatim>\<open>hdl/gdb_server_stub_pkg.sv\<close>) receives and sends
  packets, handles them, runs the processor in both directions and is the state machine;
  \<^verbatim>\<open>hdl/nerv/nerv_gdb.sv\<close> adapts an example processor to it.

  \<^bold>\<open>How the code is modelled.\<close>  Operations are programs \<^typ>\<open>('s, 'a) prog\<close>: functions from a state to an
  outcome and a new state.  An outcome is a value or a failure; failures tell exceptions, calls of
  \<^verbatim>\<open>exit\<close>, \<^verbatim>\<open>std::terminate\<close>, waiting for ever, and undefined behaviour with its cause apart, and \<^const>\<open>None\<close> is
  a loop that never ends.  The receive loop, the send loop and the main loop are partial functions,
  as are the mutually recursive dispatcher and run loops of the stub (\<^verbatim>\<open>stub_exec\<close>) and its state machine
  \<^verbatim>\<open>gdb_fsm\<close>, so no fuel is needed and termination is a theorem where it holds.  The classes are records that
  extend one another as the classes inherit: \<^verbatim>\<open>env\<close> (the operating system), \<^verbatim>\<open>socket\<close>, \<^verbatim>\<open>packet\<close>, \<^verbatim>\<open>protocol\<close>.
  Machine integers are words; differences of \<^verbatim>\<open>size_t\<close> and products of 32-bit lengths wrap around.
  Byte arrays live in a store with identities, so that what a copied object shares with its original
  is visible.

  \<^bold>\<open>The theories.\<close>
  \<^item> \<^verbatim>\<open>Prelude\<close>: outcomes, programs, their rewrite rules, the rules for programs that keep an invariant,
    list and word lemmas, the locale \<^verbatim>\<open>codec\<close> of fixed-width encodings.
  \<^item> \<^verbatim>\<open>Cxx_Std\<close>: the library functions the sources call: hexadecimal formatting, \<^verbatim>\<open>from_chars\<close>, string
    views, \<^verbatim>\<open>views::split\<close>, \<^verbatim>\<open>sscanf\<close>.  \<^verbatim>\<open>Std_Map\<close>: \<^verbatim>\<open>std::map\<close> as a sorted list of entries, with the
    locale \<^verbatim>\<open>std_map\<close>.  \<^verbatim>\<open>Store\<close>: byte arrays, spans and little-endian words.
  \<^item> \<^verbatim>\<open>Socket\<close> (\<^verbatim>\<open>rsp/Socket.hpp\<close>, \<^verbatim>\<open>rsp/Socket.cpp\<close>): listening, accepting, \<^verbatim>\<open>send\<close> and \<^verbatim>\<open>recv\<close>; the locales
    \<^verbatim>\<open>byte_sink\<close> and \<^verbatim>\<open>byte_source\<close> say what the packet layer relies on.
  \<^item> \<^verbatim>\<open>Packet\<close> (\<^verbatim>\<open>rsp/Packet.hpp\<close>, \<^verbatim>\<open>rsp/Packet.cpp\<close>): \<^verbatim>\<open>rx\<close> and \<^verbatim>\<open>tx\<close>.  A packet of at most 508 payload
    bytes, cut into pieces of which the last ends with the packet, is received exactly if the first piece has at
    least three bytes, and makes \<^verbatim>\<open>rx\<close> read outside its buffer otherwise; a changed byte is detected; what
    \<^verbatim>\<open>tx\<close> sends \<^verbatim>\<open>rx\<close> receives; a packet that does not fit the buffer keeps \<^verbatim>\<open>rx\<close> running for ever.
    Nothing is shown about a packet that one call of \<^verbatim>\<open>recv\<close> returns together with bytes behind it.
  \<^item> \<^verbatim>\<open>MemoryMap\<close> (\<^verbatim>\<open>shadow/AddressMap.hpp\<close>, \<^verbatim>\<open>shadow/MemoryMap.hpp\<close>): read-over-write laws through the locale
    \<^verbatim>\<open>shadow_memory\<close>, unmapped addresses, blocks that share storage, copies that share storage.
  \<^item> \<^verbatim>\<open>Registers\<close> (\<^verbatim>\<open>shadow/Registers.hpp\<close>): sizes and layout of the image, the four register files
    through the locale \<^verbatim>\<open>register_file\<close>, whole-image access, \<^verbatim>\<open>readOne\<close>, copies.
  \<^item> \<^verbatim>\<open>Points\<close> (\<^verbatim>\<open>rsp/rsp.hpp\<close>, \<^verbatim>\<open>Instruction.hpp\<close>, \<^verbatim>\<open>shadow/Points.hpp\<close>): the tables of breakpoints and
    watchpoints, their invariant, and that \<^verbatim>\<open>match\<close> decides the abstract stop condition.
  \<^item> \<^verbatim>\<open>Shadow_System\<close> (\<^verbatim>\<open>shadow/Core.hpp\<close>, \<^verbatim>\<open>shadow/System.hpp\<close>, \<^verbatim>\<open>hdldb.hpp\<close>): construction, copying, the
    operations the protocol calls, and the instantiated configuration.
  \<^item> \<^verbatim>\<open>Protocol\<close> (\<^verbatim>\<open>rsp/Protocol.hpp\<close>): the state of the server, every handler, \<^verbatim>\<open>parse\<close> and \<^verbatim>\<open>loop\<close>, in the order
    of the source.
  \<^item> \<^verbatim>\<open>Replies\<close>: sending one reply, reading members through dictionaries, scanning packets.
    \<^verbatim>\<open>Memory_Packets\<close>, \<^verbatim>\<open>Register_Packets\<close> and \<^verbatim>\<open>Query_Packets\<close>: what each handler answers and changes, and
    where it throws or is undefined; monitor commands of one length are one command to the server.
  \<^item> \<^verbatim>\<open>Session\<close>: the invariant of the server over all rounds of the loop (a step relation), that
    \<^verbatim>\<open>parse\<close> ends or waits for a client that sends or connects no more, a memory read from the wire to the wire, corrupted packets, the end of a connection,
    detaching and killing.
  \<^item> \<^verbatim>\<open>Hdldb\<close> (\<^verbatim>\<open>hdldb.cpp\<close>): \<^verbatim>\<open>main\<close> from the command line to the loop.
  \<^item> \<^verbatim>\<open>Language_Tests\<close> (\<^verbatim>\<open>src/tests\<close>): the three test programs; the first exchanges a packet with a client,
    the second takes permutations of its commands for the commands, the third sums bytes as the checksum does.
  \<^item> \<^verbatim>\<open>Socket_Dpi\<close> (\<^verbatim>\<open>hdl/socket_dpi_pkg.c\<close>): the C library, and that it agrees with the class \<^verbatim>\<open>Socket\<close>.
  \<^item> \<^verbatim>\<open>Sv_Shadow\<close> (\<^verbatim>\<open>hdl/gdb_shadow_pkg.sv\<close>): the whole class; memory through the locale \<^verbatim>\<open>shadow_memory\<close>,
    record, replay and revert over an abstract architecture state, with the unknown bits that control
    registers lose, and when a step stops.
  \<^item> \<^verbatim>\<open>Sv_Steps\<close>: the steps forward and backward; after any session of steps (the relation \<^verbatim>\<open>walk\<close>) whose
    trace holds the values the instructions found (\<^verbatim>\<open>recorded\<close>) the shadow shows the instructions up to the
    counter.  The code never completes these values itself, and the adapter of the example processor delivers
    others, so that there a step back loses them.  This adapter is modelled here too.
  \<^item> \<^verbatim>\<open>Sv_Packet\<close>: the packet layer of the stub, compared with the one in C++.
  \<^item> \<^verbatim>\<open>Sv_Stub\<close> (\<^verbatim>\<open>hdl/gdb_server_stub_pkg.sv\<close>): the state of the stub, every handler, the dispatcher, the
    loops, the state machine and the constructor, in the order of the source.
  \<^item> \<^verbatim>\<open>Sv_Handlers\<close>: a packet from the wire to the wire, memory and registers written and read back,
    breakpoints.  \<^verbatim>\<open>Sv_Queries\<close>: monitor commands, features, acknowledgements, detaching.
    \<^verbatim>\<open>Sv_Invariant\<close>: the invariant of the stub over every run of its state machine.  \<^verbatim>\<open>Sv_Run\<close>: continuing
    to a stop, continuing backward to an end, and Ctrl+C.
  \<^item> \<^verbatim>\<open>Sv_Session\<close>: an abstract target (memory, registers, points, last stop, acknowledge mode) with the
    effect and the reply of each request; \<^verbatim>\<open>target_of\<close> abstracts the stub.  The state machine fed with the
    packets of any list of requests implements it (\<^verbatim>\<open>sv_session_refines\<close>), a request that arrives while the
    processor runs is served between two instructions, and a new stub shows the initial target.
  \<^item> \<^verbatim>\<open>Sv_Nerv\<close> (\<^verbatim>\<open>hdl/nerv/nerv_soc.sv\<close>, \<^verbatim>\<open>hdl/nerv/nerv_gdb.sv\<close>): the memory and the bus of the example
    system and the adapter, as the processor of the stub; the stub, the adapter and the core agree on the
    memory.  Memories of single bytes share the locale \<^verbatim>\<open>byte_memory\<close>.

  \<^bold>\<open>Parameters.\<close>  The environment supplies the answers of \<^verbatim>\<open>recv\<close>, \<^verbatim>\<open>send\<close> and \<^verbatim>\<open>accept\<close>, with any cutting of
  the byte stream, partial sends and errors.  \<^verbatim>\<open>std::hash\<close> is a function \<^verbatim>\<open>hash\<close> about which
  nothing is assumed.  The initial members of \<^verbatim>\<open>m_state\<close>, which the source leaves without a value, are an
  argument of the constructor.  The option parser is the record \<^verbatim>\<open>cli\<close> of its answers.  The processor under
  the SystemVerilog stub is the record \<^verbatim>\<open>dut_ops\<close> of its virtual functions over a state of the simulation;
  the core of the example system, third-party code, is the record \<^verbatim>\<open>core\<close>.

  \<^bold>\<open>Not modelled.\<close>  The class templates are taken at the types that \<^verbatim>\<open>hdldb.hpp\<close> instantiates (32-bit
  registers) where the protocol uses them.  Members that do not compile when instantiated and are never
  called are left out: \<^verbatim>\<open>MemoryMap::load\<close> and \<^verbatim>\<open>store\<close>, \<^verbatim>\<open>System::snapshotLoad\<close>, \<^verbatim>\<open>error_text_reply\<close>,
  \<^verbatim>\<open>error_lldb_reply\<close>, \<^verbatim>\<open>console_output\<close>; \<^verbatim>\<open>Points::insert\<close> and \<^verbatim>\<open>match\<close> are modelled with two expressions read
  as intended, as their theory says.  The classes in SystemVerilog are taken
  at 32 bits.  Standard error output, the log messages of the stub, waveform dumping and the test
  bench of the example system are outside this development.
\<close>

end
